(* ===== verification/Prelude.thy ===== *)
theory Prelude
  imports Main "HOL-Library.Word"
begin

text \<open>
  Shared groundwork of the development: the faults a C++ routine of the program can end in, the
  two effect types the components use (a pure computation that may fault, and a computation over
  a state that may fault), the pieces of the C++ standard library the sources call
  (\<^verbatim>\<open>std::find\<close>, \<^verbatim>\<open>std::isspace\<close>, \<^verbatim>\<open>std::to_string\<close>, \<^verbatim>\<open>std::from_chars\<close>), and the generic
  lemmas that the component theories carry into their proofs.
\<close>

section \<open>Collections of facts\<close>

named_theorems prog_simps \<open>unfolding of the effect combinators\<close>

section \<open>Faults\<close>

text \<open>
  How a routine can stop other than by returning: the exceptions of the C++ library that the
  sources can raise (none of them is caught anywhere in the program), a failed \<^verbatim>\<open>assert\<close>, an
  access that the language leaves undefined (reading outside a container, forming an iterator
  outside its range, passing a null pointer), and a loop that never returns.
\<close>

datatype fault =
    Out_of_range
  | Bad_optional_access
  | Bad_variant_access
  | Invalid_argument
  | Assertion_failed
  | Undefined_behaviour
  | Length_error
  | Diverges

section \<open>Computations that may fault\<close>

text \<open>A pure computation is a value of \<open>fault + 'a\<close>; \<open>bindE\<close> continues after success.\<close>

fun bindE :: "fault + 'a \<Rightarrow> ('a \<Rightarrow> fault + 'b) \<Rightarrow> fault + 'b" where
  "bindE (Inl e) k = Inl e"
| "bindE (Inr x) k = k x"

lemma bindE_eq_Inr: "bindE m k = Inr y \<longleftrightarrow> (\<exists>x. m = Inr x \<and> k x = Inr y)"
  by (cases m) auto

lemma bindE_cong [fundef_cong]:
  "m = m' \<Longrightarrow> (\<And>x. m' = Inr x \<Longrightarrow> k x = k' x) \<Longrightarrow> bindE m k = bindE m' k'"
  by (cases m') auto

lemma bindE_assoc: "bindE (bindE m f) g = bindE m (\<lambda>x. bindE (f x) g)"
  by (cases m) auto

lemma bindE_Inr_right [simp]: "bindE m Inr = m"
  by (cases m) auto

text \<open>
  A computation over a state keeps the state it has reached when it faults: what a handler wrote
  to the database before an exception stays written.
\<close>

type_synonym ('s, 'a) prog = "'s \<Rightarrow> (fault + 'a) \<times> 's"

definition returnP :: "'a \<Rightarrow> ('s, 'a) prog" where
  [prog_simps]: "returnP x s = (Inr x, s)"

definition liftE :: "fault + 'a \<Rightarrow> ('s, 'a) prog" where
  [prog_simps]: "liftE r s = (r, s)"

definition bind :: "('s, 'a) prog \<Rightarrow> ('a \<Rightarrow> ('s, 'b) prog) \<Rightarrow> ('s, 'b) prog" where
  "bind m k s = (case m s of (Inl e, t) \<Rightarrow> (Inl e, t) | (Inr x, t) \<Rightarrow> k x t)"

definition seq :: "('s, 'a) prog \<Rightarrow> ('s, 'b) prog \<Rightarrow> ('s, 'b) prog" where
  "seq m k = bind m (\<lambda>_. k)"

definition gets :: "('s \<Rightarrow> 'a) \<Rightarrow> ('s, 'a) prog" where
  [prog_simps]: "gets f s = (Inr (f s), s)"

definition modify :: "('s \<Rightarrow> 's) \<Rightarrow> ('s, unit) prog" where
  [prog_simps]: "modify f s = (Inr (), f s)"

lemma bind_Inl: "m s = (Inl e, t) \<Longrightarrow> bind m k s = (Inl e, t)"
  by (simp add: bind_def)

lemma bind_Inr: "m s = (Inr x, t) \<Longrightarrow> bind m k s = k x t"
  by (simp add: bind_def)

lemma bind_returnP [simp]: "bind (returnP x) k s = k x s"
  by (simp add: bind_def returnP_def)

lemma bind_gets [simp]: "bind (gets f) k s = k (f s) s"
  by (simp add: bind_def gets_def)

lemma bind_modify [simp]: "bind (modify f) k s = k () (f s)"
  by (simp add: bind_def modify_def)

lemma bind_liftE_Inr [simp]: "bind (liftE (Inr x)) k s = k x s"
  by (simp add: bind_def liftE_def)

lemma bind_liftE_Inl [simp]: "bind (liftE (Inl e)) k s = (Inl e, s)"
  by (simp add: bind_def liftE_def)

lemma bind_assoc: "bind (bind m f) g = bind m (\<lambda>x. bind (f x) g)"
  by (rule ext) (auto simp: bind_def split: prod.splits sum.splits)

lemma seq_assoc: "seq (seq a b) c = seq a (seq b c)"
  by (simp add: seq_def bind_assoc)

text \<open>
  \<open>keeps f m\<close>: running \<open>m\<close> leaves the part \<open>f\<close> of the state as it was, however \<open>m\<close> ends. The rules
  follow the structure of a program, so that a frame property of a whole routine is proved by
  applying them.
\<close>

definition keeps :: "('s \<Rightarrow> 'b) \<Rightarrow> ('s, 'a) prog \<Rightarrow> bool" where
  "keeps f m \<longleftrightarrow> (\<forall>s. f (snd (m s)) = f s)"

named_theorems frame \<open>rules for frame properties\<close>

lemma keepsD: "keeps f m \<Longrightarrow> m s = (r, t) \<Longrightarrow> f t = f s"
  by (metis keeps_def snd_conv)

lemma keeps_returnP [frame]: "keeps f (returnP x)"
  by (simp add: keeps_def returnP_def)

lemma keeps_liftE [frame]: "keeps f (liftE r)"
  by (simp add: keeps_def liftE_def)

lemma keeps_gets [frame]: "keeps f (gets g)"
  by (simp add: keeps_def gets_def)

lemma keeps_modify: "(\<And>s. f (g s) = f s) \<Longrightarrow> keeps f (modify g)"
  by (simp add: keeps_def modify_def)

lemma keeps_bind [frame]:
  assumes "keeps f m" "\<And>x. keeps f (k x)"
  shows "keeps f (bind m k)"
  unfolding keeps_def
proof
  fix s
  obtain r t where m: "m s = (r, t)" by fastforce
  have "f t = f s" using assms(1) m by (rule keepsD)
  moreover have "f (snd (k x t)) = f t" for x using assms(2) by (simp add: keeps_def)
  ultimately show "f (snd (bind m k s)) = f s" using m by (cases r) (simp_all add: bind_def)
qed

lemma keeps_seq [frame]: "keeps f m \<Longrightarrow> keeps f k \<Longrightarrow> keeps f (seq m k)"
  by (simp add: seq_def keeps_bind)

lemma keeps_if [frame]: "(c \<Longrightarrow> keeps f a) \<Longrightarrow> (\<not> c \<Longrightarrow> keeps f b) \<Longrightarrow> keeps f (if c then a else b)"
  by simp

lemma keeps_option [frame]:
  "keeps f a \<Longrightarrow> (\<And>v. keeps f (k v)) \<Longrightarrow> keeps f (case x of None \<Rightarrow> a | Some v \<Rightarrow> k v)"
  by (cases x) simp_all

lemma keeps_prod [frame]: "(\<And>a b. keeps f (k a b)) \<Longrightarrow> keeps f (case p of (a, b) \<Rightarrow> k a b)"
  by (cases p) simp

section \<open>Searching text\<close>

text \<open>
  A \<^verbatim>\<open>std::string_view\<close> is the list of its characters, and the range between two iterators is
  the list of the characters in it. \<open>split_at c xs\<close> is \<^verbatim>\<open>std::find(first, last, c)\<close>: the
  characters before the first \<open>c\<close>, and the characters after it if there is one (\<^verbatim>\<open>None\<close> when
  the search stops at \<^verbatim>\<open>last\<close>).
\<close>

fun split_at :: "'a \<Rightarrow> 'a list \<Rightarrow> 'a list \<times> 'a list option" where
  "split_at c [] = ([], None)"
| "split_at c (x # xs) =
     (if x = c then ([], Some xs) else (case split_at c xs of (a, b) \<Rightarrow> (x # a, b)))"

lemma split_at_notin: "c \<notin> set xs \<Longrightarrow> split_at c xs = (xs, None)"
  by (induction xs) auto

lemma split_at_append [simp]: "c \<notin> set xs \<Longrightarrow> split_at c (xs @ c # ys) = (xs, Some ys)"
  by (induction xs) auto

lemma split_at_None_iff: "snd (split_at c xs) = None \<longleftrightarrow> c \<notin> set xs"
  by (induction xs) (auto split: prod.splits)

lemma split_at_Some:
  "split_at c xs = (a, Some b) \<Longrightarrow> xs = a @ c # b \<and> c \<notin> set a"
  by (induction xs arbitrary: a b) (auto split: if_splits prod.splits)

lemma split_at_None:
  "split_at c xs = (a, None) \<Longrightarrow> xs = a \<and> c \<notin> set a"
  by (induction xs arbitrary: a) (auto split: if_splits prod.splits)

lemma length_split_at: "split_at c xs = (a, Some b) \<Longrightarrow> length xs = Suc (length a + length b)"
  by (drule split_at_Some) simp

text \<open>Texts joined by single commas.\<close>

fun commas :: "string list \<Rightarrow> string" where
  "commas [] = []"
| "commas [x] = x"
| "commas (x # y # xs) = x @ '','' @ commas (y # xs)"

lemma commas_snoc: "commas (xs @ [x]) = (if xs = [] then x else commas xs @ '','' @ x)"
  by (induction xs rule: commas.induct) auto

text \<open>\<^verbatim>\<open>std::isspace\<close> in the default locale: space, and the control characters 9 to 13.\<close>

definition isspace :: "char \<Rightarrow> bool" where
  "isspace c \<longleftrightarrow> of_char c = (32::nat) \<or> (9 \<le> (of_char c :: nat) \<and> of_char c \<le> (13::nat))"

section \<open>Numbers and text\<close>

text \<open>
  \<^verbatim>\<open>std::to_string\<close> of an unsigned number is its decimal digits. \<^verbatim>\<open>std::from_chars\<close> reads an
  unsigned integer of a given width: it takes the longest run of decimal digits at the start of
  the range (no sign, no white space, whatever follows is ignored), fails when there is no digit
  (\<^verbatim>\<open>errc::invalid_argument\<close>) and when the number does not fit (\<^verbatim>\<open>errc::result_out_of_range\<close>);
  \<open>None\<close> stands for either error code.
\<close>

definition digit_char :: "nat \<Rightarrow> char" where
  "digit_char d = char_of (48 + d)"

definition is_digit :: "char \<Rightarrow> bool" where
  "is_digit c \<longleftrightarrow> 48 \<le> (of_char c :: nat) \<and> of_char c \<le> (57::nat)"

definition digit_val :: "char \<Rightarrow> nat" where
  "digit_val c = of_char c - 48"

fun to_string :: "nat \<Rightarrow> string" where
  "to_string n = (if n < 10 then [digit_char n] else to_string (n div 10) @ [digit_char (n mod 10)])"

declare to_string.simps [simp del]

text \<open>\<^verbatim>\<open>std::to_string(int)\<close>\<close>

definition int_to_string :: "int \<Rightarrow> string" where
  "int_to_string i = (if i < 0 then ''-'' @ to_string (nat (- i)) else to_string (nat i))"

definition num_val :: "string \<Rightarrow> nat" where
  "num_val ds = foldl (\<lambda>n c. 10 * n + digit_val c) 0 ds"

definition from_chars :: "nat \<Rightarrow> string \<Rightarrow> nat option" where
  "from_chars bits s =
     (let ds = takeWhile is_digit s
      in if ds = [] then None
         else if num_val ds < 2 ^ bits then Some (num_val ds) else None)"

lemma of_char_digit_char: "d < 10 \<Longrightarrow> of_char (digit_char d) = 48 + d"
  by (simp add: digit_char_def)

lemma is_digit_digit_char [simp]: "d < 10 \<Longrightarrow> is_digit (digit_char d)"
  by (simp add: is_digit_def of_char_digit_char)

lemma digit_val_digit_char [simp]: "d < 10 \<Longrightarrow> digit_val (digit_char d) = d"
  by (simp add: digit_val_def of_char_digit_char)

lemma to_string_digits: "c \<in> set (to_string n) \<Longrightarrow> is_digit c"
proof (induction n rule: to_string.induct)
  case (1 n)
  then show ?case
    by (cases "n < 10") (auto simp: to_string.simps [of n])
qed

lemma to_string_not_Nil [simp]: "to_string n \<noteq> []"
  by (simp add: to_string.simps)

lemma num_val_snoc [simp]: "num_val (ds @ [c]) = 10 * num_val ds + digit_val c"
  by (simp add: num_val_def)

lemma num_val_to_string [simp]: "num_val (to_string n) = n"
proof (induction n rule: to_string.induct)
  case (1 n)
  show ?case
  proof (cases "n < 10")
    case True
    then show ?thesis by (simp add: to_string.simps [of n] num_val_def)
  next
    case False
    with 1 show ?thesis by (simp add: to_string.simps [of n])
  qed
qed

lemma to_string_inj: "to_string m = to_string n \<longleftrightarrow> m = n"
  by (metis num_val_to_string)

lemma takeWhile_to_string:
  "(\<And>c cs. rest = c # cs \<Longrightarrow> \<not> is_digit c) \<Longrightarrow> takeWhile is_digit (to_string n @ rest) = to_string n"
  by (cases rest) (auto simp: takeWhile_append to_string_digits)

lemma from_chars_to_string_rest:
  assumes "n < 2 ^ bits" and "\<And>c cs. rest = c # cs \<Longrightarrow> \<not> is_digit c"
  shows "from_chars bits (to_string n @ rest) = Some n"
  using assms by (simp add: from_chars_def takeWhile_to_string Let_def)

lemma from_chars_to_string [simp]: "n < 2 ^ bits \<Longrightarrow> from_chars bits (to_string n) = Some n"
  using from_chars_to_string_rest [of n bits "[]"] by simp

lemma from_chars_bound: "from_chars bits s = Some n \<Longrightarrow> n < 2 ^ bits"
  by (auto simp: from_chars_def Let_def split: if_splits)

lemma from_chars_Nil [simp]: "from_chars bits [] = None"
  by (simp add: from_chars_def)

end
