(* ===== verification/Query.thy ===== *)
theory Query
  imports Prelude
begin

text \<open>
  Query strings and form bodies (\<^verbatim>\<open>Shared/include/Query.h\<close>): the parser \<^verbatim>\<open>parseURLValues\<close> and the
  lookups of \<^verbatim>\<open>queryBase\<close>. A \<^verbatim>\<open>query\<close> and a \<^verbatim>\<open>body\<close> differ only in where their text comes from;
  both are the map of their elements (neither class is iterated anywhere in the program).
  \<^verbatim>\<open>curl_easy_unescape\<close> is a parameter: \<open>unescape s\<close> is the decoded text, \<open>None\<close> the null pointer
  it returns on failure, which \<^verbatim>\<open>std::string::assign\<close> must not be given.
\<close>

section \<open>Definitions\<close>

type_synonym queryBase = "string \<rightharpoonup> string"

definition plusToSpace :: "string \<Rightarrow> string" where
  "plusToSpace s = map (\<lambda>c. if c = CHR ''+'' then CHR '' '' else c) s"

function parseURLLoop ::
  "(string \<Rightarrow> string option) \<Rightarrow> queryBase \<Rightarrow> string \<Rightarrow> fault + queryBase" where
  "parseURLLoop unescape ret it =
     (if it = [] then Inr ret
      else case split_at CHR ''&'' it of (seg, after) \<Rightarrow>
        (case split_at CHR ''='' seg of (name, val) \<Rightarrow>
           bindE
             (case val of
                Some v \<Rightarrow>
                  if v \<noteq> [] then
                    (case unescape (plusToSpace v) of
                       None \<Rightarrow> Inl Undefined_behaviour
                     | Some str \<Rightarrow> Inr (ret(name \<mapsto> str)))
                  else Inr (ret(name \<mapsto> []))
              | None \<Rightarrow> Inr (ret(name \<mapsto> [])))
             (\<lambda>ret. parseURLLoop unescape ret (case after of None \<Rightarrow> [] | Some rest \<Rightarrow> rest))))"
  by pat_completeness auto
termination
  by (relation "measure (\<lambda>(_, _, it). length it)")
    (auto dest: length_split_at [OF sym] split: option.splits)

declare parseURLLoop.simps [simp del]

definition parseURLValues :: "(string \<Rightarrow> string option) \<Rightarrow> string \<Rightarrow> fault + queryBase" where
  "parseURLValues unescape source = parseURLLoop unescape Map.empty source"

definition hasElement :: "queryBase \<Rightarrow> string \<Rightarrow> bool \<Rightarrow> bool" where
  "hasElement q name allowEmpty =
     (if \<not> allowEmpty then (case q name of None \<Rightarrow> False | Some v \<Rightarrow> v \<noteq> [])
      else (case q name of None \<Rightarrow> False | Some _ \<Rightarrow> True))"

text \<open>\<^verbatim>\<open>std::unordered_map::at\<close> throws when the element is missing.\<close>

definition getElement :: "queryBase \<Rightarrow> string \<Rightarrow> fault + string" where
  "getElement q name = (case q name of None \<Rightarrow> Inl Out_of_range | Some v \<Rightarrow> Inr v)"

fun containsAll :: "queryBase \<Rightarrow> string list \<Rightarrow> bool \<Rightarrow> bool" where
  "containsAll q [] allowEmpty = True"
| "containsAll q (i # strings) allowEmpty =
     (if \<not> hasElement q i allowEmpty then False else containsAll q strings allowEmpty)"

fun containsAny :: "queryBase \<Rightarrow> string list \<Rightarrow> bool \<Rightarrow> bool" where
  "containsAny q [] allowEmpty = False"
| "containsAny q (i # strings) allowEmpty =
     (if hasElement q i allowEmpty then True else containsAny q strings allowEmpty)"

section \<open>Lookups\<close>

lemma hasElement_getElement:
  "hasElement q n e \<Longrightarrow> \<exists>v. getElement q n = Inr v \<and> (e \<or> v \<noteq> [])"
  by (auto simp: hasElement_def getElement_def split: if_splits option.splits)

lemma hasElement_weaken: "hasElement q n False \<Longrightarrow> hasElement q n True"
  by (auto simp: hasElement_def split: option.splits)

lemma containsAll_iff: "containsAll q ns e \<longleftrightarrow> (\<forall>n \<in> set ns. hasElement q n e)"
  by (induction ns) auto

lemma containsAny_iff: "containsAny q ns e \<longleftrightarrow> (\<exists>n \<in> set ns. hasElement q n e)"
  by (induction ns) auto

section \<open>Parsing encoded forms\<close>

text \<open>
  The text a client sends for a list of fields; \<open>encode\<close> is the client's percent-encoding. The
  hypotheses of \<open>form_codec\<close> are what the HTML form encoding and \<^verbatim>\<open>curl_easy_unescape\<close> document.
\<close>

fun form_encode :: "(string \<Rightarrow> string) \<Rightarrow> (string \<times> string) list \<Rightarrow> string" where
  "form_encode encode [] = []"
| "form_encode encode [(k, v)] = k @ ''='' @ encode v"
| "form_encode encode ((k, v) # p # ps) = k @ ''='' @ encode v @ ''&'' @ form_encode encode (p # ps)"

definition field_name :: "string \<Rightarrow> bool" where
  "field_name k \<longleftrightarrow> k \<noteq> [] \<and> list_all (\<lambda>c. c \<notin> set ''&='') k"

definition form_codec :: "(string \<Rightarrow> string) \<Rightarrow> (string \<Rightarrow> string option) \<Rightarrow> string \<Rightarrow> bool" where
  "form_codec encode unescape v \<longleftrightarrow>
     CHR ''&'' \<notin> set (encode v) \<and> (encode v = [] \<longleftrightarrow> v = []) \<and>
     (v \<noteq> [] \<longrightarrow> unescape (plusToSpace (encode v)) = Some v)"

lemma field_name_chars: "field_name k \<Longrightarrow> CHR ''&'' \<notin> set k \<and> CHR ''='' \<notin> set k"
  by (auto simp: field_name_def list_all_iff)

lemma split_field:
  assumes "field_name k" "CHR ''&'' \<notin> set w"
  shows "split_at CHR ''&'' (k @ CHR ''='' # w) = (k @ CHR ''='' # w, None)"
    and "split_at CHR ''&'' (k @ CHR ''='' # w @ CHR ''&'' # rest) = (k @ CHR ''='' # w, Some rest)"
    and "split_at CHR ''='' (k @ CHR ''='' # w) = (k, Some w)"
  using field_name_chars [OF assms(1)] assms(2) split_at_append [of "CHR ''&''" "k @ CHR ''='' # w" rest]
  by (simp_all add: split_at_notin)

lemma parseURL_field:
  assumes "field_name k" "form_codec encode unescape v"
  shows "parseURLLoop unescape ret (k @ CHR ''='' # encode v) = Inr (ret(k \<mapsto> v))"
    and "parseURLLoop unescape ret (k @ CHR ''='' # encode v @ CHR ''&'' # rest)
       = parseURLLoop unescape (ret(k \<mapsto> v)) rest"
proof -
  note f = split_field [OF assms(1), of "encode v"]
  have c: "CHR ''&'' \<notin> set (encode v)" using assms(2) by (simp add: form_codec_def)
  have e: "parseURLLoop unescape r [] = Inr r" for r
    by (simp add: parseURLLoop.simps)
  show "parseURLLoop unescape ret (k @ CHR ''='' # encode v) = Inr (ret(k \<mapsto> v))"
    using assms(2) by (subst parseURLLoop.simps) (auto simp: f [OF c] e form_codec_def)
  show "parseURLLoop unescape ret (k @ CHR ''='' # encode v @ CHR ''&'' # rest)
       = parseURLLoop unescape (ret(k \<mapsto> v)) rest"
    using assms(2) by (subst parseURLLoop.simps) (auto simp: f [OF c] form_codec_def)
qed

lemma parseURL_form:
  assumes "list_all (\<lambda>(k, v). field_name k \<and> form_codec encode unescape v) ps"
  shows "parseURLLoop unescape ret (form_encode encode ps) = Inr (ret ++ map_of (rev ps))"
  using assms
proof (induction encode ps arbitrary: ret rule: form_encode.induct)
  case (1 encode)
  then show ?case by (simp add: parseURLLoop.simps)
next
  case (2 encode k v)
  then show ?case by (simp add: parseURL_field map_add_def fun_eq_iff)
next
  case (3 encode k v p ps)
  have "parseURLLoop unescape (ret(k \<mapsto> v)) (form_encode encode (p # ps))
      = Inr (ret(k \<mapsto> v) ++ map_of (rev (p # ps)))"
    using "3.prems" by (intro "3.IH") simp
  with "3.prems" show ?case
    by (simp add: parseURL_field map_add_def fun_eq_iff split: option.splits)
qed

section \<open>Properties\<close>

text \<open>C33. Parsing a form that was encoded field by field gives every field its value, the last
  value winning when a name is repeated. The encoder and \<^verbatim>\<open>curl_easy_unescape\<close> are any pair that
  fits together on the values at hand; names are not empty and contain no separator.\<close>

theorem parse_encoded_form:
  assumes "list_all (\<lambda>(k, v). field_name k \<and> form_codec encode unescape v) ps"
  shows "parseURLValues unescape (form_encode encode ps) = Inr (map_of (rev ps))"
  using parseURL_form [OF assms, of Map.empty] by (simp add: parseURLValues_def)

theorem parse_encoded_form_witness:
  "parseURLValues Some (form_encode (map (\<lambda>c. if c = CHR '' '' then CHR ''+'' else c))
      [(''username'', ''A B''), (''password'', ''''), (''username'', ''C'')])
   = Inr (map_of (rev [(''username'', ''A B''), (''password'', ''''), (''username'', ''C'')]))"
  by (rule parse_encoded_form) (simp add: field_name_def form_codec_def plusToSpace_def)

text \<open>The guards the handlers use before reading. \<^verbatim>\<open>containsAll\<close> (without empty values) holds
  exactly when reading each of the listed elements returns and gives a non-empty text, and
  \<^verbatim>\<open>containsAny\<close> (with empty values) exactly when reading some listed element returns.\<close>

theorem guards_spec:
  "(containsAll q names False \<longleftrightarrow>
      list_all (\<lambda>n. case getElement q n of Inl _ \<Rightarrow> False | Inr v \<Rightarrow> v \<noteq> []) names) \<and>
   (containsAny q names True \<longleftrightarrow>
      list_ex (\<lambda>n. case getElement q n of Inl _ \<Rightarrow> False | Inr v \<Rightarrow> True) names)"
  by (induction names) (auto simp: hasElement_def getElement_def split: option.splits)

text \<open>Empty names are accepted: a segment that begins with the separator is stored under the
  empty name.\<close>

theorem empty_name_stored:
  assumes "CHR ''&'' \<notin> set v" and "v \<noteq> []" and "unescape (plusToSpace v) = Some w"
  shows "parseURLValues unescape (''='' @ v) = Inr [[] \<mapsto> w]"
  using assms by (simp add: parseURLValues_def parseURLLoop.simps split_at_notin)

theorem empty_name_stored_witness: "parseURLValues Some (''='' @ ''x'') = Inr [[] \<mapsto> ''x'']"
  by (rule empty_name_stored) (simp_all add: plusToSpace_def)

end
