(* ===== verification/Database.thy ===== *)
theory Database
  imports Query
begin

text \<open>
  The database layer (\<^verbatim>\<open>Server/include/Database.h\<close>, \<^verbatim>\<open>Server/src/Database.cpp\<close>). SQLite itself is a
  parameter: the record \<open>sqlite3\<close> holds the functions of its C interface that the program calls,
  over a type \<open>'db\<close> of connection states and a type \<open>'st\<close> of prepared statements. On top of it stand
  the program's own classes: \<^verbatim>\<open>SQLCode\<close>, \<^verbatim>\<open>SQLResult\<close> with its row loop and its flat storage, and
  the two text generators. Every result of a query is rectangular, which is the contract the
  handlers rely on; it is the locale \<open>result_source\<close>.
\<close>

section \<open>The SQLite interface\<close>

record ('db, 'st) sqlite3 =
  sqlite3_prepare_v2 :: "'db \<Rightarrow> string \<Rightarrow> 'st option"
  sqlite3_bind_parameter_index :: "'st \<Rightarrow> string \<Rightarrow> int"
  sqlite3_bind_text :: "'st \<Rightarrow> int \<Rightarrow> string \<Rightarrow> 'st"
  sqlite3_column_count :: "'st \<Rightarrow> nat"
  sqlite3_column_name :: "'st \<Rightarrow> nat \<Rightarrow> string"
  sqlite3_step :: "'db \<Rightarrow> 'st \<Rightarrow> int \<times> 'db \<times> 'st"
  sqlite3_column_text :: "'st \<Rightarrow> nat \<Rightarrow> string option"
  sqlite3_finalize :: "'db \<Rightarrow> 'st \<Rightarrow> 'db"

text \<open>The result codes of SQLite that the sources name.\<close>

definition SQLITE_OK :: int where "SQLITE_OK = 0"
definition SQLITE_ERROR :: int where "SQLITE_ERROR = 1"
definition SQLITE_ROW :: int where "SQLITE_ROW = 100"
definition SQLITE_DONE :: int where "SQLITE_DONE = 101"

lemmas sqlite_codes = SQLITE_OK_def SQLITE_ERROR_def SQLITE_ROW_def SQLITE_DONE_def

section \<open>SQLCode and SQLResult\<close>

record SQLCode =
  errorCode :: int

definition isOK :: "SQLCode \<Rightarrow> bool" where
  "isOK c \<longleftrightarrow> errorCode c = SQLITE_OK"

record SQLResult =
  colCount :: nat
  cells :: "string list"
  colNames :: "string list"

definition emptyResult :: "nat \<Rightarrow> SQLResult" where
  "emptyResult n = \<lparr>colCount = n, cells = [], colNames = []\<rparr>"

text \<open>One row, with \<^verbatim>\<open>"NULL"\<close> for a null column.\<close>

definition readRow :: "('db, 'st) sqlite3 \<Rightarrow> nat \<Rightarrow> 'st \<Rightarrow> string list" where
  "readRow api n st =
     map (\<lambda>i. case sqlite3_column_text api st i of None \<Rightarrow> ''NULL'' | Some val \<Rightarrow> val) [0..<n]"

text \<open>The loop \<^verbatim>\<open>while (true)\<close> of \<^verbatim>\<open>execute\<close>: it may go on for ever, which is \<open>None\<close>.\<close>

partial_function (option) stepLoop ::
  "('db, 'st) sqlite3 \<Rightarrow> nat \<Rightarrow> 'db \<Rightarrow> 'st \<Rightarrow> string list \<Rightarrow> (int \<times> 'db \<times> 'st \<times> string list) option"
where
  "stepLoop api n db st acc =
     (let r = sqlite3_step api db st; status = fst r; db' = fst (snd r); st' = snd (snd r)
      in if status = SQLITE_ROW then stepLoop api n db' st' (acc @ readRow api n st')
         else Some (status, db', st', acc))"

definition execute ::
  "('db, 'st) sqlite3 \<Rightarrow> SQLResult \<Rightarrow> 'st \<Rightarrow> ('db, SQLCode \<times> SQLResult) prog" where
  "execute api r st db =
     (case stepLoop api (colCount r) db st (cells r) of
        None \<Rightarrow> (Inl Diverges, db)
      | Some (status, db', st', acc) \<Rightarrow>
          (Inr (if status = SQLITE_DONE then \<lparr>errorCode = SQLITE_OK\<rparr> else \<lparr>errorCode = status\<rparr>,
                r\<lparr>cells := acc\<rparr>),
           sqlite3_finalize api db' st'))"

text \<open>Binding the named parameters, in the iteration order of the \<^verbatim>\<open>std::unordered_map\<close>; \<open>Inl\<close> is
  the statement at the point where a name is unknown.\<close>

fun bindParams :: "('db, 'st) sqlite3 \<Rightarrow> 'st \<Rightarrow> (string \<times> string) list \<Rightarrow> 'st + 'st" where
  "bindParams api st [] = Inr st"
| "bindParams api st ((name, val) # ps) =
     (let i = sqlite3_bind_parameter_index api st name
      in if i \<noteq> 0 then bindParams api (sqlite3_bind_text api st i val) ps else Inl st)"

text \<open>\<^verbatim>\<open>SQLResult::query\<close>; \<^verbatim>\<open>sqlite3DB::query\<close> only forwards to it.\<close>

definition query ::
  "('db, 'st) sqlite3 \<Rightarrow> string \<Rightarrow> (string \<times> string) list \<Rightarrow> ('db, SQLCode \<times> SQLResult) prog" where
  "query api SQL namedParams db =
     (if \<not> length SQL \<le> 2 ^ 31 - 1 then (Inl Assertion_failed, db)
      else case sqlite3_prepare_v2 api db SQL of
        None \<Rightarrow> (Inr (\<lparr>errorCode = SQLITE_ERROR\<rparr>, emptyResult 0), db)
      | Some st \<Rightarrow>
          (case bindParams api st namedParams of
             Inl st \<Rightarrow> (Inr (\<lparr>errorCode = SQLITE_ERROR\<rparr>, emptyResult 0), sqlite3_finalize api db st)
           | Inr st \<Rightarrow>
               execute api
                 ((emptyResult (sqlite3_column_count api st))
                   \<lparr>colNames := map (sqlite3_column_name api st) [0..<sqlite3_column_count api st]\<rparr>)
                 st db))"

definition columnCount :: "SQLResult \<Rightarrow> nat" where
  "columnCount r = colCount r"

text \<open>An integer division by zero is undefined.\<close>

definition rowCount :: "SQLResult \<Rightarrow> fault + nat" where
  "rowCount r = (if colCount r = 0 then Inl Undefined_behaviour else Inr (length (cells r) div colCount r))"

text \<open>\<^verbatim>\<open>result[row][col]\<close>: the flat vector is indexed without a check.\<close>

definition cell :: "SQLResult \<Rightarrow> nat \<Rightarrow> nat \<Rightarrow> fault + string" where
  "cell r row col =
     (let i = row * colCount r + col
      in if i < length (cells r) then Inr (cells r ! i) else Inl Undefined_behaviour)"

definition getColName :: "SQLResult \<Rightarrow> nat \<Rightarrow> fault + string" where
  "getColName r col =
     (if col < length (colNames r) then Inr (colNames r ! col) else Inl Undefined_behaviour)"

section \<open>Generated text\<close>

definition generateLIKEArgument :: "string \<Rightarrow> string" where
  "generateLIKEArgument val = ''%'' @ val @ ''%''"

text \<open>The relations come in the iteration order of the map they are passed in.\<close>

fun updateLoop :: "queryBase \<Rightarrow> string \<Rightarrow> (string \<times> string) list \<Rightarrow> fault + string" where
  "updateLoop b ret [] = Inr ret"
| "updateLoop b ret ((bodyElementName, tableElementName) # relations) =
     (if \<not> hasElement b bodyElementName False then updateLoop b ret relations
      else bindE (getElement b bodyElementName) (\<lambda>val.
        if val = [] then updateLoop b ret relations
        else updateLoop b
          ((if ret \<noteq> [] then ret @ '','' else ret) @ tableElementName @ '' = '' @ [CHR 0x22] @ val @ [CHR 0x22])
          relations))"

definition generateUpdateStatement :: "queryBase \<Rightarrow> (string \<times> string) list \<Rightarrow> fault + string" where
  "generateUpdateStatement b relations = updateLoop b [] relations"

section \<open>Results are rectangular\<close>

definition wf_result :: "SQLResult \<Rightarrow> bool" where
  "wf_result r \<longleftrightarrow> (\<exists>rows. length (cells r) = rows * colCount r)"

lemma stepLoop_rectangular:
  assumes "stepLoop api n db st acc = Some (status, db', st', acc')" and "n dvd length acc"
  shows "n dvd length acc'"
proof -
  have "n dvd length acc \<longrightarrow> n dvd length (snd (snd (snd r)))"
    if "stepLoop api n db st acc = Some r" for r
  proof (rule stepLoop.raw_induct [where P = "\<lambda>api n db st acc r.
      n dvd length acc \<longrightarrow> n dvd length (snd (snd (snd r)))", OF _ that])
    fix f :: "('a, 'b) sqlite3 \<Rightarrow> nat \<Rightarrow> 'a \<Rightarrow> 'b \<Rightarrow> string list \<Rightarrow> (int \<times> 'a \<times> 'b \<times> string list) option"
      and api n db st acc r
    assume IH: "\<And>api n db st acc r. f api n db st acc = Some r \<Longrightarrow>
        n dvd length acc \<longrightarrow> n dvd length (snd (snd (snd r)))"
      and eq: "(let r = sqlite3_step api db st; status = fst r; db' = fst (snd r); st' = snd (snd r)
        in if status = SQLITE_ROW then f api n db' st' (acc @ readRow api n st')
           else Some (status, db', st', acc)) = Some r"
    show "n dvd length acc \<longrightarrow> n dvd length (snd (snd (snd r)))"
      using eq IH by (fastforce simp: Let_def readRow_def split: if_splits)
  qed
  with assms show ?thesis by fastforce
qed

lemma query_wf_result:
  assumes "query api SQL ps db = (Inr (c, r), db')"
  shows "wf_result r"
proof -
  have "wf_result r'" if "execute api r0 st db = (Inr (c', r'), db'')" "wf_result r0" for r0 st r' c' db''
    using that stepLoop_rectangular [of api "colCount r0" db st "cells r0"]
    by (auto simp: execute_def wf_result_def dvd_def mult.commute split: option.splits prod.splits)
  with assms show ?thesis
    by (auto simp: query_def wf_result_def emptyResult_def split: if_splits option.splits sum.splits)
qed

text \<open>The contract of a source of results, and what its clients get from it.\<close>

locale result_source =
  fixes run_query :: "string \<Rightarrow> (string \<times> string) list \<Rightarrow> ('s, SQLCode \<times> SQLResult) prog"
  assumes rectangular: "run_query SQL ps s = (Inr (c, r), t) \<Longrightarrow> wf_result r"
begin

lemma storage:
  assumes "run_query SQL ps s = (Inr (c, r), t)" "rowCount r = Inr n"
  shows "length (cells r) = n * columnCount r"
  using rectangular [OF assms(1)] assms(2) by (auto simp: wf_result_def rowCount_def columnCount_def split: if_splits)

lemma cell_in_range:
  assumes "run_query SQL ps s = (Inr (c, r), t)" "rowCount r = Inr n" "i < n" "j < columnCount r"
  shows "cell r i j = Inr (cells r ! (i * columnCount r + j))"
proof -
  note rows = storage [OF assms(1,2)]
  have "i * colCount r + j < (i + 1) * colCount r"
    using assms(4) by (simp add: columnCount_def)
  moreover have "(i + 1) * colCount r \<le> n * colCount r"
    using assms(3) by (intro mult_le_mono) simp_all
  ultimately show ?thesis
    using rows by (simp add: cell_def columnCount_def Let_def)
qed

lemma beyond_rows:
  assumes "run_query SQL ps s = (Inr (c, r), t)" "rowCount r = Inr n" "n \<le> i"
  shows "cell r i j = Inl Undefined_behaviour"
proof -
  have "n * colCount r \<le> i * colCount r + j" using assms(3) by (intro trans_le_add1 mult_le_mono1)
  with storage [OF assms(1,2)] show ?thesis unfolding cell_def columnCount_def Let_def by auto
qed

end

interpretation sqlite: result_source "query api" for api
  by unfold_locales (rule query_wf_result)

section \<open>When a query returns\<close>

text \<open>\<open>yields api n k db st\<close>: the statement gives exactly \<open>k\<close> rows and then stops; \<open>rows_of\<close> lists
  their cells and \<open>after_rows\<close> is what the last step left.\<close>

primrec yields :: "('db, 'st) sqlite3 \<Rightarrow> nat \<Rightarrow> 'db \<Rightarrow> 'st \<Rightarrow> bool" where
  "yields api 0 db st \<longleftrightarrow> fst (sqlite3_step api db st) \<noteq> SQLITE_ROW"
| "yields api (Suc k) db st \<longleftrightarrow> fst (sqlite3_step api db st) = SQLITE_ROW \<and>
     yields api k (fst (snd (sqlite3_step api db st))) (snd (snd (sqlite3_step api db st)))"

primrec rows_of :: "('db, 'st) sqlite3 \<Rightarrow> nat \<Rightarrow> nat \<Rightarrow> 'db \<Rightarrow> 'st \<Rightarrow> string list list" where
  "rows_of api n 0 db st = []"
| "rows_of api n (Suc k) db st = readRow api n (snd (snd (sqlite3_step api db st))) #
     rows_of api n k (fst (snd (sqlite3_step api db st))) (snd (snd (sqlite3_step api db st)))"

primrec after_rows :: "('db, 'st) sqlite3 \<Rightarrow> nat \<Rightarrow> 'db \<Rightarrow> 'st \<Rightarrow> int \<times> 'db \<times> 'st" where
  "after_rows api 0 db st = sqlite3_step api db st"
| "after_rows api (Suc k) db st =
     after_rows api k (fst (snd (sqlite3_step api db st))) (snd (snd (sqlite3_step api db st)))"

lemma stepLoop_yields:
  "yields api k db st \<Longrightarrow>
   stepLoop api n db st acc = (case after_rows api k db st of (status, db', st') \<Rightarrow>
     Some (status, db', st', acc @ concat (rows_of api n k db st)))"
proof (induction k arbitrary: db st acc)
  case 0
  then show ?case by (subst stepLoop.simps) (simp add: Let_def split: prod.split)
next
  case (Suc k)
  then show ?case by (subst stepLoop.simps) (simp add: Let_def)
qed

lemma length_rows_of [simp]: "length (rows_of api n k db st) = k"
  by (induction k arbitrary: db st) auto

lemma rows_of_width: "row \<in> set (rows_of api n k db st) \<Longrightarrow> length row = n"
  by (induction k arbitrary: db st) (auto simp: readRow_def)

lemma length_concat_rows: "length (concat (rows_of api n k db st)) = k * n"
  by (induction k arbitrary: db st) (auto simp: readRow_def)

lemma nth_concat_rows:
  "(\<And>row. row \<in> set rows \<Longrightarrow> length row = n) \<Longrightarrow> i < length rows \<Longrightarrow> j < n \<Longrightarrow>
   concat rows ! (i * n + j) = rows ! i ! j"
proof (induction rows arbitrary: i)
  case (Cons row rows)
  then show ?case by (cases i) (auto simp: nth_append add.assoc)
qed simp

lemma length_concat_eq:
  "(\<And>row. row \<in> set rows \<Longrightarrow> length row = n) \<Longrightarrow> length (concat rows) = length rows * n"
  by (induction rows) auto

section \<open>Update statements\<close>

text \<open>The assignments an update asks for, and the text of one of them.\<close>

definition assignments :: "queryBase \<Rightarrow> (string \<times> string) list \<Rightarrow> (string \<times> string) list" where
  "assignments b relations =
     concat (map (\<lambda>(n, col). case b n of None \<Rightarrow> [] | Some v \<Rightarrow> if v = [] then [] else [(col, v)]) relations)"

definition assignment_text :: "string \<times> string \<Rightarrow> string" where
  "assignment_text a = fst a @ '' = '' @ [CHR 0x22] @ snd a @ [CHR 0x22]"

lemma assignment_text_not_Nil [simp]: "assignment_text a \<noteq> []"
  by (simp add: assignment_text_def)

lemma commas_texts_Nil: "commas (map assignment_text as) = [] \<longleftrightarrow> as = []"
  by (cases as rule: remdups_adj.cases) auto

lemma assignments_Cons:
  "assignments b ((n, col) # relations) =
     (case b n of None \<Rightarrow> [] | Some v \<Rightarrow> if v = [] then [] else [(col, v)]) @ assignments b relations"
  by (simp add: assignments_def)

lemma updateLoop_commas:
  "updateLoop b (commas (map assignment_text as)) relations
     = Inr (commas (map assignment_text (as @ assignments b relations)))"
proof (induction relations arbitrary: as)
  case Nil
  then show ?case by (simp add: assignments_def)
next
  case (Cons r relations)
  obtain n col where r: "r = (n, col)" by (cases r)
  have step: "(if commas (map assignment_text as) \<noteq> [] then commas (map assignment_text as) @ '','' else
        commas (map assignment_text as)) @ assignment_text (col, v)
      = commas (map assignment_text (as @ [(col, v)]))" for v
    by (simp add: commas_snoc commas_texts_Nil)
  show ?case
  proof (cases "\<exists>v. b n = Some v \<and> v \<noteq> []")
    case True
    then obtain v where v: "b n = Some v" "v \<noteq> []" by blast
    then have "updateLoop b (commas (map assignment_text as)) (r # relations)
        = updateLoop b ((if commas (map assignment_text as) \<noteq> [] then commas (map assignment_text as) @ '',''
            else commas (map assignment_text as)) @ assignment_text (col, v)) relations"
      by (simp add: r hasElement_def getElement_def assignment_text_def)
    also have "\<dots> = updateLoop b (commas (map assignment_text (as @ [(col, v)]))) relations"
      by (simp only: step)
    finally show ?thesis
      using v Cons.IH [of "as @ [(col, v)]"] by (simp add: r assignments_Cons)
  next
    case False
    then show ?thesis
      using Cons.IH [of as] by (auto simp: r hasElement_def getElement_def assignments_Cons split: option.splits)
  qed
qed

lemma generateUpdateStatement_eq:
  "generateUpdateStatement b relations = Inr (commas (map assignment_text (assignments b relations)))"
  using updateLoop_commas [of b "[]"] by (simp add: generateUpdateStatement_def)

section \<open>Connections given by a function\<close>

text \<open>
  Concrete instances of the interface, on which the theorems about handlers are applied: a statement
  is executed as a whole by a function \<open>run\<close> from its text, the values bound to it and the state of the
  connection to a result code, its rows and the new state, and \<open>width\<close> gives the number of its
  columns. A statement holds its text, the values bound so far, what is left of its outcome once it has
  been stepped, and the current row.
\<close>

type_synonym table_stmt = "string \<times> string list \<times> (int \<times> string list list) option \<times> string list"

definition tableStep ::
  "(string \<Rightarrow> string list \<Rightarrow> 'db \<Rightarrow> int \<times> string list list \<times> 'db) \<Rightarrow> 'db \<Rightarrow> table_stmt \<Rightarrow> int \<times> 'db \<times> table_stmt" where
  "tableStep run db st = (case st of (SQL, vals, pending, cur) \<Rightarrow>
     let (code, rows, db') = (case pending of Some (code, rows) \<Rightarrow> (code, rows, db) | None \<Rightarrow> run SQL vals db)
     in case rows of [] \<Rightarrow> (code, db', (SQL, vals, Some (code, []), cur))
        | row # rest \<Rightarrow> (SQLITE_ROW, db', (SQL, vals, Some (code, rest), row)))"

definition table_sqlite ::
  "(string \<Rightarrow> string list \<Rightarrow> 'db \<Rightarrow> int \<times> string list list \<times> 'db) \<Rightarrow> (string \<Rightarrow> nat) \<Rightarrow> ('db, table_stmt) sqlite3" where
  "table_sqlite run width = \<lparr>
     sqlite3_prepare_v2 = (\<lambda>db SQL. Some (SQL, [], None, [])),
     sqlite3_bind_parameter_index = (\<lambda>st name. 1),
     sqlite3_bind_text = (\<lambda>(SQL, vals, pending, cur) i v. (SQL, vals @ [v], pending, cur)),
     sqlite3_column_count = (\<lambda>st. width (fst st)),
     sqlite3_column_name = (\<lambda>st i. ''COLUMN''),
     sqlite3_step = tableStep run,
     sqlite3_column_text = (\<lambda>(SQL, vals, pending, cur) i. if i < length cur then Some (cur ! i) else None),
     sqlite3_finalize = (\<lambda>db st. db)\<rparr>"

lemma bindParams_table:
  "bindParams (table_sqlite run width) (SQL, vals, pending, cur) ps = Inr (SQL, vals @ map snd ps, pending, cur)"
  by (induction ps arbitrary: vals) (auto simp: table_sqlite_def)

lemma stepLoop_table_pending:
  "list_all (\<lambda>row. length row = n) rows \<Longrightarrow> code \<noteq> SQLITE_ROW \<Longrightarrow> \<exists>st.
   stepLoop (table_sqlite run width) n db (SQL, vals, Some (code, rows), cur) acc = Some (code, db, st, acc @ concat rows)"
proof (induction rows arbitrary: acc cur)
  case Nil
  then show ?case by (subst stepLoop.simps) (simp add: table_sqlite_def tableStep_def)
next
  case (Cons row rows)
  have "sqlite3_step (table_sqlite run width) db (SQL, vals, Some (code, row # rows), cur)
      = (SQLITE_ROW, db, (SQL, vals, Some (code, rows), row))"
    by (simp add: table_sqlite_def tableStep_def)
  moreover have "readRow (table_sqlite run width) n (SQL, vals, Some (code, rows), row) = row"
    using Cons.prems by (auto simp: readRow_def table_sqlite_def intro!: nth_equalityI)
  ultimately show ?case using Cons.prems Cons.IH [of row "acc @ row"]
    by (subst stepLoop.simps) (simp add: Let_def)
qed

lemma stepLoop_table:
  assumes "run SQL vals db = (code, rows, db')" and "list_all (\<lambda>row. length row = n) rows" and "code \<noteq> SQLITE_ROW"
  shows "\<exists>st. stepLoop (table_sqlite run width) n db (SQL, vals, None, cur) [] = Some (code, db', st, concat rows)"
proof -
  have "sqlite3_step (table_sqlite run width) db (SQL, vals, None, cur)
      = sqlite3_step (table_sqlite run width) db' (SQL, vals, Some (code, rows), cur)"
    using assms(1) by (simp add: table_sqlite_def tableStep_def)
  then have "stepLoop (table_sqlite run width) n db (SQL, vals, None, cur) []
      = stepLoop (table_sqlite run width) n db' (SQL, vals, Some (code, rows), cur) []"
    by (subst (1 2) stepLoop.simps) (simp add: Let_def)
  then show ?thesis
    using stepLoop_table_pending [OF assms(2,3), of run width db' SQL vals cur "[]"] by simp
qed

lemma query_table:
  assumes "length SQL < 2 ^ 31" and "case run SQL (map snd ps) db of (code, rows, db') \<Rightarrow>
    code \<noteq> SQLITE_ROW \<and> list_all (\<lambda>row. length row = width SQL) rows"
  shows "query (table_sqlite run width) SQL ps db = (case run SQL (map snd ps) db of (code, rows, db') \<Rightarrow>
    (Inr (\<lparr>errorCode = if code = SQLITE_DONE then SQLITE_OK else code\<rparr>, \<lparr>colCount = width SQL, cells = concat rows,
       colNames = replicate (width SQL) ''COLUMN''\<rparr>), db'))"
proof -
  obtain code rows db' where r: "run SQL (map snd ps) db = (code, rows, db')" by (metis prod_cases3)
  have api: "sqlite3_prepare_v2 (table_sqlite run width) db SQL = Some (SQL, [], None, [])"
    "sqlite3_column_count (table_sqlite run width) (SQL, map snd ps, None, []) = width SQL"
    "\<And>st. sqlite3_column_name (table_sqlite run width) st = (\<lambda>i. ''COLUMN'')"
    "\<And>db st. sqlite3_finalize (table_sqlite run width) db st = db"
    by (simp_all add: table_sqlite_def)
  obtain st where "stepLoop (table_sqlite run width) (width SQL) db (SQL, map snd ps, None, []) []
      = Some (code, db', st, concat rows)"
    using stepLoop_table [where run = run and n = "width SQL" and width = width and cur = "[]", OF r] assms(2) r by auto
  with assms(1) api r show ?thesis
    by (simp add: query_def execute_def emptyResult_def bindParams_table map_replicate_const)
qed

text \<open>
  The scripted connection: every statement is accepted and gives the rows that the function \<open>answer\<close>
  lists for its text, and the state is the log of the statements that are not queries, with the
  values bound to them.
\<close>

type_synonym script_log = "(string \<times> string list) list"

definition isSelect :: "string \<Rightarrow> bool" where
  "isSelect SQL \<longleftrightarrow> take 6 SQL = ''SELECT''"

definition script_width :: "string list list \<Rightarrow> nat" where
  "script_width rows = (case rows of [] \<Rightarrow> 1 | row # _ \<Rightarrow> length row)"

definition scripted :: "(string \<Rightarrow> string list list) \<Rightarrow> (script_log, table_stmt) sqlite3" where
  "scripted answer = table_sqlite
     (\<lambda>SQL vals db. (SQLITE_DONE, answer SQL, if isSelect SQL then db else db @ [(SQL, vals)]))
     (\<lambda>SQL. script_width (answer SQL))"

lemma query_scripted:
  assumes "length SQL < 2 ^ 31" and "list_all (\<lambda>row. length row = script_width (answer SQL)) (answer SQL)"
  shows "query (scripted answer) SQL ps db =
    (Inr (\<lparr>errorCode = SQLITE_OK\<rparr>, \<lparr>colCount = script_width (answer SQL), cells = concat (answer SQL),
       colNames = replicate (script_width (answer SQL)) ''COLUMN''\<rparr>),
     if isSelect SQL then db else db @ [(SQL, map snd ps)])"
  unfolding scripted_def using assms by (simp add: query_table sqlite_codes)

section \<open>Properties\<close>

text \<open>C28. A query whose text is prepared, whose parameters are all known and whose statement stops
  after \<open>k\<close> rows returns; it has exactly \<open>k\<close> rows, every cell read by row and column is the column
  text that SQLite gave for that row, and it is reported as successful exactly when the last step
  was \<^verbatim>\<open>SQLITE_DONE\<close> or \<^verbatim>\<open>SQLITE_OK\<close>.\<close>

theorem query_returns_rows:
  assumes "length SQL < 2 ^ 31" and "sqlite3_prepare_v2 api db SQL = Some st0"
    and "bindParams api st0 ps = Inr st" and "sqlite3_column_count api st = n" and "0 < n"
    and "yields api k db st"
  shows "\<exists>c r db'. query api SQL ps db = (Inr (c, r), db') \<and> rowCount r = Inr k \<and> columnCount r = n \<and>
    (\<forall>i < k. \<forall>j < n. cell r i j = Inr (rows_of api n k db st ! i ! j)) \<and>
    (isOK c \<longleftrightarrow> fst (after_rows api k db st) \<in> {SQLITE_DONE, SQLITE_OK})"
proof -
  obtain status db' st' where ar: "after_rows api k db st = (status, db', st')"
    by (cases "after_rows api k db st") auto
  let ?r = "\<lparr>colCount = n, cells = concat (rows_of api n k db st),
    colNames = map (sqlite3_column_name api st) [0..<n]\<rparr>"
  let ?c = "if status = SQLITE_DONE then \<lparr>errorCode = SQLITE_OK\<rparr> else \<lparr>errorCode = status\<rparr>"
  have q: "query api SQL ps db = (Inr (?c, ?r), sqlite3_finalize api db' st')"
    using assms ar by (simp add: query_def execute_def emptyResult_def stepLoop_yields)
  have "cell ?r i j = Inr (rows_of api n k db st ! i ! j)" if "i < k" "j < n" for i j
  proof -
    have "i * n + j < (i + 1) * n" using that by simp
    also have "\<dots> \<le> k * n" using that by (intro mult_le_mono) simp_all
    finally show ?thesis
      using that by (simp add: cell_def length_concat_rows nth_concat_rows rows_of_width)
  qed
  then show ?thesis
    using q assms(5) ar
    by (auto simp: rowCount_def columnCount_def length_concat_rows isOK_def sqlite_codes intro!: exI)
qed

text \<open>A one-column table of two rows, as an instance of the interface.\<close>

definition tiny_sqlite :: "(nat, nat) sqlite3" where
  "tiny_sqlite = \<lparr>sqlite3_prepare_v2 = (\<lambda>_ _. Some 0), sqlite3_bind_parameter_index = (\<lambda>_ _. 0),
     sqlite3_bind_text = (\<lambda>st _ _. st), sqlite3_column_count = (\<lambda>_. 1), sqlite3_column_name = (\<lambda>_ _. ''ID''),
     sqlite3_step = (\<lambda>db st. (if st < 2 then SQLITE_ROW else SQLITE_DONE, db, Suc st)),
     sqlite3_column_text = (\<lambda>st _. if st = 1 then Some ''7'' else None), sqlite3_finalize = (\<lambda>db _. db)\<rparr>"

theorem query_returns_rows_witness:
  "\<exists>c r db'. query tiny_sqlite ''SELECT ID FROM USERS'' [] 0 = (Inr (c, r), db') \<and>
    rowCount r = Inr 2 \<and> columnCount r = 1 \<and>
    (\<forall>i < 2. \<forall>j < 1. cell r i j = Inr (rows_of tiny_sqlite 1 2 0 0 ! i ! j)) \<and>
    (isOK c \<longleftrightarrow> fst (after_rows tiny_sqlite 2 0 0) \<in> {SQLITE_DONE, SQLITE_OK})"
proof (rule query_returns_rows)
  show "yields tiny_sqlite 2 0 0"
    by (simp add: tiny_sqlite_def sqlite_codes numeral_2_eq_2)
qed (simp_all add: tiny_sqlite_def sqlite_codes)

text \<open>C29. Every result is rectangular. Whatever SQLite does, a query that returns stores exactly as many cells
  as the rows and columns it reports, so that reading within them gives the cell at that row and column, and
  reading a row beyond the last one, as the routes do that use the first row unchecked, leaves the storage.\<close>

theorem query_cells_in_range:
  assumes "query api SQL ps db = (Inr (c, r), db')" and "rowCount r = Inr n"
  shows "length (cells r) = n * columnCount r \<and>
    (\<forall>i. \<forall>j < columnCount r. cell r i j = (if i < n then Inr (cells r ! (i * columnCount r + j)) else Inl Undefined_behaviour))"
  using sqlite.storage [OF assms] sqlite.cell_in_range [OF assms] sqlite.beyond_rows [OF assms] by simp

theorem query_cells_in_range_witness:
  "cell \<lparr>colCount = 1, cells = [''7'', ''NULL''], colNames = [''ID'']\<rparr> 1 0 = Inr ''NULL'' \<and>
   cell \<lparr>colCount = 1, cells = [''7'', ''NULL''], colNames = [''ID'']\<rparr> 2 0 = Inl Undefined_behaviour"
proof -
  have q: "query tiny_sqlite ''SELECT ID FROM USERS'' [] 0
      = (Inr (\<lparr>errorCode = SQLITE_OK\<rparr>, \<lparr>colCount = 1, cells = [''7'', ''NULL''], colNames = [''ID'']\<rparr>), 0)"
    by (simp add: query_def execute_def emptyResult_def tiny_sqlite_def sqlite_codes readRow_def
        stepLoop.simps Let_def)
  have n: "rowCount \<lparr>colCount = 1, cells = [''7'', ''NULL''], colNames = [''ID'']\<rparr> = Inr 2"
    by (simp add: rowCount_def)
  from query_cells_in_range [OF q n] show ?thesis by (simp add: columnCount_def)
qed

text \<open>The update statement is the assignments of the listed elements that are present and not
  empty, in the iteration order of the relations and separated by commas; it never fails, and it is
  empty exactly when there is nothing to assign.\<close>

theorem generateUpdateStatement_spec:
  "generateUpdateStatement b relations = Inr (commas (map assignment_text (assignments b relations))) \<and>
   (generateUpdateStatement b relations = Inr [] \<longleftrightarrow>
     list_all (\<lambda>(n, col). \<not> hasElement b n False) relations)"
proof -
  have "assignments b relations = [] \<longleftrightarrow> list_all (\<lambda>(n, col). \<not> hasElement b n False) relations"
    by (induction relations) (auto simp: assignments_def hasElement_def split: option.splits)
  then show ?thesis by (simp add: generateUpdateStatement_eq commas_texts_Nil)
qed

text \<open>Values are pasted into the statement between quotation marks without escaping: one element
  whose value contains a quotation mark can produce the very text of an update that also assigns a
  second column, which the relations do not mention.\<close>

theorem update_injection:
  assumes "x \<noteq> []" and "y \<noteq> []" and "n \<noteq> m"
  shows "generateUpdateStatement [n \<mapsto> x @ [CHR 0x22] @ '','' @ col' @ '' = '' @ [CHR 0x22] @ y] [(n, col)]
    = generateUpdateStatement [n \<mapsto> x, m \<mapsto> y] [(n, col), (m, col')]"
  using assms by (simp add: generateUpdateStatement_eq assignments_def assignment_text_def)

theorem update_injection_witness:
  "generateUpdateStatement [''password'' \<mapsto> ''x'' @ [CHR 0x22] @ '','' @ ''PERMISSIONS'' @ '' = '' @ [CHR 0x22] @ ''3'']
      [(''password'', ''PASSWORD'')]
    = generateUpdateStatement [''password'' \<mapsto> ''x'', ''permissions'' \<mapsto> ''3'']
      [(''password'', ''PASSWORD''), (''permissions'', ''PERMISSIONS'')]"
  by (rule update_injection) simp_all

end
