(* ===== verification/Response.thy ===== *)
theory Response
  imports Prelude
begin

text \<open>
  The response format shared by the server and the translator
  (\<^verbatim>\<open>Shared/include/Response.h\<close>): the recursive value \<^verbatim>\<open>responseWrapper\<close>, its printer
  \<^verbatim>\<open>toData\<close> in the compact and in the padded layout, and its parsers \<^verbatim>\<open>fromData\<close> and
  \<^verbatim>\<open>fromUnformattedData\<close>. The theory proves that the printer refines a direct description of the
  text, that building a response keeps its invariant, and that the parsers give back what the
  printer was given.
\<close>

section \<open>The value\<close>

text \<open>
  An element holds either strings or objects (\<^verbatim>\<open>std::variant<stringContainer, objectContainer>\<close>);
  \<open>forcedArrays\<close> runs in parallel to \<open>elements\<close>.
\<close>

datatype responseWrapper =
    ResponseWrapper (elements: "(string \<times> elementContainer) list") (forcedArrays: "bool list")
and elementContainer =
    Strings "string list"
  | Objects "responseWrapper list"

definition emptyResponse :: responseWrapper where
  "emptyResponse = ResponseWrapper [] []"

fun cindex :: "elementContainer \<Rightarrow> nat" where
  "cindex (Strings _) = 0"
| "cindex (Objects _) = 1"

fun csize :: "elementContainer \<Rightarrow> nat" where
  "csize (Strings vs) = length vs"
| "csize (Objects os) = length os"

text \<open>\<open>find_it\<close> is the position of the iterator that the private \<^verbatim>\<open>find\<close> returns.\<close>

fun find_it :: "string \<Rightarrow> (string \<times> 'a) list \<Rightarrow> nat option" where
  "find_it key [] = None"
| "find_it key ((k, v) # es) = (if k = key then Some 0 else map_option Suc (find_it key es))"

definition search :: "responseWrapper \<Rightarrow> string \<Rightarrow> elementContainer option" where
  "search r key =
     (case find_it key (elements r) of None \<Rightarrow> None | Some i \<Rightarrow> Some (snd (elements r ! i)))"

text \<open>
  \<^verbatim>\<open>genericAdd<T>\<close>; the sum type is the template argument, \<open>Inl\<close> for \<^verbatim>\<open>std::string\<close> and \<open>Inr\<close>
  for \<^verbatim>\<open>responseWrapper\<close>. \<open>emplace\<close> is \<^verbatim>\<open>std::get<std::vector<T>>(it->second).emplace_back(value)\<close>.
\<close>

fun emplace :: "elementContainer \<Rightarrow> string + responseWrapper \<Rightarrow> fault + elementContainer" where
  "emplace (Strings vs) (Inl v) = Inr (Strings (vs @ [v]))"
| "emplace (Objects os) (Inr r) = Inr (Objects (os @ [r]))"
| "emplace _ _ = Inl Bad_variant_access"

fun isWrapper :: "string + responseWrapper \<Rightarrow> bool" where
  "isWrapper (Inl _) = False"
| "isWrapper (Inr _) = True"

definition genericAdd ::
  "responseWrapper \<Rightarrow> string \<Rightarrow> string + responseWrapper \<Rightarrow> bool \<Rightarrow> fault + responseWrapper" where
  "genericAdd r key value isForced =
     (case find_it key (elements r) of
        Some i \<Rightarrow>
          (case elements r ! i of (k, c) \<Rightarrow>
             if cindex c \<noteq> (if isWrapper value then 1 else 0) then Inl Assertion_failed
             else bindE (emplace c value) (\<lambda>c'.
               Inr (ResponseWrapper ((elements r)[i := (k, c')]) (forcedArrays r))))
      | None \<Rightarrow>
          bindE (emplace (if isWrapper value then Objects [] else Strings []) value) (\<lambda>c'.
            Inr (ResponseWrapper (elements r @ [(key, c')]) (forcedArrays r @ [isForced]))))"

definition addString :: "responseWrapper \<Rightarrow> string \<Rightarrow> string \<Rightarrow> bool \<Rightarrow> fault + responseWrapper" where
  "addString r key value forceArray = genericAdd r key (Inl value) forceArray"

definition addObject ::
  "responseWrapper \<Rightarrow> string \<Rightarrow> responseWrapper \<Rightarrow> bool \<Rightarrow> fault + responseWrapper" where
  "addObject r key value forceArray = genericAdd r key (Inr value) forceArray"

section \<open>Printing\<close>

abbreviation TAB :: char where "TAB \<equiv> CHR 0x09"
abbreviation NL :: char where "NL \<equiv> CHR 0x0A"
abbreviation QUOTE :: char where "QUOTE \<equiv> CHR 0x22"

definition addPadding :: "bool \<Rightarrow> string \<Rightarrow> char \<Rightarrow> nat \<Rightarrow> string" where
  "addPadding pad src val count = (if pad then src @ replicate count val else src)"

text \<open>\<^verbatim>\<open>src.erase(src.end() - n)\<close> removes the single character \<open>n\<close> places before the end.\<close>

definition erase_back :: "string \<Rightarrow> nat \<Rightarrow> string" where
  "erase_back src n = take (length src - n) src @ drop (Suc (length src - n)) src"

definition elementToData :: "string \<Rightarrow> nat \<Rightarrow> string \<Rightarrow> bool \<Rightarrow> bool \<Rightarrow> string" where
  "elementToData src depth value prespace pad =
     (let src = (if pad \<and> prespace then src @ replicate depth TAB else src)
      in if pad then src @ [QUOTE] @ value @ [QUOTE] else src @ value)"

text \<open>
  \<open>toData\<close> is the private member of that name; \<open>elementsToData\<close> is its loop over the elements,
  \<open>containerToData\<close> the template, and \<open>stringsToData\<close>, \<open>objectsToData\<close> the template's loop for the
  two element types. A missing entry of \<open>forcedArrays\<close> is a read outside the vector.
\<close>

fun stringsToData :: "string \<Rightarrow> nat \<Rightarrow> bool \<Rightarrow> string list \<Rightarrow> string" where
  "stringsToData src depth pad [] = src"
| "stringsToData src depth pad (v # vs) =
     stringsToData (addPadding pad (elementToData src depth v True pad @ '','') NL 1) depth pad vs"

fun toData :: "string \<Rightarrow> nat \<Rightarrow> bool \<Rightarrow> bool \<Rightarrow> responseWrapper \<Rightarrow> fault + string"
and elementsToData :: "string \<Rightarrow> nat \<Rightarrow> bool \<Rightarrow> (string \<times> elementContainer) list \<Rightarrow> bool list
      \<Rightarrow> fault + string"
and containerToData :: "string \<Rightarrow> nat \<Rightarrow> elementContainer \<Rightarrow> bool \<Rightarrow> bool \<Rightarrow> fault + string"
and objectsToData :: "string \<Rightarrow> nat \<Rightarrow> bool \<Rightarrow> responseWrapper list \<Rightarrow> fault + string"
where
  "toData src depth prespace pad (ResponseWrapper els forced) =
     (let src = (if prespace then addPadding pad src TAB depth else src);
          src = addPadding pad (src @ ''{'') NL 1
      in bindE (elementsToData src (depth + 1) pad els forced) (\<lambda>src.
           let src = (if els \<noteq> [] then erase_back src (1 + of_bool pad) else src)
           in Inr (addPadding pad src TAB (depth + 1 - 1) @ ''}'')))"
| "elementsToData src depth pad [] forced = Inr src"
| "elementsToData src depth pad ((key, value) # els) forced =
     (case forced of
        [] \<Rightarrow> Inl Undefined_behaviour
      | f # forced' \<Rightarrow>
          (let src = addPadding pad src TAB depth;
               src = elementToData src 0 key False False @ '':'';
               src = addPadding pad src CHR '' '' 1
           in bindE (containerToData src depth value f pad) (\<lambda>src.
                elementsToData (addPadding pad (src @ '','') NL 1) depth pad els forced')))"
| "containerToData src depth (Strings vs) forceArray pad =
     (if vs = [] then Inl Assertion_failed
      else if length vs > 1 \<or> forceArray then
        (let src = addPadding pad (src @ ''['') NL 1;
             src = stringsToData src (depth + 1) pad vs;
             src = erase_back src (1 + of_bool pad)
         in Inr (addPadding pad src TAB depth @ '']''))
      else Inr (elementToData src depth (hd vs) False pad))"
| "containerToData src depth (Objects os) forceArray pad =
     (case os of
        [] \<Rightarrow> Inl Assertion_failed
      | r # rs \<Rightarrow>
          (if length os > 1 \<or> forceArray then
             bindE (objectsToData (addPadding pad (src @ ''['') NL 1) (depth + 1) pad os) (\<lambda>src.
               Inr (addPadding pad (erase_back src (1 + of_bool pad)) TAB depth @ '']''))
           else toData src depth False pad r))"
| "objectsToData src depth pad [] = Inr src"
| "objectsToData src depth pad (r # rs) =
     bindE (toData src depth True pad r) (\<lambda>src.
       objectsToData (addPadding pad (src @ '','') NL 1) depth pad rs)"

text \<open>The public \<^verbatim>\<open>toData(pad)\<close>.\<close>

definition toDataString :: "bool \<Rightarrow> responseWrapper \<Rightarrow> fault + string" where
  "toDataString pad r = toData [] 0 False pad r"

section \<open>Parsing\<close>

text \<open>
  The lambda \<^verbatim>\<open>match\<close> of \<^verbatim>\<open>fromData\<close>. The counter starts at \<^verbatim>\<open>size_t(-1)\<close> and reaches 0 on the
  opening character, which is the only wrap-around (nesting is bounded by the length of the text);
  it is kept here as an integer. \<open>None\<close> is the iterator \<^verbatim>\<open>end\<close>.
\<close>

fun match_loop :: "char \<Rightarrow> char \<Rightarrow> int \<Rightarrow> string \<Rightarrow> nat option" where
  "match_loop open' close' depth [] = None"
| "match_loop open' close' depth (x # xs) =
     (let depth = (if x = open' then depth + 1 else depth)
      in if x = close'
         then (if depth = 0 then Some 0 else map_option Suc (match_loop open' close' (depth - 1) xs))
         else map_option Suc (match_loop open' close' depth xs))"

definition match_end :: "char \<Rightarrow> char \<Rightarrow> string \<Rightarrow> nat" where
  "match_end open' close' xs =
     (case match_loop open' close' (- 1) xs of None \<Rightarrow> length xs | Some k \<Rightarrow> k)"

lemma match_loop_bound: "match_loop p q d xs = Some k \<Longrightarrow> k < length xs"
  by (induction p q d xs arbitrary: k rule: match_loop.induct)
    (fastforce simp: Let_def split: if_splits)+

lemma match_end_bound: "match_end p q xs \<le> length xs"
  by (auto simp: match_end_def split: option.splits dest: match_loop_bound)

lemma match_end_blk: "match_end p q xs \<noteq> length xs \<Longrightarrow> 0 < length xs"
  by (cases xs) (auto simp: match_end_def)

lemma braces_length:
  "xs \<noteq> [] \<Longrightarrow> hd xs = CHR ''{'' \<Longrightarrow> last xs = CHR ''}'' \<Longrightarrow> 2 \<le> length xs"
  by (cases xs rule: rev_cases) (auto simp: Suc_le_eq hd_append split: if_splits)

lemma split_at_rest_length:
  "(a, more) = split_at c xs \<Longrightarrow> length (case more of None \<Rightarrow> [] | Some r \<Rightarrow> r) \<le> length xs"
  by (cases more) (auto dest: length_split_at [OF sym])

text \<open>The loop \<^verbatim>\<open>while (add()) {}\<close> over an array of values.\<close>

function splitValues :: "string \<Rightarrow> string list" where
  "splitValues blk =
     (case split_at CHR '','' blk of
        (v, None) \<Rightarrow> [v]
      | (v, Some rest) \<Rightarrow> v # splitValues rest)"
  by pat_completeness auto
termination
  by (relation "measure length") (auto dest: length_split_at [OF sym])

declare splitValues.simps [simp del]

text \<open>
  \<open>fromData\<close> with its main loop \<open>parseLoop\<close> and the loop \<open>addObjects\<close> over an array of objects.
  The range from \<^verbatim>\<open>left\<close> to \<^verbatim>\<open>end\<close> is the list \<open>rest\<close>; the character at \<^verbatim>\<open>end\<close> is the closing
  brace of \<open>data\<close>, so \<open>(nxt @ [the brace]) ! i\<close> reads the character \<open>i\<close> places after \<^verbatim>\<open>next\<close>. In
  \<open>addObjects\<close> the range from \<^verbatim>\<open>subleft\<close> to \<^verbatim>\<open>blockEnd\<close> is \<open>blk\<close> and the character at
  \<^verbatim>\<open>blockEnd\<close> is \<open>t\<close>. Where an unmatched bracket makes the code step an iterator beyond the end
  of the text, the result is \<open>Undefined_behaviour\<close>.
\<close>

function fromData :: "string \<Rightarrow> fault + responseWrapper option"
and parseLoop :: "(string \<times> elementContainer) list \<Rightarrow> bool list \<Rightarrow> string
      \<Rightarrow> fault + responseWrapper option"
and addObjects :: "responseWrapper list \<Rightarrow> string \<Rightarrow> char \<Rightarrow> fault + responseWrapper list option"
where
  "fromData data =
     (if data = [] then Inr (Some emptyResponse)
      else if hd data \<noteq> CHR ''{'' \<or> last data \<noteq> CHR ''}'' then Inr None
      else parseLoop [] [] (butlast (tl data)))"
| "parseLoop els forced rest =
     (if rest = [] then Inr (Some (ResponseWrapper els forced))
      else case split_at CHR '':'' rest of
        (key, None) \<Rightarrow> Inr (Some (ResponseWrapper els forced))
      | (key, Some nxt) \<Rightarrow>
          (let c = (nxt @ ''}'') ! 0;
               forced = forced @ [c = CHR ''['']
           in if c = CHR ''{'' then
                (let k = match_end CHR ''{'' CHR ''}'' nxt
                 in bindE (fromData (take (k + 1) (nxt @ ''}''))) (\<lambda>val.
                      case val of
                        None \<Rightarrow> Inr None
                      | Some v \<Rightarrow>
                          if k = length nxt then Inl Undefined_behaviour
                          else parseLoop (els @ [(key, Objects [v])]) forced (drop (k + 2) nxt)))
              else if c = CHR ''['' then
                (let k = match_end CHR ''['' CHR '']'' nxt;
                     blk = take (k - 1) (tl nxt)
                 in bindE
                      (if (nxt @ ''}'') ! 1 = CHR ''{'' then
                         bindE (addObjects [] blk ((nxt @ ''}'') ! k)) (\<lambda>val.
                           Inr (map_option Objects val))
                       else Inr (Some (Strings (splitValues blk)))) (\<lambda>val.
                      case val of
                        None \<Rightarrow> Inr None
                      | Some elems \<Rightarrow>
                          if k = length nxt then Inl Undefined_behaviour
                          else parseLoop (els @ [(key, elems)]) forced (drop (k + 2) nxt)))
              else
                (case split_at CHR '','' nxt of
                   (v, more) \<Rightarrow>
                     parseLoop (els @ [(key, Strings [v])]) forced
                       (case more of None \<Rightarrow> [] | Some rest' \<Rightarrow> rest'))))"
| "addObjects acc blk t =
     (if (blk @ [t]) ! 0 \<noteq> CHR ''{'' then Inl Assertion_failed
      else
        (let j = match_end CHR ''{'' CHR ''}'' blk
         in bindE (fromData (take (j + 1) (blk @ [t]))) (\<lambda>val.
              case val of
                None \<Rightarrow> Inr None
              | Some v \<Rightarrow>
                  if j + 1 = length blk then Inr (Some (acc @ [v]))
                  else if j = length blk then Inl Undefined_behaviour
                  else addObjects (acc @ [v]) (drop (j + 2) blk) t)))"
  by pat_completeness auto
termination
  by (relation "measure (\<lambda>x. case x of
      Inl data \<Rightarrow> 2 * length data
    | Inr (Inl (els, forced, rest)) \<Rightarrow> 2 * length rest + 3
    | Inr (Inr (acc, blk, t)) \<Rightarrow> 2 * length blk + 3)")
    (use match_end_bound in \<open>auto simp: min_def
       dest: match_end_blk braces_length split_at_rest_length dest!: length_split_at [OF sym]\<close>)

declare fromData.simps [simp del] parseLoop.simps [simp del] addObjects.simps [simp del]

section \<open>Formatted text\<close>

text \<open>
  \<^verbatim>\<open>fromUnformattedData\<close>: white space outside quotation marks is removed (the first
  \<^verbatim>\<open>remove_if\<close>, whose predicate carries the flag \<^verbatim>\<open>isQuote\<close>), then the quotation marks.
\<close>

fun removeSpaces :: "bool \<Rightarrow> string \<Rightarrow> string" where
  "removeSpaces isQuote [] = []"
| "removeSpaces isQuote (v # vs) =
     (let isQuote = (if v = QUOTE then \<not> isQuote else isQuote)
      in if \<not> isQuote \<and> isspace v then removeSpaces isQuote vs
         else v # removeSpaces isQuote vs)"

definition fromUnformattedData :: "string \<Rightarrow> fault + responseWrapper option" where
  "fromUnformattedData data = fromData (filter (\<lambda>v. v \<noteq> QUOTE) (removeSpaces False data))"

section \<open>What the printed text is\<close>

text \<open>
  \<open>shape_ok\<close> is the invariant of the class: one flag per element, no empty container, at every
  level. \<open>text_ok\<close> says that no key and no string holds a character the format gives a meaning to.
  \<open>enc\<close> describes the compact text directly, without an output buffer and without erasing.
\<close>

fun shape_ok :: "responseWrapper \<Rightarrow> bool"
and container_ok :: "elementContainer \<Rightarrow> bool"
where
  "shape_ok (ResponseWrapper els forced) \<longleftrightarrow>
     length forced = length els \<and> (\<forall>e \<in> set els. container_ok (snd e))"
| "container_ok (Strings vs) \<longleftrightarrow> vs \<noteq> []"
| "container_ok (Objects os) \<longleftrightarrow> os \<noteq> [] \<and> (\<forall>r \<in> set os. shape_ok r)"

definition key_ok :: "string \<Rightarrow> bool" where
  "key_ok k \<longleftrightarrow> list_all (\<lambda>c. c \<notin> set '':{}[]'') k"

definition value_ok :: "string \<Rightarrow> bool" where
  "value_ok v \<longleftrightarrow> list_all (\<lambda>c. c \<notin> set '',{}[]'') v"

fun text_ok :: "responseWrapper \<Rightarrow> bool"
and container_text_ok :: "elementContainer \<Rightarrow> bool"
where
  "text_ok (ResponseWrapper els forced) \<longleftrightarrow>
     (\<forall>e \<in> set els. key_ok (fst e) \<and> container_text_ok (snd e))"
| "container_text_ok (Strings vs) \<longleftrightarrow> (\<forall>v \<in> set vs. value_ok v)"
| "container_text_ok (Objects os) \<longleftrightarrow> (\<forall>r \<in> set os. text_ok r)"

fun enc :: "responseWrapper \<Rightarrow> string"
and encElements :: "(string \<times> elementContainer) list \<Rightarrow> bool list \<Rightarrow> string list"
and encContainer :: "bool \<Rightarrow> elementContainer \<Rightarrow> string"
and encObjects :: "responseWrapper list \<Rightarrow> string list"
where
  "enc (ResponseWrapper els forced) = ''{'' @ commas (encElements els forced) @ ''}''"
| "encElements [] forced = []"
| "encElements ((key, value) # els) forced =
     (key @ '':'' @ encContainer (hd forced) value) # encElements els (tl forced)"
| "encContainer f (Strings vs) = (if length vs > 1 \<or> f then ''['' @ commas vs @ '']'' else hd vs)"
| "encContainer f (Objects os) =
     (if length os > 1 \<or> f then ''['' @ commas (encObjects os) @ '']''
      else case os of [] \<Rightarrow> [] | r # _ \<Rightarrow> enc r)"
| "encObjects [] = []"
| "encObjects (r # rs) = enc r # encObjects rs"

text \<open>Parsing cannot tell a forced array from one with several entries: \<open>norm\<close> forgets the
  difference, which the printed text does not show.\<close>

fun norm :: "responseWrapper \<Rightarrow> responseWrapper"
and normContainer :: "elementContainer \<Rightarrow> elementContainer"
where
  "norm (ResponseWrapper els forced) =
     ResponseWrapper (map (\<lambda>e. (fst e, normContainer (snd e))) els)
       (map2 (\<lambda>f e. f \<or> csize (snd e) > 1) forced els)"
| "normContainer (Strings vs) = Strings vs"
| "normContainer (Objects os) = Objects (map norm os)"

lemma addPadding_False [simp]: "addPadding False src v n = src"
  by (simp add: addPadding_def)

lemma elementToData_False [simp]: "elementToData src d v p False = src @ v"
  by (simp add: elementToData_def)

lemma erase_back_1 [simp]: "erase_back (xs @ [x]) (Suc 0) = xs"
  by (simp add: erase_back_def)

lemma encElements_Nil_iff [simp]: "encElements els forced = [] \<longleftrightarrow> els = []"
  by (cases els) auto

lemma encObjects_Nil_iff [simp]: "encObjects os = [] \<longleftrightarrow> os = []"
  by (cases os) auto

text \<open>The loops print every entry followed by a comma; erasing the last comma leaves \<open>commas\<close>.\<close>

definition trailed :: "string list \<Rightarrow> string" where
  "trailed xs = concat (map (\<lambda>x. x @ '','') xs)"

lemma trailed_Nil [simp]: "trailed [] = []"
  by (simp add: trailed_def)

lemma trailed_Cons [simp]: "trailed (x # xs) = x @ '','' @ trailed xs"
  by (simp add: trailed_def)

lemma trailed_commas: "xs \<noteq> [] \<Longrightarrow> trailed xs = commas xs @ '',''"
  by (induction xs rule: commas.induct) auto

lemma erase_trailed: "xs \<noteq> [] \<Longrightarrow> erase_back (src @ trailed xs) (Suc 0) = src @ commas xs"
  using erase_back_1 [of "src @ commas xs" "CHR '',''"] by (simp add: trailed_commas)

lemma erase_trailed_Cons:
  "erase_back (src @ b # x @ CHR '','' # trailed xs) (Suc 0) = src @ b # commas (x # xs)"
  using erase_trailed [of "x # xs" "src @ [b]"] by simp

lemma stringsToData_compact: "stringsToData src d False vs = src @ trailed vs"
  by (induction vs arbitrary: src) auto

lemma toData_compact:
  "shape_ok r \<Longrightarrow> toData src d p False r = Inr (src @ enc r)"
  "length forced = length els \<Longrightarrow> \<forall>e \<in> set els. container_ok (snd e) \<Longrightarrow>
     elementsToData src d False els forced = Inr (src @ trailed (encElements els forced))"
  "container_ok c \<Longrightarrow> containerToData src d c f False = Inr (src @ encContainer f c)"
  "\<forall>r \<in> set os. shape_ok r \<Longrightarrow>
     objectsToData src d False os = Inr (src @ trailed (encObjects os))"
proof (induction src d p "False" r and src d "False" els forced and src d c f "False"
    and src d "False" os rule: toData_elementsToData_containerToData_objectsToData.induct)
  case (1 src d p els forced)
  then show ?case
    by (cases "els = []") (auto simp: erase_trailed [of "encElements els forced" "src @ ''{''", simplified])
next
  case (3 src d key c els forced)
  from "3.prems" obtain f fs where f: "forced = f # fs" by (cases forced) auto
  with "3.prems" "3.hyps"(1) [OF f refl refl refl] "3.hyps"(2) [OF f refl refl refl]
  show ?case by simp
next
  case (4 src d vs f)
  then show ?case
    by (simp add: stringsToData_compact erase_trailed [of vs "src @ ''[''", simplified])
next
  case (5 src d os f)
  then show ?case
    by (cases "f \<or> length os > 1") (auto simp: erase_trailed_Cons split: list.splits)
qed auto

section \<open>Matching brackets in printed text\<close>

text \<open>\<open>passes p q xs\<close>: the bracket search runs over \<open>xs\<close> and comes out at the depth it went in.\<close>

definition passes :: "char \<Rightarrow> char \<Rightarrow> string \<Rightarrow> bool" where
  "passes p q xs \<longleftrightarrow>
     (\<forall>d \<ge> 0. \<forall>rest. match_loop p q d (xs @ rest) = map_option (\<lambda>n. length xs + n) (match_loop p q d rest))"

lemma passes_Nil [simp]: "passes p q []"
  by (simp add: passes_def option.map_ident)

lemma passes_append: "passes p q xs \<Longrightarrow> passes p q ys \<Longrightarrow> passes p q (xs @ ys)"
  by (simp add: passes_def option.map_comp o_def add.assoc)

lemma passes_Cons: "x \<noteq> p \<Longrightarrow> x \<noteq> q \<Longrightarrow> passes p q xs \<Longrightarrow> passes p q (x # xs)"
  by (simp add: passes_def option.map_comp o_def)

lemma passes_plain: "p \<notin> set xs \<Longrightarrow> q \<notin> set xs \<Longrightarrow> passes p q xs"
  by (induction xs) (auto intro!: passes_Cons)

lemma passes_wrap:
  assumes "p \<noteq> q" "passes p q xs" shows "passes p q (p # xs @ [q])"
  unfolding passes_def
proof (intro allI impI)
  fix d :: int and rest assume "0 \<le> d"
  then have "match_loop p q (d + 1) (xs @ q # rest)
      = map_option (\<lambda>n. length xs + n) (match_loop p q (d + 1) (q # rest))"
    using assms(2) by (simp add: passes_def)
  with assms(1) \<open>0 \<le> d\<close> show "match_loop p q d ((p # xs @ [q]) @ rest)
      = map_option (\<lambda>n. length (p # xs @ [q]) + n) (match_loop p q d rest)"
    by (simp add: option.map_comp o_def)
qed

lemma passes_around:
  "x \<notin> {p, q} \<Longrightarrow> y \<notin> {p, q} \<Longrightarrow> passes p q xs \<Longrightarrow> passes p q (x # xs @ [y])"
  by (auto intro!: passes_Cons passes_append)

lemma passes_commas:
  "p \<noteq> CHR '','' \<Longrightarrow> q \<noteq> CHR '','' \<Longrightarrow> (\<And>x. x \<in> set xs \<Longrightarrow> passes p q x) \<Longrightarrow> passes p q (commas xs)"
  by (induction xs rule: commas.induct) (auto intro!: passes_append passes_Cons)

lemma match_end_wrap:
  assumes "p \<noteq> q" "passes p q xs" shows "match_end p q (p # xs @ q # rest) = Suc (length xs)"
proof -
  have "match_loop p q 0 (xs @ q # rest) = map_option (\<lambda>n. length xs + n) (match_loop p q 0 (q # rest))"
    using assms(2) by (simp add: passes_def)
  with assms(1) show ?thesis by (simp add: match_end_def)
qed

abbreviation bracket_pair :: "char \<Rightarrow> char \<Rightarrow> bool" where
  "bracket_pair p q \<equiv> (p, q) \<in> {(CHR ''{'', CHR ''}''), (CHR ''['', CHR '']'')}"

lemma key_ok_passes: "key_ok k \<Longrightarrow> bracket_pair p q \<Longrightarrow> passes p q k"
  by (rule passes_plain) (auto simp: key_ok_def list_all_iff)

lemma value_ok_passes: "value_ok v \<Longrightarrow> bracket_pair p q \<Longrightarrow> passes p q v"
  by (rule passes_plain) (auto simp: value_ok_def list_all_iff)

lemma passes_brackets:
  "bracket_pair p q \<Longrightarrow> passes p q xs \<Longrightarrow> passes p q (CHR ''{'' # xs @ ''}'')"
  "bracket_pair p q \<Longrightarrow> passes p q xs \<Longrightarrow> passes p q (CHR ''['' # xs @ '']'')"
  by (auto intro: passes_wrap passes_around)

lemma enc_passes:
  "bracket_pair p q \<Longrightarrow> text_ok r \<Longrightarrow> shape_ok r \<Longrightarrow> passes p q (enc r)"
  "bracket_pair p q \<Longrightarrow> \<forall>e \<in> set els. key_ok (fst e) \<and> container_text_ok (snd e) \<Longrightarrow>
     \<forall>e \<in> set els. container_ok (snd e) \<Longrightarrow> x \<in> set (encElements els forced) \<Longrightarrow> passes p q x"
  "bracket_pair p q \<Longrightarrow> container_text_ok c \<Longrightarrow> container_ok c \<Longrightarrow> passes p q (encContainer f c)"
  "bracket_pair p q \<Longrightarrow> \<forall>r \<in> set os. text_ok r \<Longrightarrow> \<forall>r \<in> set os. shape_ok r \<Longrightarrow>
     x \<in> set (encObjects os) \<Longrightarrow> passes p q x"
proof (induction r and els forced and f c and os
    arbitrary: and x and and x rule: enc_encElements_encContainer_encObjects.induct)
  case (1 els forced)
  then show ?case by (auto intro!: passes_brackets passes_commas)
next
  case (3 key c els forced)
  then show ?case by (auto intro!: passes_append passes_Cons intro: key_ok_passes)
next
  case (4 f vs)
  then show ?case by (auto intro!: passes_brackets passes_commas intro: value_ok_passes)
next
  case (5 f os)
  then show ?case by (auto intro!: passes_brackets passes_commas split: list.splits)
qed auto

section \<open>Parsing what was printed\<close>

text \<open>\<open>more m\<close> is what follows an element in the text: nothing, or a comma and the other elements.\<close>

fun more :: "string option \<Rightarrow> string" where
  "more None = []"
| "more (Some rest) = CHR '','' # rest"

abbreviation rest_of :: "string option \<Rightarrow> string" where
  "rest_of m \<equiv> (case m of None \<Rightarrow> [] | Some rest \<Rightarrow> rest)"

lemma split_at_key: "key_ok key \<Longrightarrow> split_at CHR '':'' (key @ CHR '':'' # xs) = (key, Some xs)"
  by (rule split_at_append) (auto simp: key_ok_def list_all_iff)

lemma value_ok_comma: "value_ok v \<Longrightarrow> CHR '','' \<notin> set v"
  by (auto simp: value_ok_def list_all_iff)

lemma split_at_value: "value_ok v \<Longrightarrow> split_at CHR '','' (v @ more m) = (v, m)"
  by (cases m) (simp_all add: split_at_notin value_ok_comma)

lemma drop_more [simp]: "drop (Suc 0) (more m) = rest_of m"
  by (cases m) auto

lemma splitValues_commas:
  "vs \<noteq> [] \<Longrightarrow> \<forall>v \<in> set vs. value_ok v \<Longrightarrow> splitValues (commas vs) = vs"
proof (induction vs rule: commas.induct)
  case (2 v)
  then have "split_at CHR '','' v = (v, None)"
    using split_at_value [of v None] by simp
  then show ?case by (subst splitValues.simps) simp
next
  case (3 v w vs)
  then have "split_at CHR '','' (commas (v # w # vs)) = (v, Some (commas (w # vs)))"
    using split_at_value [of v "Some (commas (w # vs))"] by simp
  with 3 show ?case by (subst splitValues.simps) simp
qed simp

lemma parseLoop_key:
  assumes "key_ok key"
  shows "parseLoop els forced (key @ CHR '':'' # nxt) =
    (let c = (nxt @ ''}'') ! 0;
         forced = forced @ [c = CHR ''['']
     in if c = CHR ''{'' then
          (let k = match_end CHR ''{'' CHR ''}'' nxt
           in bindE (fromData (take (k + 1) (nxt @ ''}''))) (\<lambda>val.
                case val of
                  None \<Rightarrow> Inr None
                | Some v \<Rightarrow>
                    if k = length nxt then Inl Undefined_behaviour
                    else parseLoop (els @ [(key, Objects [v])]) forced (drop (k + 2) nxt)))
        else if c = CHR ''['' then
          (let k = match_end CHR ''['' CHR '']'' nxt;
               blk = take (k - 1) (tl nxt)
           in bindE
                (if (nxt @ ''}'') ! 1 = CHR ''{'' then
                   bindE (addObjects [] blk ((nxt @ ''}'') ! k)) (\<lambda>val. Inr (map_option Objects val))
                 else Inr (Some (Strings (splitValues blk)))) (\<lambda>val.
                case val of
                  None \<Rightarrow> Inr None
                | Some elems \<Rightarrow>
                    if k = length nxt then Inl Undefined_behaviour
                    else parseLoop (els @ [(key, elems)]) forced (drop (k + 2) nxt)))
        else
          (case split_at CHR '','' nxt of
             (v, m) \<Rightarrow> parseLoop (els @ [(key, Strings [v])]) forced (rest_of m)))"
  by (subst parseLoop.simps) (simp add: split_at_key assms)

lemma nth_value: "value_ok v \<Longrightarrow> (v @ more m @ ''}'') ! 0 \<notin> {CHR ''{'', CHR ''[''}"
  by (cases v; cases m) (auto simp: value_ok_def)

lemma parse_single:
  assumes "key_ok key" "value_ok v"
  shows "parseLoop els forced (key @ CHR '':'' # v @ more m)
       = parseLoop (els @ [(key, Strings [v])]) (forced @ [False]) (rest_of m)"
  using nth_value [OF assms(2), of m] assms
  by (simp add: parseLoop_key split_at_value)

lemma commas_head:
  assumes "vs \<noteq> []" "\<forall>v \<in> set vs. value_ok v"
  shows "(commas vs @ CHR '']'' # rest) ! 0 \<noteq> CHR ''{''"
proof (cases "hd vs")
  case Nil
  with assms show ?thesis by (cases vs rule: commas.cases) auto
next
  case (Cons c cs)
  with assms have "c \<noteq> CHR ''{''" by (cases vs) (auto simp: value_ok_def)
  with Cons assms show ?thesis by (cases vs rule: commas.cases) auto
qed

lemma commas_passes_values:
  "\<forall>v \<in> set vs. value_ok v \<Longrightarrow> passes CHR ''['' CHR '']'' (commas vs)"
  by (rule passes_commas) (auto intro: value_ok_passes)

lemma parse_strings:
  assumes "key_ok key" "vs \<noteq> []" "\<forall>v \<in> set vs. value_ok v"
  shows "parseLoop els forced (key @ CHR '':'' # CHR ''['' # commas vs @ CHR '']'' # more m)
       = parseLoop (els @ [(key, Strings vs)]) (forced @ [True]) (rest_of m)"
  using assms commas_head [OF assms(2,3)]
  by (simp add: parseLoop_key match_end_wrap commas_passes_values splitValues_commas Let_def)

lemma enc_split:
  assumes "text_ok r" "shape_ok r"
  obtains body where "enc r = CHR ''{'' # body @ ''}''" "passes CHR ''{'' CHR ''}'' body"
proof (cases r)
  case (ResponseWrapper els forced)
  with assms have "passes CHR ''{'' CHR ''}'' (commas (encElements els forced))"
    by (auto intro!: passes_commas enc_passes(2))
  with ResponseWrapper show ?thesis by (intro that) auto
qed

lemma parse_object:
  assumes "key_ok key" "text_ok r" "shape_ok r" "fromData (enc r) = Inr (Some v)"
  shows "parseLoop els forced (key @ CHR '':'' # enc r @ more m)
       = parseLoop (els @ [(key, Objects [v])]) (forced @ [False]) (rest_of m)"
proof -
  from assms(2,3) obtain body where b: "enc r = CHR ''{'' # body @ ''}''"
    and p: "passes CHR ''{'' CHR ''}'' body" by (rule enc_split)
  show ?thesis
    using assms(4) by (simp add: parseLoop_key assms(1) b match_end_wrap p Let_def)
qed

lemma addObjects_enc:
  assumes "os \<noteq> []" "\<forall>r \<in> set os. text_ok r \<and> shape_ok r"
    "\<forall>r \<in> set os. fromData (enc r) = Inr (Some (norm r))"
  shows "addObjects acc (commas (encObjects os)) t = Inr (Some (acc @ map norm os))"
  using assms
proof (induction os arbitrary: acc)
  case Nil
  then show ?case by simp
next
  case (Cons r os)
  from Cons.prems obtain body where b: "enc r = CHR ''{'' # body @ ''}''"
    and p: "passes CHR ''{'' CHR ''}'' body" by (auto elim: enc_split)
  have d: "fromData (CHR ''{'' # body @ ''}'') = Inr (Some (norm r))"
    using Cons.prems b by simp
  show ?case
  proof (cases os)
    case Nil
    with d show ?thesis
      by (subst addObjects.simps) (simp add: b match_end_wrap [OF _ p] Let_def)
  next
    case (Cons r' os')
    then have c: "commas (encObjects (r # os))
        = CHR ''{'' # body @ CHR ''}'' # CHR '','' # commas (encObjects os)"
      by (simp add: b)
    from Cons.IH Cons.prems Cons
    have "addObjects (acc @ [norm r]) (commas (encObjects os)) t
        = Inr (Some ((acc @ [norm r]) @ map norm os))" by simp
    then show ?thesis
      unfolding c by (subst addObjects.simps) (simp add: d match_end_wrap [OF _ p] Let_def)
  qed
qed

text \<open>One element of the text takes the loop one element further; \<open>container_step\<close> says it for a
  container, and \<open>parse_elements\<close> runs the loop over all elements.\<close>

definition container_step :: "elementContainer \<Rightarrow> bool" where
  "container_step c \<longleftrightarrow>
     (\<forall>key els forced f m. key_ok key \<longrightarrow>
        parseLoop els forced (key @ CHR '':'' # encContainer f c @ more m)
      = parseLoop (els @ [(key, normContainer c)]) (forced @ [f \<or> csize c > 1]) (rest_of m))"

lemma parse_elements:
  assumes "length fs = length es" "\<forall>e \<in> set es. key_ok (fst e) \<and> container_step (snd e)"
  shows "parseLoop els forced (commas (encElements es fs)) =
    Inr (Some (ResponseWrapper (els @ map (\<lambda>e. (fst e, normContainer (snd e))) es)
      (forced @ map2 (\<lambda>f e. f \<or> csize (snd e) > 1) fs es)))"
  using assms
proof (induction es arbitrary: fs els forced)
  case Nil
  then show ?case by (subst parseLoop.simps) simp
next
  case (Cons e es)
  obtain key c where e: "e = (key, c)" by (cases e)
  from Cons.prems obtain f fs' where fs: "fs = f # fs'" "length fs' = length es"
    by (cases fs) auto
  define m where "m = (if es = [] then None else Some (commas (encElements es fs')))"
  have txt_eq: "commas (encElements (e # es) fs) = key @ CHR '':'' # encContainer f c @ more m"
    by (cases es) (auto simp: e fs m_def)
  have rest: "rest_of m = commas (encElements es fs')"
    by (simp add: m_def)
  have "container_step c" "key_ok key" using Cons.prems e by auto
  then have "parseLoop els forced (commas (encElements (e # es) fs))
      = parseLoop (els @ [(key, normContainer c)]) (forced @ [f \<or> csize c > 1])
          (commas (encElements es fs'))"
    unfolding txt_eq container_step_def rest [symmetric] by blast
  with Cons.IH [OF fs(2)] Cons.prems(2) show ?case by (simp add: e fs)
qed

lemma roundtrip_enc:
  "shape_ok r \<Longrightarrow> text_ok r \<Longrightarrow> fromData (enc r) = Inr (Some (norm r))"
  "container_ok c \<Longrightarrow> container_text_ok c \<Longrightarrow> container_step c"
proof (induction r and c)
  case (ResponseWrapper els forced)
  have "container_step (snd e)" if "e \<in> set els" for e
    using ResponseWrapper that by (cases e) (auto simp: snds.simps)
  with ResponseWrapper.prems have "parseLoop [] [] (commas (encElements els forced))
      = Inr (Some (norm (ResponseWrapper els forced)))"
    by (subst parse_elements) auto
  then show ?case by (simp add: fromData.simps)
next
  case (Strings vs)
  then show ?case
    by (cases vs rule: commas.cases) (auto simp: container_step_def parse_single
      parse_strings [where vs = "[_]", simplified] parse_strings [where vs = "_ # _ # _", simplified])
next
  case (Objects os)
  then have p: "\<forall>r \<in> set os. text_ok r \<and> shape_ok r \<and> fromData (enc r) = Inr (Some (norm r))"
    and "os \<noteq> []" by auto
  then have ao: "addObjects acc (commas (encObjects os)) t = Inr (Some (acc @ map norm os))" for acc t
    by (intro addObjects_enc) auto
  have passes: "passes CHR ''['' CHR '']'' (commas (encObjects os))"
    using p by (intro passes_commas) (auto intro!: enc_passes(4) [of _ _ os])
  obtain r rs where os: "os = r # rs" using \<open>os \<noteq> []\<close> by (cases os) auto
  obtain body where b: "enc r = CHR ''{'' # body" by (cases r) auto
  obtain body' where b': "commas (encObjects os) = CHR ''{'' # body'"
    using b os by (cases rs) auto
  have arr: "parseLoop els forced (key @ CHR '':'' # CHR ''['' # commas (encObjects os) @ CHR '']'' # more m)
      = parseLoop (els @ [(key, Objects (map norm os))]) (forced @ [True]) (rest_of m)"
    if "key_ok key" for key els forced m
    using that ao [of "[]" "CHR '']''"]
    by (simp add: parseLoop_key match_end_wrap passes Let_def nth_append) (simp add: b')
  show ?case
    using p arr by (cases rs) (auto simp: container_step_def os parse_object)
qed

section \<open>The padded layout\<close>

text \<open>
  \<open>pretty_ok\<close>: quotation marks occur nowhere, white space in no key. \<open>squashes xs ys\<close>: removing
  the padding turns \<open>xs\<close> into \<open>ys\<close>, wherever \<open>xs\<close> stands outside quotation marks.
\<close>

fun pretty_ok :: "responseWrapper \<Rightarrow> bool"
and container_pretty_ok :: "elementContainer \<Rightarrow> bool"
where
  "pretty_ok (ResponseWrapper els forced) \<longleftrightarrow>
     (\<forall>e \<in> set els. list_all (\<lambda>c. c \<noteq> QUOTE \<and> \<not> isspace c) (fst e) \<and> container_pretty_ok (snd e))"
| "container_pretty_ok (Strings vs) \<longleftrightarrow> (\<forall>v \<in> set vs. list_all (\<lambda>c. c \<noteq> QUOTE) v)"
| "container_pretty_ok (Objects os) \<longleftrightarrow> (\<forall>r \<in> set os. pretty_ok r)"

abbreviation unpad :: "bool \<Rightarrow> string \<Rightarrow> string" where
  "unpad q xs \<equiv> filter (\<lambda>v. v \<noteq> QUOTE) (removeSpaces q xs)"

definition squashes :: "string \<Rightarrow> string \<Rightarrow> bool" where
  "squashes xs ys \<longleftrightarrow> (\<forall>rest. unpad False (xs @ rest) = ys @ unpad False rest)"

lemma squashes_Nil [simp]: "squashes [] []"
  by (simp add: squashes_def)

lemma squashes_append: "squashes a b \<Longrightarrow> squashes c d \<Longrightarrow> squashes (a @ c) (b @ d)"
  by (simp add: squashes_def)

lemma squashes_append1: "squashes a b \<Longrightarrow> squashes c [] \<Longrightarrow> squashes (a @ c) b"
  using squashes_append [of a b c "[]"] by simp

lemma squashes_Cons: "\<not> isspace c \<Longrightarrow> c \<noteq> QUOTE \<Longrightarrow> squashes xs ys \<Longrightarrow> squashes (c # xs) (c # ys)"
  by (simp add: squashes_def)

lemma squashes_space: "isspace c \<Longrightarrow> c \<noteq> QUOTE \<Longrightarrow> squashes xs ys \<Longrightarrow> squashes (c # xs) ys"
  by (simp add: squashes_def)

lemma squashes_key: "list_all (\<lambda>c. c \<noteq> QUOTE \<and> \<not> isspace c) k \<Longrightarrow> squashes k k"
  by (induction k) (auto intro: squashes_Cons)

lemma unpad_quoted:
  "list_all (\<lambda>c. c \<noteq> QUOTE) v \<Longrightarrow> unpad True (v @ QUOTE # rest) = v @ unpad False rest"
  by (induction v) (auto simp: isspace_def Let_def)

lemma squashes_quoted: "list_all (\<lambda>c. c \<noteq> QUOTE) v \<Longrightarrow> squashes (QUOTE # v @ [QUOTE]) v"
  by (simp add: squashes_def unpad_quoted Let_def)

lemma isspace_simps [simp]:
  "isspace TAB" "isspace NL" "isspace CHR '' ''" "\<not> isspace CHR ''{''" "\<not> isspace CHR ''}''"
  "\<not> isspace CHR ''[''" "\<not> isspace CHR '']''" "\<not> isspace CHR '':''" "\<not> isspace CHR '',''"
  by (simp_all add: isspace_def)

lemma squashes_tabs [simp]: "squashes (replicate n TAB) []"
  by (induction n) (auto intro: squashes_space)

lemma unpad_tabs [simp]: "unpad False (replicate n TAB @ rest) = unpad False rest"
  using squashes_tabs [of n] by (simp add: squashes_def)

text \<open>The padded loops print every entry followed by a comma and a line break; erasing the last
  comma leaves the line break.\<close>

definition trailedNL :: "string list \<Rightarrow> string" where
  "trailedNL xs = concat (map (\<lambda>x. x @ [CHR '','', NL]) xs)"

fun commasNL :: "string list \<Rightarrow> string" where
  "commasNL [] = []"
| "commasNL [x] = x @ [NL]"
| "commasNL (x # y # xs) = x @ [CHR '','', NL] @ commasNL (y # xs)"

lemma trailedNL_simps [simp]:
  "trailedNL [] = []" "trailedNL (x # xs) = x @ CHR '','' # NL # trailedNL xs"
  by (simp_all add: trailedNL_def)

lemma erase_back_2: "erase_back (xs @ [a, b]) (Suc (Suc 0)) = xs @ [b]"
  by (simp add: erase_back_def)

lemma erase_trailedNL: "xs \<noteq> [] \<Longrightarrow> erase_back (src @ trailedNL xs) (Suc (Suc 0)) = src @ commasNL xs"
proof (induction xs arbitrary: src rule: commasNL.induct)
  case (2 x)
  then show ?case using erase_back_2 [of "src @ x"] by simp
next
  case (3 x y xs)
  then show ?case using "3.IH" [of "src @ x @ [CHR '','', NL]"] by simp
qed simp

lemma squashes_commasNL:
  "list_all2 squashes ps qs \<Longrightarrow> squashes (commasNL ps) (commas qs)"
proof (induction ps arbitrary: qs rule: commasNL.induct)
  case (2 x)
  then show ?case by (auto simp: list_all2_Cons1 intro!: squashes_append1 squashes_space)
next
  case (3 x y xs)
  then obtain x' y' xs' where "qs = x' # y' # xs'" and "squashes x x'"
    and r: "list_all2 squashes (y # xs) (y' # xs')"
    by (auto simp: list_all2_Cons1)
  then show ?case
    using "3.IH" [OF r] by (simp add: squashes_def)
qed simp

lemma squashes_block:
  assumes "list_all2 squashes ps qs" "(x, y) \<in> {(CHR ''{'', CHR ''}''), (CHR ''['', CHR '']'')}"
  shows "squashes (x # NL # commasNL ps @ replicate d TAB @ [y]) (x # commas qs @ [y])"
  using squashes_commasNL [OF assms(1)] assms(2) by (auto simp: squashes_def)

lemma stringsToData_padded:
  "\<forall>v \<in> set vs. list_all (\<lambda>c. c \<noteq> QUOTE) v \<Longrightarrow>
   \<exists>ps. stringsToData src d True vs = src @ trailedNL ps \<and> list_all2 squashes ps vs"
proof (induction vs arbitrary: src)
  case (Cons v vs)
  let ?p = "replicate d TAB @ QUOTE # v @ [QUOTE]"
  obtain ps where "stringsToData (src @ ?p @ [CHR '','', NL]) d True vs
      = (src @ ?p @ [CHR '','', NL]) @ trailedNL ps" "list_all2 squashes ps vs"
    using Cons.IH [of "src @ ?p @ [CHR '','', NL]"] Cons.prems by auto
  moreover have "squashes ?p v"
    using squashes_append [OF squashes_tabs squashes_quoted [of v]] Cons.prems by simp
  ultimately show ?case
    by (intro exI [of _ "?p # ps"]) (simp add: addPadding_def elementToData_def)
qed simp

lemma toData_padded_block:
  fixes d :: nat and src :: string and p :: bool
  defines "src' \<equiv> addPadding True ((if p then addPadding True src TAB d else src) @ ''{'') NL 1"
  assumes ps: "elementsToData src' (Suc d) True els forced = Inr (src' @ trailedNL ps)"
    and sq: "list_all2 squashes ps (encElements els forced)" and len: "length forced = length els"
  shows "\<exists>s. toData src d p True (ResponseWrapper els forced) = Inr (src @ s) \<and>
    squashes s (enc (ResponseWrapper els forced))"
proof -
  have src': "src' = src @ (if p then replicate d TAB else []) @ [CHR ''{'', NL]"
    by (simp add: src'_def addPadding_def)
  let ?s = "(if p then replicate d TAB else []) @ [CHR ''{'', NL] @ commasNL ps @ replicate d TAB @ ''}''"
  have Nil: "ps = [] \<longleftrightarrow> els = []"
    using list_all2_lengthD [OF sq] len by (metis encElements_Nil_iff length_0_conv)
  have "toData src d p True (ResponseWrapper els forced) = bindE (elementsToData src' (Suc d) True els forced)
      (\<lambda>src. Inr (addPadding True (if els \<noteq> [] then erase_back src (Suc (Suc 0)) else src) TAB d @ ''}''))"
    by (cases "els = []") (simp_all add: src'_def Let_def)
  also have "\<dots> = Inr (addPadding True (src' @ commasNL ps) TAB d @ ''}'')"
    using ps Nil by (cases "els = []") (simp_all add: erase_trailedNL)
  also have "\<dots> = Inr (src @ ?s)"
    by (simp add: addPadding_def src')
  finally have "toData src d p True (ResponseWrapper els forced) = Inr (src @ ?s)" .
  moreover have "squashes ?s (enc (ResponseWrapper els forced))"
    using squashes_block [OF sq, of "CHR ''{''" "CHR ''}''" d] by (simp add: squashes_def)
  ultimately show ?thesis by blast
qed

lemma strings_padded:
  assumes "container_ok (Strings vs)" "container_pretty_ok (Strings vs)"
  shows "\<exists>s. containerToData src d (Strings vs) f True = Inr (src @ s) \<and> squashes s (encContainer f (Strings vs))"
proof (cases "length vs > 1 \<or> f")
  case True
  obtain ps where ps: "stringsToData (src @ [CHR ''['', NL]) (Suc d) True vs = (src @ [CHR ''['', NL]) @ trailedNL ps"
    and sq: "list_all2 squashes ps vs"
    using stringsToData_padded assms by fastforce
  have "ps \<noteq> []" using sq assms by auto
  with True ps assms have "containerToData src d (Strings vs) f True
      = Inr (src @ [CHR ''['', NL] @ commasNL ps @ replicate d TAB @ '']'')"
    by (auto simp: addPadding_def erase_trailedNL [of ps "src @ [CHR ''['', NL]", simplified])
  then show ?thesis
    using squashes_block [OF sq, of "CHR ''[''" "CHR '']''" d] True by auto
next
  case False
  with assms show ?thesis
    by (cases vs) (auto simp: elementToData_def intro: squashes_quoted)
qed

lemma objects_padded:
  assumes ps: "objectsToData (src @ [CHR ''['', NL]) (Suc d) True os = Inr ((src @ [CHR ''['', NL]) @ trailedNL ps)"
    and sq: "list_all2 squashes ps (encObjects os)" and os: "os = r # rs" and many: "length os > 1 \<or> f"
  shows "\<exists>s. containerToData src d (Objects os) f True = Inr (src @ s) \<and> squashes s (encContainer f (Objects os))"
proof -
  have "ps \<noteq> []" using sq os by auto
  with many ps have "containerToData src d (Objects os) f True
      = Inr (src @ [CHR ''['', NL] @ commasNL ps @ replicate d TAB @ '']'')"
    by (auto simp: os addPadding_def erase_trailedNL [of ps "src @ [CHR ''['', NL]", simplified] simp del: objectsToData.simps)
  then show ?thesis
    using squashes_block [OF sq, of "CHR ''[''" "CHR '']''" d] many by auto
qed

text \<open>The padded printer's output squashes to the compact text, at every level of the value.\<close>

lemma toData_padded:
  "shape_ok r \<Longrightarrow> pretty_ok r \<Longrightarrow> \<exists>s. toData src d p True r = Inr (src @ s) \<and> squashes s (enc r)"
  "length forced = length els \<Longrightarrow> \<forall>e \<in> set els. container_ok (snd e) \<Longrightarrow>
   \<forall>e \<in> set els. list_all (\<lambda>c. c \<noteq> QUOTE \<and> \<not> isspace c) (fst e) \<and> container_pretty_ok (snd e) \<Longrightarrow>
     \<exists>ps. elementsToData src d True els forced = Inr (src @ trailedNL ps) \<and>
       list_all2 squashes ps (encElements els forced)"
  "container_ok c \<Longrightarrow> container_pretty_ok c \<Longrightarrow>
     \<exists>s. containerToData src d c f True = Inr (src @ s) \<and> squashes s (encContainer f c)"
  "\<forall>r \<in> set os. shape_ok r \<Longrightarrow> \<forall>r \<in> set os. pretty_ok r \<Longrightarrow>
     \<exists>ps. objectsToData src d True os = Inr (src @ trailedNL ps) \<and>
       list_all2 squashes ps (encObjects os)"
proof (induction src d p "True" r and src d "True" els forced and src d c f "True"
    and src d "True" os rule: toData_elementsToData_containerToData_objectsToData.induct)
  case (1 src d p els forced)
  let ?src = "addPadding True ((if p then addPadding True src TAB d else src) @ ''{'') NL 1"
  from "1.hyps" [OF refl refl] "1.prems" obtain ps
    where "elementsToData ?src (Suc d) True els forced = Inr (?src @ trailedNL ps)"
      "list_all2 squashes ps (encElements els forced)" "length forced = length els"
    by auto
  then show ?case by (rule toData_padded_block)
next
  case (3 src d key c els forced)
  from "3.prems" obtain f fs where f: "forced = f # fs" by (cases forced) auto
  let ?k = "replicate d TAB @ key @ [CHR '':'', CHR '' '']"
  obtain s where s: "containerToData (src @ ?k) d c f True = Inr ((src @ ?k) @ s)" "squashes s (encContainer f c)"
    using "3.hyps"(1) [OF f refl refl refl] "3.prems" by (auto simp: addPadding_def)
  have "\<exists>ps. elementsToData (((src @ ?k) @ s) @ [CHR '','', NL]) d True els fs
        = Inr ((((src @ ?k) @ s) @ [CHR '','', NL]) @ trailedNL ps) \<and> list_all2 squashes ps (encElements els fs)"
    using "3.hyps"(2) [OF f refl refl refl, of "(src @ ?k) @ s"] "3.prems" s f
    by (simp add: addPadding_def)
  then obtain ps where ps: "elementsToData (((src @ ?k) @ s) @ [CHR '','', NL]) d True els fs
        = Inr ((((src @ ?k) @ s) @ [CHR '','', NL]) @ trailedNL ps)"
    "list_all2 squashes ps (encElements els fs)" by blast
  have "squashes key key" using "3.prems" by (auto intro: squashes_key)
  then have "squashes (?k @ s) (key @ CHR '':'' # encContainer f c)"
    using s(2) by (simp add: squashes_def)
  with s ps f show ?case
    by (intro exI [of _ "(?k @ s) # ps"]) (simp add: addPadding_def)
next
  case (4 src d vs f)
  then show ?case by (rule strings_padded)
next
  case (5 src d os f)
  then obtain r rs where os: "os = r # rs" by (cases os) auto
  show ?case
  proof (cases "length os > 1 \<or> f")
    case True
    obtain ps where "objectsToData (src @ [CHR ''['', NL]) (Suc d) True os = Inr ((src @ [CHR ''['', NL]) @ trailedNL ps)"
      "list_all2 squashes ps (encObjects os)"
      using "5.hyps"(1) [OF os True] "5.prems" by (auto simp: addPadding_def)
    then show ?thesis by (rule objects_padded [OF _ _ os True])
  next
    case False
    with 5 os show ?thesis by auto
  qed
next
  case (7 src d r rs)
  then obtain s where s: "toData src d True True r = Inr (src @ s)" "squashes s (enc r)" by auto
  obtain ps where "objectsToData ((src @ s) @ [CHR '','', NL]) d True rs = Inr (((src @ s) @ [CHR '','', NL]) @ trailedNL ps)"
    "list_all2 squashes ps (encObjects rs)"
    using "7.hyps"(2) [OF s(1)] "7.prems" by (auto simp: addPadding_def)
  with s show ?case by (intro exI [of _ "s # ps"]) (simp add: addPadding_def)
qed auto

section \<open>The interface: a printed value can be read back\<close>

text \<open>
  What the translator relies on when the server has printed a response: \<open>print\<close> succeeds on the
  good values and \<open>parse\<close> recovers them up to \<open>canon\<close>.
\<close>

locale text_codec =
  fixes print :: "'a \<Rightarrow> fault + string"
    and parse :: "string \<Rightarrow> fault + 'a option"
    and canon :: "'a \<Rightarrow> 'a"
    and good :: "'a \<Rightarrow> bool"
  assumes reads_back: "good x \<Longrightarrow> \<exists>s. print x = Inr s \<and> parse s = Inr (Some (canon x))"
begin

lemma print_total: "good x \<Longrightarrow> \<exists>s. print x = Inr s"
  using reads_back by blast

lemma parse_print: "good x \<Longrightarrow> print x = Inr s \<Longrightarrow> parse s = Inr (Some (canon x))"
  using reads_back by fastforce

lemma print_inject: "good x \<Longrightarrow> good y \<Longrightarrow> print x = print y \<Longrightarrow> canon x = canon y"
  using reads_back [of x] reads_back [of y] by auto

end

abbreviation printable :: "responseWrapper \<Rightarrow> bool" where
  "printable r \<equiv> shape_ok r \<and> text_ok r"

abbreviation prettyPrintable :: "responseWrapper \<Rightarrow> bool" where
  "prettyPrintable r \<equiv> printable r \<and> pretty_ok r"

interpretation compact: text_codec "toDataString False" fromData norm printable
  by unfold_locales (auto simp: toDataString_def toData_compact roundtrip_enc)

lemma padded_reads_back:
  assumes "prettyPrintable r"
  shows "\<exists>s. toDataString True r = Inr s \<and> fromUnformattedData s = Inr (Some (norm r))"
proof -
  from assms obtain s where s: "toData [] 0 False True r = Inr s" "squashes s (enc r)"
    using toData_padded(1) [of r "[]" 0 False] by auto
  from s(2) have "unpad False (s @ []) = enc r @ unpad False []"
    unfolding squashes_def by blast
  with s(1) assms show ?thesis
    by (simp add: toDataString_def fromUnformattedData_def roundtrip_enc)
qed

interpretation padded: text_codec "toDataString True" fromUnformattedData norm prettyPrintable
  by unfold_locales (use padded_reads_back in auto)

section \<open>Building a response\<close>

definition wf_response :: "responseWrapper \<Rightarrow> bool" where
  "wf_response r \<longleftrightarrow> shape_ok r \<and> distinct (map fst (elements r))"

lemma find_it_None: "find_it key es = None \<longleftrightarrow> key \<notin> fst ` set es"
  by (induction key es rule: find_it.induct) auto

lemma find_it_Some: "find_it key es = Some i \<Longrightarrow> i < length es \<and> fst (es ! i) = key"
  by (induction key es arbitrary: i rule: find_it.induct) (auto split: if_splits)

lemma search_map_of: "search r = map_of (elements r)"
proof
  fix key
  have "(case find_it key es of None \<Rightarrow> None | Some i \<Rightarrow> Some (snd (es ! i))) = map_of es key"
    for es :: "(string \<times> elementContainer) list"
    by (induction key es rule: find_it.induct) (auto split: option.splits)
  then show "search r key = map_of (elements r) key" by (simp add: search_def)
qed

lemma map_fst_update_at: "i < length es \<Longrightarrow> fst (es ! i) = k \<Longrightarrow> map fst (es[i := (k, c)]) = map fst es"
  by (induction es arbitrary: i) (auto split: nat.splits)

lemma update_at_key:
  assumes "distinct (map fst es)" "i < length es" "fst (es ! i) = key"
  shows "es[i := (key, c')] = map (\<lambda>(k, c). (k, if k = key then c' else c)) es"
proof (rule nth_equalityI)
  fix j assume "j < length (es[i := (key, c')])"
  then have j: "j < length es" by simp
  have same: "fst (es ! j) = key \<longleftrightarrow> j = i"
    using nth_eq_iff_index_eq [OF assms(1), of j i] assms(2,3) j by simp
  obtain k c where e: "es ! j = (k, c)" by fastforce
  show "es[i := (key, c')] ! j = map (\<lambda>(k, c). (k, if k = key then c' else c)) es ! j"
    using same e j by (cases "j = i") simp_all
qed simp

lemma genericAdd_new:
  assumes "wf_response r" "pred_sum (\<lambda>_. True) shape_ok v" "map_of (elements r) key = None"
  shows "genericAdd r key v f = Inr (ResponseWrapper (elements r @ [(key, case v of Inl s \<Rightarrow> Strings [s] | Inr ob \<Rightarrow> Objects [ob])])
      (forcedArrays r @ [f])) \<and> (\<forall>r'. genericAdd r key v f = Inr r' \<longrightarrow> wf_response r')"
proof -
  have n: "find_it key (elements r) = None" "key \<notin> fst ` set (elements r)"
    using assms(3) by (auto simp: find_it_None map_of_eq_None_iff)
  show ?thesis
    using assms(1,2) n by (cases r; cases v) (auto simp: genericAdd_def wf_response_def)
qed

lemma genericAdd_existing:
  assumes "wf_response r" "pred_sum (\<lambda>_. True) shape_ok v" "map_of (elements r) key = Some c" "emplace c v = Inr c'"
  shows "genericAdd r key v f = Inr (ResponseWrapper (map (\<lambda>(k, d). (k, if k = key then c' else d)) (elements r)) (forcedArrays r)) \<and>
    (\<forall>r'. genericAdd r key v f = Inr r' \<longrightarrow> wf_response r')"
proof -
  from assms(3) obtain i where i: "find_it key (elements r) = Some i" "snd (elements r ! i) = c"
    by (auto simp: search_map_of [symmetric] search_def split: option.splits)
  then have l: "i < length (elements r)" "elements r ! i = (key, c)"
    using find_it_Some by (auto simp: prod_eq_iff)
  then have ok: "container_ok c"
    using assms(1) by (cases r) (auto simp: wf_response_def dest!: nth_mem)
  with assms(2,4) have c': "container_ok c'" "cindex c = (if isWrapper v then 1 else 0)" by (cases c; cases v; auto)+
  have "shape_ok (ResponseWrapper ((elements r)[i := (key, c')]) (forcedArrays r))"
    using assms(1) c' by (cases r) (auto simp: wf_response_def dest!: set_update_subset_insert [THEN subsetD])
  then have wf: "wf_response (ResponseWrapper ((elements r)[i := (key, c')]) (forcedArrays r))"
    using assms(1) l map_fst_update_at [of i "elements r" key c'] by (simp add: wf_response_def)
  have "genericAdd r key v f = Inr (ResponseWrapper ((elements r)[i := (key, c')]) (forcedArrays r))"
    using i l c'(2) assms(4) by (simp add: genericAdd_def)
  moreover have "(elements r)[i := (key, c')] = map (\<lambda>(k, d). (k, if k = key then c' else d)) (elements r)"
    using assms(1) l by (intro update_at_key) (simp_all add: wf_response_def)
  ultimately show ?thesis using wf by simp
qed

lemma genericAdd_mismatch:
  assumes "map_of (elements r) key = Some c" "cindex c \<noteq> (if isWrapper v then 1 else 0)"
  shows "genericAdd r key v f = Inl Assertion_failed"
proof -
  from assms(1) obtain i where "find_it key (elements r) = Some i" "snd (elements r ! i) = c"
    by (auto simp: search_map_of [symmetric] search_def split: option.splits)
  with assms(2) show ?thesis by (auto simp: genericAdd_def split: prod.splits)
qed

section \<open>What parsing forgets\<close>

lemma norm_shape:
  "shape_ok r \<Longrightarrow> shape_ok (norm r)"
  "container_ok c \<Longrightarrow> container_ok (normContainer c)"
  by (induction r and c) (auto simp: snds.simps)

lemma csize_norm [simp]: "csize (normContainer c) = csize c"
  by (cases c) auto

lemma encElements_norm:
  assumes "length fs = length es" "\<forall>e \<in> set es. \<forall>f. encContainer (f \<or> csize (snd e) > 1) (normContainer (snd e)) = encContainer f (snd e)"
  shows "encElements (map (\<lambda>e. (fst e, normContainer (snd e))) es)
      (map2 (\<lambda>f e. f \<or> csize (snd e) > 1) fs es) = encElements es fs"
  using assms
proof (induction es arbitrary: fs)
  case (Cons e es)
  then obtain f fs' where "fs = f # fs'" by (cases fs) auto
  with Cons show ?case by (cases e) auto
qed simp

lemma encObjects_map: "encObjects os = map enc os"
  by (induction os) auto

lemma enc_norm:
  "shape_ok r \<Longrightarrow> enc (norm r) = enc r"
  "container_ok c \<Longrightarrow> \<forall>f. encContainer (f \<or> csize c > 1) (normContainer c) = encContainer f c"
proof (induction r and c)
  case (ResponseWrapper els forced)
  have "\<forall>e \<in> set els. \<forall>f. encContainer (f \<or> csize (snd e) > 1) (normContainer (snd e)) = encContainer f (snd e)"
    using ResponseWrapper by (auto simp: snds.simps)
  with ResponseWrapper.prems show ?case using encElements_norm [of forced els] by simp
next
  case (Objects os)
  then have "map enc (map norm os) = map enc os" by auto
  with Objects show ?case
    by (auto simp: encObjects_map simp del: map_map split: list.splits)
qed auto

section \<open>Properties\<close>

text \<open>C8. The text the server sends is the text the translator reads: printing a response in the
  compact layout succeeds, and parsing the printed text gives the response back, up to the array
  flag of an element that is printed as an array anyway. The response has one flag per element and
  no empty container, and no key or value contains a structural character.\<close>

theorem compact_roundtrip:
  assumes "shape_ok r" and "text_ok r"
  shows "\<exists>s. toDataString False r = Inr s \<and> fromData s = Inr (Some (norm r))"
  using assms by (intro compact.reads_back) simp

theorem compact_roundtrip_witness:
  "\<exists>s. toDataString False (ResponseWrapper
        [(''ID'', Strings [''3'']), (''Vehicles'', Objects [ResponseWrapper [(''Plate'', Strings [''AB 12''])] [False]])]
        [False, True]) = Inr s \<and>
     fromData s = Inr (Some (norm (ResponseWrapper
        [(''ID'', Strings [''3'']), (''Vehicles'', Objects [ResponseWrapper [(''Plate'', Strings [''AB 12''])] [False]])]
        [False, True])))"
  by (rule compact_roundtrip) (simp_all add: key_ok_def value_ok_def)

text \<open>The padded layout is read back as well: \<^verbatim>\<open>fromUnformattedData\<close> recovers what
  \<^verbatim>\<open>toData(true)\<close> printed, provided that no quotation mark occurs and no key contains white space
  (keys are printed without quotation marks).\<close>

theorem padded_roundtrip:
  assumes "shape_ok r" and "text_ok r" and "pretty_ok r"
  shows "\<exists>s. toDataString True r = Inr s \<and> fromUnformattedData s = Inr (Some (norm r))"
  using assms by (intro padded.reads_back) simp

theorem padded_roundtrip_witness:
  "\<exists>s. toDataString True (ResponseWrapper [(''Name'', Strings [''A B'', ''C''])] [False]) = Inr s \<and>
     fromUnformattedData s = Inr (Some (norm (ResponseWrapper [(''Name'', Strings [''A B'', ''C''])] [False])))"
  by (rule padded_roundtrip) (simp_all add: key_ok_def value_ok_def isspace_def)

text \<open>What parsing forgets cannot be seen in the text: a response and its normal form print
  alike, and the printed text is the direct description \<open>enc\<close> (one opening brace, the elements
  separated by single commas, one closing brace).\<close>

theorem norm_prints_alike:
  assumes "shape_ok r"
  shows "toDataString False (norm r) = Inr (enc r) \<and> toDataString False r = Inr (enc r)"
  using assms by (simp add: toDataString_def toData_compact norm_shape enc_norm)

theorem norm_prints_alike_witness:
  "toDataString False (norm (ResponseWrapper [(''a'', Strings [''1'', ''2''])] [False]))
     = Inr (enc (ResponseWrapper [(''a'', Strings [''1'', ''2''])] [False])) \<and>
   toDataString False (ResponseWrapper [(''a'', Strings [''1'', ''2''])] [False])
     = Inr (enc (ResponseWrapper [(''a'', Strings [''1'', ''2''])] [False]))"
  by (rule norm_prints_alike) simp

text \<open>C27. Adding a value. On a well-formed response, \<^verbatim>\<open>add\<close> of a new key appends an element with that one
  value and records the flag that forces an array; \<^verbatim>\<open>add\<close> of a key that holds values of the same kind puts
  the value behind them, leaves every other element where and as it was, and keeps the flag of the first
  call; \<^verbatim>\<open>add\<close> of a key that holds values of the other kind fails the assertion. The result is well formed.\<close>

theorem genericAdd_spec:
  assumes "wf_response r" and "pred_sum (\<lambda>_. True) shape_ok v"
  shows "(case (map_of (elements r) key, v) of
      (None, Inl s) \<Rightarrow> genericAdd r key v forced =
        Inr (ResponseWrapper (elements r @ [(key, Strings [s])]) (forcedArrays r @ [forced]))
    | (None, Inr ob) \<Rightarrow> genericAdd r key v forced =
        Inr (ResponseWrapper (elements r @ [(key, Objects [ob])]) (forcedArrays r @ [forced]))
    | (Some (Strings vs), Inl s) \<Rightarrow> genericAdd r key v forced =
        Inr (ResponseWrapper (map (\<lambda>(k, c). (k, if k = key then Strings (vs @ [s]) else c)) (elements r)) (forcedArrays r))
    | (Some (Objects os), Inr ob) \<Rightarrow> genericAdd r key v forced =
        Inr (ResponseWrapper (map (\<lambda>(k, c). (k, if k = key then Objects (os @ [ob]) else c)) (elements r)) (forcedArrays r))
    | _ \<Rightarrow> genericAdd r key v forced = Inl Assertion_failed) \<and>
    (\<forall>r'. genericAdd r key v forced = Inr r' \<longrightarrow> wf_response r')"
proof (cases "map_of (elements r) key")
  case None
  with genericAdd_new [OF assms] show ?thesis by (auto split: sum.split)
next
  case (Some c)
  note old = genericAdd_existing [OF assms Some, of _ forced] and other = genericAdd_mismatch [OF Some, of v forced]
  show ?thesis
  proof (cases c)
    case (Strings vs)
    show ?thesis
    proof (cases v)
      case (Inl t)
      then show ?thesis using Strings Some old [of "Strings (vs @ [t])"] by simp
    qed (use Strings Some other in simp)
  next
    case (Objects os)
    show ?thesis
    proof (cases v)
      case (Inr ob)
      then show ?thesis using Objects Some old [of "Objects (os @ [ob])"] by simp
    qed (use Objects Some other in simp)
  qed
qed

theorem genericAdd_spec_witness:
  "genericAdd (ResponseWrapper [(''a'', Strings [''1'']), (''b'', Strings [''x''])] [True, False]) ''a'' (Inl ''2'') False =
     Inr (ResponseWrapper [(''a'', Strings [''1'', ''2'']), (''b'', Strings [''x''])] [True, False])"
  using genericAdd_spec [of "ResponseWrapper [(''a'', Strings [''1'']), (''b'', Strings [''x''])] [True, False]" "Inl ''2''" "''a''" False]
  by (simp add: wf_response_def)

text \<open>Values are not escaped. A response whose single value begins with an opening brace that
  is never closed is printed without complaint, and parsing the printed text runs past the end of
  it: the closing brace of the whole text is taken for the end of the value, and the next position
  lies beyond the text.\<close>

theorem open_brace_value_undefined:
  assumes "key_ok key" and "value_ok v" and "CHR '':'' \<notin> set v"
  shows "\<exists>s. toDataString False (ResponseWrapper [(key, Strings [''{'' @ v])] [False]) = Inr s \<and>
    fromData s = Inl Undefined_behaviour"
proof -
  have v: "match_end CHR ''{'' CHR ''}'' (CHR ''{'' # v) = Suc (length v)"
  proof -
    have "passes CHR ''{'' CHR ''}'' v" using assms(2) by (rule value_ok_passes) simp
    then have "match_loop CHR ''{'' CHR ''}'' 0 (v @ []) = None"
      unfolding passes_def by (metis match_loop.simps(1) option.map(1) order_refl)
    then show ?thesis by (simp add: match_end_def)
  qed
  have inner: "fromData (CHR ''{'' # v @ ''}'') = Inr (Some emptyResponse)"
    using assms(3) by (simp add: fromData.simps parseLoop.simps split_at_notin emptyResponse_def)
  have "parseLoop [] [] (key @ CHR '':'' # CHR ''{'' # v) = Inl Undefined_behaviour"
    using assms(1) v inner by (simp add: parseLoop_key)
  then have "fromData (CHR ''{'' # key @ CHR '':'' # CHR ''{'' # v @ ''}'') = Inl Undefined_behaviour"
    by (simp add: fromData.simps butlast_append)
  then show ?thesis by (simp add: toDataString_def toData_compact del: toData.simps)
qed

theorem open_brace_value_undefined_witness:
  "\<exists>s. toDataString False (ResponseWrapper [(''Username'', Strings [''{'' @ ''x''])] [False]) = Inr s \<and>
    fromData s = Inl Undefined_behaviour"
  by (rule open_brace_value_undefined) (simp_all add: key_ok_def value_ok_def)

end
