(* ===== verification/Network.thy ===== *)
theory Network
  imports Database Response "HOL-Library.AList"
begin

text \<open>
  The server's network layer (\<^verbatim>\<open>Server/include/Network.h\<close>, \<^verbatim>\<open>Server/include/ServerData.h\<close>): the
  state the handlers share, the cookie parser, the session table of \<^verbatim>\<open>authenticator\<close> and the wrapper
  that collects a request body. uWebSockets is a parameter: a request is the record of what the
  program reads from it, and a response is the list of the calls the program makes on it.
\<close>

section \<open>HTTP\<close>

definition OK :: string where "OK = ''200''"
definition BADREQUEST :: string where "BADREQUEST = ''400''"
definition UNAUTHORISED :: string where "UNAUTHORISED = ''401''"
definition FORBIDDEN :: string where "FORBIDDEN = ''403''"
definition NOTFOUND :: string where "NOTFOUND = ''404''"
definition CONFLICT :: string where "CONFLICT = ''409''"
definition INTERNALERROR :: string where "INTERNALERROR = ''500''"

lemmas http_codes = OK_def BADREQUEST_def UNAUTHORISED_def FORBIDDEN_def NOTFOUND_def CONFLICT_def
  INTERNALERROR_def

text \<open>What is read from a \<^verbatim>\<open>uWS::HttpRequest\<close>; a header that is absent reads as the empty text.\<close>

record http_request =
  getMethod :: string
  getUrl :: string
  getQuery :: string
  getHeader :: "string \<Rightarrow> string"

text \<open>The calls on a \<^verbatim>\<open>uWS::HttpResponse\<close>.\<close>

datatype res_call =
    WriteStatus string
  | WriteHeader string string
  | End string
  | TryEnd string

section \<open>Tables\<close>

datatype tables =
    USER | SUPPLIERS | PARTGROUPS | PARTS | PARTSINSERVICE | VEHICLESHARED | VEHICLES
  | SERVICESHARED | SERVICEUNAUTHORISED | SERVICEACTIVE | SERVICEOPEN | SERVICECLOSED

fun tableNames :: "tables \<Rightarrow> string" where
  "tableNames USER = ''USERS''"
| "tableNames SUPPLIERS = ''SUPPLIERS''"
| "tableNames PARTGROUPS = ''PARTGROUPS''"
| "tableNames PARTS = ''PARTS''"
| "tableNames PARTSINSERVICE = ''PARTSINSERVICE''"
| "tableNames VEHICLESHARED = ''VEHICLESHAREDDATA''"
| "tableNames VEHICLES = ''VEHICLES''"
| "tableNames SERVICESHARED = ''SERVICESHAREDDATA''"
| "tableNames SERVICEUNAUTHORISED = ''UNAUTHORISEDSERVICES''"
| "tableNames SERVICEACTIVE = ''ACTIVESERVICEDATA''"
| "tableNames SERVICEOPEN = ''OPENSERVICES''"
| "tableNames SERVICECLOSED = ''CLOSEDSERVICES''"

section \<open>Permission levels\<close>

text \<open>
  \<^verbatim>\<open>enum class authLevel\<close> has the underlying type \<^verbatim>\<open>int\<close>, and any value of it can occur. A number
  read as \<^verbatim>\<open>unsigned int\<close> is converted modulo \<open>2 ^ 32\<close>, so the upper half becomes negative.
\<close>

datatype authLevel = AuthLevel (level: int)

instantiation authLevel :: linorder
begin

definition less_eq_authLevel :: "authLevel \<Rightarrow> authLevel \<Rightarrow> bool" where
  "less_eq_authLevel a b \<longleftrightarrow> level a \<le> level b"

definition less_authLevel :: "authLevel \<Rightarrow> authLevel \<Rightarrow> bool" where
  "less_authLevel a b \<longleftrightarrow> level a < level b"

instance
  by intro_classes (auto simp: less_eq_authLevel_def less_authLevel_def authLevel.expand)

end

definition client :: authLevel where "client = AuthLevel 0"
definition employee :: authLevel where "employee = AuthLevel 1"
definition manager :: authLevel where "manager = AuthLevel 2"
definition superuser :: authLevel where "superuser = AuthLevel 3"

lemmas level_defs = client_def employee_def manager_def superuser_def less_eq_authLevel_def
  less_authLevel_def

definition authLevel_cast :: "nat \<Rightarrow> authLevel" where
  "authLevel_cast n = AuthLevel (sint (of_nat n :: 32 word))"

section \<open>The shared state\<close>

record session =
  sessionLevel :: authLevel
  userID :: nat

text \<open>
  The state a handler runs on: the database connection, the session table, what was printed on
  standard output, and the calls made on the response of the request at hand. The environment of a
  handler holds what it does not change: SQLite, the iteration orders that the standard library
  gives the unordered maps of the program built from a list (one of views, for the parameters of a
  query, and one of strings, for the columns of an update), the random numbers that the call draws,
  \<^verbatim>\<open>curl_easy_unescape\<close>, the largest size a string can reserve, the text that a NaN is printed as, and the request.
\<close>

record 'db server =
  database :: 'db
  sessions :: "nat \<rightharpoonup> session"
  console :: string
  reply :: "res_call list"

record ('db, 'st) env =
  api :: "('db, 'st) sqlite3"
  iter :: "(string \<times> string) list \<Rightarrow> (string \<times> string) list"
  iterRel :: "(string \<times> string) list \<Rightarrow> (string \<times> string) list"
  draws :: "nat \<Rightarrow> nat"
  unescape :: "string \<Rightarrow> string option"
  max_size :: nat
  nanText :: string
  req :: http_request

definition dbQuery ::
  "('db, 'st) env \<Rightarrow> string \<Rightarrow> (string \<times> string) list \<Rightarrow> ('db server, SQLCode \<times> SQLResult) prog" where
  "dbQuery env SQL ps w =
     (case query (api env) SQL (iter env ps) (database w) of (r, db) \<Rightarrow> (r, w\<lparr>database := db\<rparr>))"

definition emit :: "res_call \<Rightarrow> ('db server, unit) prog" where
  "emit c = modify (\<lambda>w. w\<lparr>reply := reply w @ [c]\<rparr>)"

definition cout :: "string \<Rightarrow> ('db server, unit) prog" where
  "cout s = modify (\<lambda>w. w\<lparr>console := console w @ s\<rparr>)"

text \<open>\<^verbatim>\<open>res->writeStatus(code); res->end();\<close>\<close>

definition respond :: "string \<Rightarrow> ('db server, unit) prog" where
  "respond code = seq (emit (WriteStatus code)) (emit (End []))"

section \<open>Cookies\<close>

text \<open>The map of a \<^verbatim>\<open>cookieManager\<close> as an association list without repeated names.\<close>

type_synonym cookieManager = "(string \<times> string) list"

function cookieLoop :: "cookieManager \<Rightarrow> string \<Rightarrow> cookieManager" where
  "cookieLoop values it =
     (if it = [] then values
      else case split_at CHR '';'' it of (seg, after) \<Rightarrow>
        (let rest = (case after of None \<Rightarrow> [] | Some r \<Rightarrow> r)
         in case split_at CHR ''='' seg of
              (name, None) \<Rightarrow> cookieLoop values rest
            | (name, Some val) \<Rightarrow>
                if name = [] then cookieLoop values rest
                else cookieLoop (AList.update name val values) (dropWhile isspace rest)))"
  by pat_completeness auto
termination
proof (relation "measure (\<lambda>(_, it). length it)", goal_cases)
  case (4 vs it x y xa xb xc xd)
  then show ?case
    using length_dropWhile_le [of isspace xa] by (auto dest: length_split_at [OF sym] split: option.splits)
qed (auto dest: length_split_at [OF sym] split: option.splits)

declare cookieLoop.simps [simp del]

definition getCookies :: "http_request \<Rightarrow> cookieManager" where
  "getCookies rq = cookieLoop [] (getHeader rq ''cookie'')"

definition cookieGet :: "cookieManager \<Rightarrow> string \<Rightarrow> string" where
  "cookieGet values name = (case map_of values name of None \<Rightarrow> [] | Some v \<Rightarrow> v)"

definition setCookie :: "string \<Rightarrow> string \<Rightarrow> ('db server, unit) prog" where
  "setCookie name val = emit (WriteHeader ''Set-Cookie'' (name @ ''='' @ val))"

definition clearCookie :: "string \<Rightarrow> ('db server, unit) prog" where
  "clearCookie name = setCookie name ''deleted; expires=Thu, 01 Jan 1970 00:00:00 GMT;''"

text \<open>Called nowhere in the program.\<close>

definition clearCookies :: "('db server, unit) prog" where
  "clearCookies = emit (WriteHeader ''Clear-Site-Data'' ([QUOTE] @ ''cookies'' @ [QUOTE]))"

section \<open>The authenticator\<close>

definition authCookie :: string where "authCookie = ''auth''"

definition getSessionID :: "http_request \<Rightarrow> nat option" where
  "getSessionID rq =
     (let cookies = getCookies rq
      in if cookies = [] \<or> cookieGet cookies authCookie = [] then None
         else from_chars 64 (cookieGet cookies authCookie))"

definition hash :: "string \<Rightarrow> string" where
  "hash val = map (\<lambda>i. char_of (255 - of_char i :: nat)) val"

definition hasSession :: "http_request \<Rightarrow> bool" where
  "hasSession rq \<longleftrightarrow> getSessionID rq \<noteq> None"

definition verify :: "http_request \<Rightarrow> authLevel \<Rightarrow> 'db server \<Rightarrow> bool" where
  "verify rq checkLevel w =
     (case getSessionID rq of
        None \<Rightarrow> False
      | Some ID \<Rightarrow> (case sessions w ID of None \<Rightarrow> False | Some s \<Rightarrow> checkLevel \<le> sessionLevel s))"

definition getSessionUser :: "http_request \<Rightarrow> 'db server \<Rightarrow> nat option" where
  "getSessionUser rq w =
     (case getSessionID rq of None \<Rightarrow> None | Some ID \<Rightarrow> map_option userID (sessions w ID))"

definition getSessionAuthLevel :: "http_request \<Rightarrow> 'db server \<Rightarrow> authLevel option" where
  "getSessionAuthLevel rq w =
     (case getSessionID rq of None \<Rightarrow> None | Some ID \<Rightarrow> map_option sessionLevel (sessions w ID))"

definition isSessionUser :: "http_request \<Rightarrow> string \<Rightarrow> 'db server \<Rightarrow> bool" where
  "isSessionUser rq UID w =
     (case getSessionUser rq w of None \<Rightarrow> False | Some ID \<Rightarrow> to_string ID = UID)"

definition isSessionUserFromID :: "http_request \<Rightarrow> string \<Rightarrow> 'db server \<Rightarrow> bool" where
  "isSessionUserFromID rq userIndex w =
     (case getSessionUser rq w of
        None \<Rightarrow> False
      | Some ID \<Rightarrow> (case from_chars 64 userIndex of None \<Rightarrow> False | Some user \<Rightarrow> ID = user))"

text \<open>\<^verbatim>\<open>std::optional::value\<close> throws when there is no value.\<close>

definition valueOf :: "'a option \<Rightarrow> fault + 'a" where
  "valueOf x = (case x of None \<Rightarrow> Inl Bad_optional_access | Some v \<Rightarrow> Inr v)"

definition release :: "('db, 'st) env \<Rightarrow> ('db server, bool) prog" where
  "release env =
     (case getSessionID (req env) of
        None \<Rightarrow> returnP False
      | Some ID \<Rightarrow>
          seq (modify (\<lambda>w. w\<lparr>sessions := (sessions w)(ID := None)\<rparr>))
         (seq (clearCookie authCookie)
         (seq (cout (''Released session: '' @ to_string ID @ ''.\<newline>''))
              (returnP True))))"

text \<open>The \<^verbatim>\<open>do ... while\<close> that draws a free session number; it need not stop.\<close>

partial_function (option) pickID :: "(nat \<Rightarrow> nat) \<Rightarrow> (nat \<rightharpoonup> session) \<Rightarrow> nat \<Rightarrow> nat option" where
  "pickID dist table i =
     (let val = dist i in if table val \<noteq> None then pickID dist table (Suc i) else Some val)"

definition request :: "('db, 'st) env \<Rightarrow> queryBase \<Rightarrow> ('db server, bool) prog" where
  "request env b =
     (if \<not> containsAll b [''username'', ''password''] False then returnP False
      else
        seq (if hasSession (req env) then seq (release env) (returnP ()) else returnP ())
       (bind (liftE (getElement b ''username'')) (\<lambda>username.
        bind (liftE (getElement b ''password'')) (\<lambda>password.
        bind (dbQuery env
               (''SELECT ID, PERMISSIONS FROM '' @ tableNames USER @ '' WHERE USERNAME = :USR AND PASSWORD = :PWD'')
               [('':USR'', username), ('':PWD'', hash password)]) (\<lambda>(status, matches).
        if \<not> isOK status then returnP False
        else bind (liftE (rowCount matches)) (\<lambda>n.
        if n = 0 then returnP False
        else if n \<noteq> 1 then liftE (Inl Assertion_failed)
        else
        bind (gets sessions) (\<lambda>table.
        bind (liftE (case pickID (draws env) table 0 of None \<Rightarrow> Inl Diverges | Some v \<Rightarrow> Inr v)) (\<lambda>val.
        bind (liftE (cell matches 0 0)) (\<lambda>idText.
        case from_chars 64 idText of
          None \<Rightarrow> returnP False
        | Some uid \<Rightarrow>
            bind (liftE (cell matches 0 1)) (\<lambda>permText.
            case from_chars 32 permText of
              None \<Rightarrow> returnP False
            | Some temp \<Rightarrow>
                seq (modify (\<lambda>w. w\<lparr>sessions := (sessions w)(val \<mapsto>
                       \<lparr>sessionLevel = authLevel_cast temp, userID = uid\<rparr>)\<rparr>))
               (seq (setCookie authCookie (to_string val))
               (seq (cout (''Authenticated '' @ [QUOTE] @ username @ [QUOTE] @ '' with session ID: '' @ to_string val @ ''.\<newline>''))
                    (returnP True)))))))))))))"

section \<open>Collecting a request body\<close>

type_synonym ('db, 'st) handler = "('db, 'st) env \<Rightarrow> queryBase \<Rightarrow> queryBase \<Rightarrow> ('db server, unit) prog"

definition contentLength :: "http_request \<Rightarrow> nat" where
  "contentLength rq =
     (case from_chars 64 (getHeader rq ''content-length'') of None \<Rightarrow> 0 | Some val \<Rightarrow> val)"

text \<open>
  The events uWebSockets delivers for a request with a body: a piece, with whether it is the last one and
  whether the request object still exists at that time, or the end of the connection. uWebSockets
  guarantees the object only while the handler of the request runs; pieces that come later find it gone,
  but the callbacks of the program keep the pointer to it.
\<close>

datatype body_event = Data string bool bool | Aborted

text \<open>The handlers read the request through that pointer, their permission checks to begin with. Calling one
  after the end of the request is taken as undefined, also where it would refuse an incomplete form before
  it reads the request.\<close>

fun onData ::
  "('db, 'st) env \<Rightarrow> ('db, 'st) handler \<Rightarrow> queryBase \<Rightarrow> string \<Rightarrow> body_event list \<Rightarrow> ('db server, unit) prog" where
  "onData env callback q buffer [] = returnP ()"
| "onData env callback q buffer (Data chunk final live # events) =
     (let buffer = buffer @ chunk
      in seq (if final then
                bind (liftE (parseURLValues (unescape env) buffer)) (\<lambda>b.
                  if live then callback env b q else liftE (Inl Undefined_behaviour))
              else returnP ())
             (onData env callback q buffer events))"
| "onData env callback q buffer (Aborted # events) =
     seq (respond INTERNALERROR) (onData env callback q buffer events)"

text \<open>\<^verbatim>\<open>HttpCallWrapper::operator()\<close> followed by the events it registered for. Reserving more than a
  string can hold throws.\<close>

definition HttpCallWrapper ::
  "('db, 'st) env \<Rightarrow> ('db, 'st) handler \<Rightarrow> body_event list \<Rightarrow> ('db server, unit) prog" where
  "HttpCallWrapper env callback events =
     bind (liftE (parseURLValues (unescape env) (getQuery (req env)))) (\<lambda>q.
       if contentLength (req env) = 0 then callback env Map.empty q
       else if contentLength (req env) > max_size env then liftE (Inl Length_error)
       else onData env callback q [] events)"

section \<open>Frame facts of the basic operations\<close>

lemma keeps_dbQuery [frame]:
  "keeps sessions (dbQuery env SQL ps)" "keeps reply (dbQuery env SQL ps)" "keeps console (dbQuery env SQL ps)"
  by (simp_all add: keeps_def dbQuery_def split: prod.split)

lemma keeps_emit [frame]:
  "keeps sessions (emit c)" "keeps database (emit c)" "keeps console (emit c)"
  by (simp_all add: keeps_def emit_def modify_def)

lemma keeps_cout [frame]:
  "keeps sessions (cout s)" "keeps database (cout s)" "keeps reply (cout s)"
  by (simp_all add: keeps_def cout_def modify_def)

lemma keeps_respond [frame]:
  "keeps sessions (respond c)" "keeps database (respond c)" "keeps console (respond c)"
  unfolding respond_def by (auto intro!: frame)

lemma keeps_cookies [frame]:
  "keeps sessions (setCookie n v)" "keeps database (setCookie n v)"
  "keeps sessions (clearCookie n)" "keeps database (clearCookie n)"
  unfolding clearCookie_def setCookie_def by (auto intro!: frame)

lemma keeps_release [frame]: "keeps database (release env)"
  unfolding release_def by (auto intro!: frame keeps_modify)

lemma emit_run: "emit c w = (Inr (), w\<lparr>reply := reply w @ [c]\<rparr>)"
  by (simp add: emit_def modify_def)

lemma cout_run: "cout s w = (Inr (), w\<lparr>console := console w @ s\<rparr>)"
  by (simp add: cout_def modify_def)

lemma respond_run:
  "respond c w = (Inr (), w\<lparr>reply := reply w @ [WriteStatus c, End []]\<rparr>)"
  by (simp add: respond_def seq_def bind_def emit_run)

lemma seq_Inr: "m s = (Inr x, t) \<Longrightarrow> seq m k s = k t"
  by (simp add: seq_def bind_def)

lemma bind_emit [simp]: "bind (emit c) k w = k () (w\<lparr>reply := reply w @ [c]\<rparr>)"
  by (simp add: bind_def emit_run)

lemma seq_emit [simp]: "seq (emit c) k w = k (w\<lparr>reply := reply w @ [c]\<rparr>)"
  by (simp add: seq_def)

lemma seq_cout [simp]: "seq (cout s) k w = k (w\<lparr>console := console w @ s\<rparr>)"
  by (simp add: seq_def bind_def cout_run)

lemma seq_modify [simp]: "seq (modify f) k w = k (f w)"
  by (simp add: seq_def)

lemma seq_returnP [simp]: "seq (returnP x) k = k"
  by (rule ext) (simp add: seq_def)

lemma seq_unit [simp]: "seq m (returnP ()) = m"
  by (rule ext) (auto simp: seq_def bind_def returnP_def split: prod.splits sum.splits)

section \<open>Answering a request\<close>

text \<open>
  \<open>silent m\<close>: when \<open>m\<close> returns, it has only added calls that do not end the response;
  \<open>answers m\<close>: it has ended the response exactly once, as the last call. The rules again follow
  the structure of a program.
\<close>

fun is_end :: "res_call \<Rightarrow> bool" where
  "is_end (End _) = True"
| "is_end (TryEnd _) = True"
| "is_end _ = False"

definition silent :: "('db server, 'a) prog \<Rightarrow> bool" where
  "silent m \<longleftrightarrow> (\<forall>w x w'. m w = (Inr x, w') \<longrightarrow>
     (\<exists>cs. reply w' = reply w @ cs \<and> list_all (\<lambda>c. \<not> is_end c) cs))"

definition answers :: "('db server, 'a) prog \<Rightarrow> bool" where
  "answers m \<longleftrightarrow> (\<forall>w x w'. m w = (Inr x, w') \<longrightarrow>
     (\<exists>cs c. reply w' = reply w @ cs @ [c] \<and> list_all (\<lambda>c. \<not> is_end c) cs \<and> is_end c))"

named_theorems answering \<open>rules for answering a request\<close>

lemma silent_keeps: "keeps reply m \<Longrightarrow> silent m"
  by (auto simp: silent_def dest: keepsD)

lemma silent_basic [answering]:
  "silent (returnP x)" "silent (liftE r)" "silent (gets f)" "silent (dbQuery env SQL ps)" "silent (cout s)"
  by (rule silent_keeps, rule frame)+

lemma silent_emit [answering]: "\<not> is_end c \<Longrightarrow> silent (emit c)"
  by (auto simp: silent_def emit_run)

lemma silent_cookies [answering]: "silent (setCookie n v)" "silent (clearCookie n)"
  unfolding clearCookie_def setCookie_def by (auto intro!: answering)

lemma bind_returns:
  "bind m k w = (Inr y, w'') \<Longrightarrow> \<exists>x w'. m w = (Inr x, w') \<and> k x w' = (Inr y, w'')"
  by (auto simp: bind_def split: prod.splits sum.splits)

lemma silent_bind [answering]: "silent m \<Longrightarrow> (\<And>x. silent (k x)) \<Longrightarrow> silent (bind m k)"
  unfolding silent_def by (fastforce dest!: bind_returns)

lemma answers_bind [answering]: "silent m \<Longrightarrow> (\<And>x. answers (k x)) \<Longrightarrow> answers (bind m k)"
  unfolding silent_def answers_def by (fastforce dest!: bind_returns)

lemma silent_seq [answering]: "silent m \<Longrightarrow> silent k \<Longrightarrow> silent (seq m k)"
  by (simp add: seq_def silent_bind)

lemma answers_seq [answering]: "silent m \<Longrightarrow> answers k \<Longrightarrow> answers (seq m k)"
  by (simp add: seq_def answers_bind)

lemma answers_emit [answering]: "answers (emit (End s))" "answers (emit (TryEnd s))"
  by (auto simp: answers_def emit_run)

lemma answers_fault [answering]: "answers (liftE (Inl e))"
  by (simp add: answers_def liftE_def)

lemma answers_respond [answering]: "answers (respond c)"
  unfolding respond_def by (auto intro!: answering)

lemma silent_if [answering]: "(c \<Longrightarrow> silent a) \<Longrightarrow> (\<not> c \<Longrightarrow> silent b) \<Longrightarrow> silent (if c then a else b)"
  by simp

lemma answers_if [answering]: "(c \<Longrightarrow> answers a) \<Longrightarrow> (\<not> c \<Longrightarrow> answers b) \<Longrightarrow> answers (if c then a else b)"
  by simp

lemma silent_option [answering]:
  "silent a \<Longrightarrow> (\<And>v. silent (k v)) \<Longrightarrow> silent (case x of None \<Rightarrow> a | Some v \<Rightarrow> k v)"
  by (cases x) simp_all

lemma answers_option [answering]:
  "answers a \<Longrightarrow> (\<And>v. answers (k v)) \<Longrightarrow> answers (case x of None \<Rightarrow> a | Some v \<Rightarrow> k v)"
  by (cases x) simp_all

lemma silent_prod [answering]: "(\<And>a b. silent (k a b)) \<Longrightarrow> silent (case p of (a, b) \<Rightarrow> k a b)"
  by (cases p) simp

lemma answers_prod [answering]: "(\<And>a b. answers (k a b)) \<Longrightarrow> answers (case p of (a, b) \<Rightarrow> k a b)"
  by (cases p) simp

lemma silent_modify: "(\<And>w. reply (f w) = reply w) \<Longrightarrow> silent (modify f)"
  by (auto simp: silent_def modify_def)

lemma silent_release [answering]: "silent (release env)"
  unfolding release_def by (auto intro!: answering silent_modify)

lemma silent_request [answering]: "silent (request env b)"
  unfolding request_def by (auto intro!: answering silent_modify)

section \<open>Passwords\<close>

lemma of_char_le [simp]: "(of_char c :: nat) \<le> 255"
  using nat_of_char_less_256 [of c] by linarith

lemma flip_flip: "char_of (255 - of_char (char_of (255 - of_char c :: nat)) :: nat) = c"
proof -
  have "of_char (char_of (255 - of_char c :: nat)) = (255 - of_char c :: nat)" by simp
  then show ?thesis by (simp add: of_char_le [of c])
qed

lemma hash_hash: "hash (hash p) = p"
  by (simp add: hash_def o_def flip_flip del: of_char_of)

lemma flip_neq: "char_of (255 - of_char c :: nat) \<noteq> c"
proof
  assume "char_of (255 - of_char c :: nat) = c"
  then have "of_char (char_of (255 - of_char c :: nat)) = (of_char c :: nat)" by simp
  then have "255 - of_char c = (of_char c :: nat)" by simp
  then have "255 = 2 * (of_char c :: nat)" using of_char_le [of c] by linarith
  then show False by presburger
qed

lemma hash_neq: "p \<noteq> [] \<Longrightarrow> hash p \<noteq> p"
  using flip_neq by (cases p) (simp_all add: hash_def)

section \<open>Cookie headers\<close>

text \<open>The header a client sends for a list of cookies.\<close>

fun cookie_header :: "(string \<times> string) list \<Rightarrow> string" where
  "cookie_header [] = []"
| "cookie_header [(n, v)] = n @ ''='' @ v"
| "cookie_header ((n, v) # p # ps) = n @ ''='' @ v @ ''; '' @ cookie_header (p # ps)"

definition cookie_ok :: "string \<times> string \<Rightarrow> bool" where
  "cookie_ok p \<longleftrightarrow> fst p \<noteq> [] \<and> \<not> isspace (hd (fst p)) \<and>
     list_all (\<lambda>c. c \<notin> set '';='') (fst p) \<and> list_all (\<lambda>c. c \<noteq> CHR '';'') (snd p)"

lemma cookie_ok_chars:
  "cookie_ok (n, v) \<Longrightarrow> n \<noteq> [] \<and> CHR '';'' \<notin> set n \<and> CHR ''='' \<notin> set n \<and> CHR '';'' \<notin> set v"
  by (auto simp: cookie_ok_def list_all_iff)

lemma cookie_header_starts:
  "cookie_ok p \<Longrightarrow> dropWhile isspace (cookie_header (p # ps)) = cookie_header (p # ps)"
  by (cases p; cases ps; cases "fst p") (auto simp: cookie_ok_def)

lemma cookieLoop_Nil [simp]: "cookieLoop vs [] = vs"
  by (simp add: cookieLoop.simps)

lemma cookieLoop_last:
  assumes "cookie_ok (n, v)"
  shows "cookieLoop vs (n @ CHR ''='' # v) = AList.update n v vs"
  using cookie_ok_chars [OF assms] by (subst cookieLoop.simps) (simp add: split_at_notin)

lemma cookieLoop_more:
  assumes "cookie_ok (n, v)"
  shows "cookieLoop vs (n @ CHR ''='' # v @ CHR '';'' # rest)
    = cookieLoop (AList.update n v vs) (dropWhile isspace rest)"
  using cookie_ok_chars [OF assms] split_at_append [of "CHR '';''" "n @ CHR ''='' # v" rest]
  by (subst cookieLoop.simps) simp

lemma cookieLoop_header:
  "list_all cookie_ok ps \<Longrightarrow> map_of (cookieLoop vs (cookie_header ps)) = map_of vs ++ map_of (rev ps)"
proof (induction ps arbitrary: vs rule: cookie_header.induct)
  case (2 n v)
  then show ?case by (simp add: cookieLoop_last update_conv' map_add_def fun_eq_iff)
next
  case (3 n v p ps)
  then have "map_of (cookieLoop (AList.update n v vs) (cookie_header (p # ps)))
      = map_of (AList.update n v vs) ++ map_of (rev (p # ps))"
    by (intro "3.IH") simp
  with 3 show ?case
    by (simp add: cookieLoop_more cookie_header_starts update_conv' map_add_def fun_eq_iff split: option.splits)
qed simp

lemma getSessionID_header:
  assumes "list_all cookie_ok ps" "getHeader rq ''cookie'' = cookie_header ps"
  shows "getSessionID rq = (case map_of (rev ps) authCookie of None \<Rightarrow> None | Some v \<Rightarrow> from_chars 64 v)"
proof -
  have m: "map_of (getCookies rq) = map_of (rev ps)"
    using cookieLoop_header [OF assms(1), of "[]"] assms(2) by (simp add: getCookies_def)
  then have "cookieGet (getCookies rq) authCookie = (case map_of (rev ps) authCookie of None \<Rightarrow> [] | Some v \<Rightarrow> v)"
    by (simp add: cookieGet_def)
  moreover have "getCookies rq = [] \<Longrightarrow> map_of (rev ps) authCookie = None"
    using m by (metis map_of.simps(1))
  ultimately show ?thesis by (auto simp: getSessionID_def Let_def split: option.split)
qed

lemma getSessionID_auth:
  assumes "n < 2 ^ 64" "getHeader rq ''cookie'' = ''auth='' @ to_string n"
  shows "getSessionID rq = Some n"
proof -
  have "list_all (\<lambda>c. c \<noteq> CHR '';'') (to_string n)"
    by (auto simp: list_all_iff is_digit_def dest!: to_string_digits)
  then have "list_all cookie_ok [(authCookie, to_string n)]"
    by (simp add: cookie_ok_def authCookie_def isspace_def)
  from getSessionID_header [OF this, of rq] assms show ?thesis
    by (simp add: authCookie_def)
qed

lemma getSessionID_bound: "getSessionID rq = Some n \<Longrightarrow> n < 2 ^ 64"
  by (auto simp: getSessionID_def Let_def split: if_splits dest: from_chars_bound)

section \<open>Drawing a session number\<close>

lemma pickID_free: "pickID dist table i = Some v \<Longrightarrow> table v = None \<and> v \<in> range dist"
proof (rule pickID.raw_induct [where P = "\<lambda>dist table i v. table v = None \<and> v \<in> range dist"])
  fix f :: "(nat \<Rightarrow> nat) \<Rightarrow> (nat \<rightharpoonup> session) \<Rightarrow> nat \<Rightarrow> nat option" and dist table i v
  assume IH: "\<And>dist table i v. f dist table i = Some v \<Longrightarrow> table v = None \<and> v \<in> range dist"
    and eq: "(let val = dist i in if table val \<noteq> None then f dist table (Suc i) else Some val) = Some v"
  show "table v = None \<and> v \<in> range dist"
    using eq IH [of dist table "Suc i" v] by (auto simp: Let_def split: if_splits)
qed

lemma pickID_step:
  "pickID dist table i = (if table (dist i) \<noteq> None then pickID dist table (Suc i) else Some (dist i))"
  by (subst pickID.simps) (simp add: Let_def)

lemma pickID_returns: "table (dist (i + k)) = None \<Longrightarrow> \<exists>v. pickID dist table i = Some v"
proof (induction k arbitrary: i)
  case 0
  then show ?case by (simp add: pickID_step)
next
  case (Suc k)
  then show ?case using Suc.IH [of "Suc i"] by (cases "table (dist i)") (simp_all add: pickID_step [of dist table i])
qed

section \<open>What a login does\<close>

definition released :: "http_request \<Rightarrow> (nat \<rightharpoonup> session) \<Rightarrow> (nat \<rightharpoonup> session)" where
  "released rq table = (case getSessionID rq of None \<Rightarrow> table | Some ID \<Rightarrow> table(ID := None))"

lemma release_run:
  "release env w = (case getSessionID (req env) of
     None \<Rightarrow> (Inr False, w)
   | Some ID \<Rightarrow> (Inr True, w\<lparr>sessions := (sessions w)(ID := None),
       console := console w @ ''Released session: '' @ to_string ID @ ''.\<newline>'',
       reply := reply w @ [WriteHeader ''Set-Cookie''
         (authCookie @ ''=deleted; expires=Thu, 01 Jan 1970 00:00:00 GMT;'')]\<rparr>))"
  by (simp add: release_def clearCookie_def setCookie_def returnP_def split: option.split)

lemma release_sessions: "release env w = (r, w') \<Longrightarrow> sessions w' = released (req env) (sessions w)"
  by (auto simp: release_run released_def split: option.splits)

text \<open>The query a login runs, and the row that lets it succeed.\<close>

definition loginQuery ::
  "('db, 'st) env \<Rightarrow> string \<Rightarrow> string \<Rightarrow> 'db \<Rightarrow> (fault + SQLCode \<times> SQLResult) \<times> 'db" where
  "loginQuery env username password db = query (api env)
     (''SELECT ID, PERMISSIONS FROM USERS WHERE USERNAME = :USR AND PASSWORD = :PWD'')
     (iter env [('':USR'', username), ('':PWD'', hash password)]) db"

definition loginRow :: "SQLCode \<times> SQLResult \<Rightarrow> nat \<Rightarrow> nat \<Rightarrow> bool" where
  "loginRow res uid perm \<longleftrightarrow> isOK (fst res) \<and> rowCount (snd res) = Inr 1 \<and>
     (\<exists>s. cell (snd res) 0 0 = Inr s \<and> from_chars 64 s = Some uid) \<and>
     (\<exists>s. cell (snd res) 0 1 = Inr s \<and> from_chars 32 s = Some perm)"

definition dropSession :: "('db, 'st) env \<Rightarrow> ('db server, unit) prog" where
  "dropSession env = (if hasSession (req env) then seq (release env) (returnP ()) else returnP ())"

lemma dropSession_run:
  obtains w' cs where "dropSession env w = (Inr (), w')" "database w' = database w"
    "sessions w' = released (req env) (sessions w)" "reply w' = reply w @ cs"
proof -
  obtain r w' where rel: "release env w = (r, w')" by fastforce
  obtain x where r: "r = Inr x"
    using rel by (auto simp: release_run split: option.splits)
  have db: "database w' = database w"
    using keepsD [OF keeps_release rel] .
  have ses: "sessions w' = released (req env) (sessions w)"
    using release_sessions [OF rel] .
  obtain cs where cs: "reply w' = reply w @ cs"
    using silent_release rel r unfolding silent_def by blast
  show ?thesis
  proof (cases "hasSession (req env)")
    case True
    then show ?thesis
      using rel r db ses cs by (intro that [of w' cs]) (auto simp: dropSession_def seq_Inr returnP_def)
  next
    case False
    then show ?thesis
      by (intro that [of w "[]"]) (auto simp: dropSession_def returnP_def released_def hasSession_def)
  qed
qed

text \<open>The part of \<open>request\<close> after the old session is dropped, by the outcome of the query.\<close>

definition grant :: "('db, 'st) env \<Rightarrow> string \<Rightarrow> SQLCode \<times> SQLResult \<Rightarrow> ('db server, bool) prog" where
  "grant env username res = (case res of (status, matches) \<Rightarrow>
        if \<not> isOK status then returnP False
        else bind (liftE (rowCount matches)) (\<lambda>n.
        if n = 0 then returnP False
        else if n \<noteq> 1 then liftE (Inl Assertion_failed)
        else
        bind (gets sessions) (\<lambda>table.
        bind (liftE (case pickID (draws env) table 0 of None \<Rightarrow> Inl Diverges | Some v \<Rightarrow> Inr v)) (\<lambda>val.
        bind (liftE (cell matches 0 0)) (\<lambda>idText.
        case from_chars 64 idText of
          None \<Rightarrow> returnP False
        | Some uid \<Rightarrow>
            bind (liftE (cell matches 0 1)) (\<lambda>permText.
            case from_chars 32 permText of
              None \<Rightarrow> returnP False
            | Some temp \<Rightarrow>
                seq (modify (\<lambda>w. w\<lparr>sessions := (sessions w)(val \<mapsto>
                       \<lparr>sessionLevel = authLevel_cast temp, userID = uid\<rparr>)\<rparr>))
               (seq (setCookie authCookie (to_string val))
               (seq (cout (''Authenticated '' @ [QUOTE] @ username @ [QUOTE] @ '' with session ID: '' @ to_string val @ ''.\<newline>''))
                    (returnP True)))))))))"

lemma request_grant:
  "request env b = (if \<not> containsAll b [''username'', ''password''] False then returnP False
    else seq (dropSession env)
      (bind (liftE (getElement b ''username'')) (\<lambda>username.
       bind (liftE (getElement b ''password'')) (\<lambda>password.
       bind (\<lambda>w. case loginQuery env username password (database w) of (r, db) \<Rightarrow> (r, w\<lparr>database := db\<rparr>))
         (grant env username)))))"
  by (simp add: request_def dropSession_def grant_def [abs_def] loginQuery_def dbQuery_def [abs_def])

lemma grant_true:
  assumes "loginRow res uid perm" "sessions w (draws env k) = None"
  shows "\<exists>val. pickID (draws env) (sessions w) 0 = Some val \<and> sessions w val = None \<and> val \<in> range (draws env) \<and>
    grant env username res w = (Inr True, w\<lparr>sessions := (sessions w)(val \<mapsto>
        \<lparr>sessionLevel = authLevel_cast perm, userID = uid\<rparr>),
      console := console w @ ''Authenticated '' @ [QUOTE] @ username @ [QUOTE] @ '' with session ID: '' @ to_string val @ ''.\<newline>'',
      reply := reply w @ [WriteHeader ''Set-Cookie'' (authCookie @ ''='' @ to_string val)]\<rparr>)"
proof -
  obtain val where val: "pickID (draws env) (sessions w) 0 = Some val"
    using pickID_returns [of "sessions w" "draws env" 0 k] assms(2) by auto
  with pickID_free [OF val] assms(1) show ?thesis
    by (cases res) (auto simp: grant_def loginRow_def setCookie_def returnP_def)
qed

lemma grant_cases:
  assumes "grant env username res w = (r, w')"
  shows "sessions w' = sessions w \<or>
    (\<exists>uid perm val. r = Inr True \<and> loginRow res uid perm \<and> sessions w val = None \<and> val \<in> range (draws env) \<and>
      sessions w' = (sessions w)(val \<mapsto> \<lparr>sessionLevel = authLevel_cast perm, userID = uid\<rparr>))"
proof (cases "\<exists>uid perm. loginRow res uid perm \<and> pickID (draws env) (sessions w) 0 \<noteq> None")
  case True
  then obtain uid perm val where l: "loginRow res uid perm" and v: "pickID (draws env) (sessions w) 0 = Some val"
    by auto
  obtain k where k: "sessions w (draws env k) = None" using pickID_free [OF v] by auto
  from grant_true [OF l k, of username] assms obtain val'
    where "r = Inr True" "sessions w val' = None" "val' \<in> range (draws env)"
      "sessions w' = (sessions w)(val' \<mapsto> \<lparr>sessionLevel = authLevel_cast perm, userID = uid\<rparr>)"
    by (elim exE conjE) auto
  with l show ?thesis by blast
next
  case False
  obtain status matches where res: "res = (status, matches)" by (cases res)
  have "sessions w' = sessions w"
    using assms False unfolding res grant_def loginRow_def
    by (auto simp: bind_def liftE_def gets_def returnP_def split: if_splits sum.splits option.splits)
  then show ?thesis ..
qed

lemma request_run:
  assumes "containsAll b [''username'', ''password''] False"
    and "getElement b ''username'' = Inr u" and "getElement b ''password'' = Inr p"
  obtains w1 cs where "database w1 = database w" "sessions w1 = released (req env) (sessions w)"
    "reply w1 = reply w @ cs"
    "request env b w = (case loginQuery env u p (database w) of (r, db) \<Rightarrow>
       (case r of Inl e \<Rightarrow> (Inl e, w1\<lparr>database := db\<rparr>) | Inr res \<Rightarrow> grant env u res (w1\<lparr>database := db\<rparr>)))"
proof -
  obtain w1 cs where w1: "dropSession env w = (Inr (), w1)" "database w1 = database w"
    "sessions w1 = released (req env) (sessions w)" "reply w1 = reply w @ cs"
    by (rule dropSession_run)
  have "request env b w = bind (\<lambda>w. case loginQuery env u p (database w) of (r, db) \<Rightarrow> (r, w\<lparr>database := db\<rparr>))
      (grant env u) w1"
    using assms w1(1) by (simp add: request_grant seq_Inr del: containsAll.simps)
  also have "\<dots> = (case loginQuery env u p (database w) of (r, db) \<Rightarrow>
       (case r of Inl e \<Rightarrow> (Inl e, w1\<lparr>database := db\<rparr>) | Inr res \<Rightarrow> grant env u res (w1\<lparr>database := db\<rparr>)))"
    using w1(2) by (cases "loginQuery env u p (database w)") (simp add: bind_def split: sum.split)
  finally show ?thesis by (rule that [OF w1(2,3,4)])
qed

lemma request_granted:
  assumes "containsAll b [''username'', ''password''] False"
    and "getElement b ''username'' = Inr u" and "getElement b ''password'' = Inr p"
    and "loginQuery env u p (database w) = (Inr res, db')" and "loginRow res uid perm"
    and "released (req env) (sessions w) (draws env k) = None"
  shows "\<exists>val w'. request env b w = (Inr True, w') \<and> database w' = db' \<and>
    val \<in> range (draws env) \<and> released (req env) (sessions w) val = None \<and>
    sessions w' = (released (req env) (sessions w))(val \<mapsto>
      \<lparr>sessionLevel = authLevel_cast perm, userID = uid\<rparr>) \<and>
    (\<exists>cs. reply w' = reply w @ cs @ [WriteHeader ''Set-Cookie'' (authCookie @ ''='' @ to_string val)])"
proof -
  obtain w1 cs where "database w1 = database w" and w1: "sessions w1 = released (req env) (sessions w)"
    and cs: "reply w1 = reply w @ cs"
    and rq: "request env b w = (case loginQuery env u p (database w) of (r, db) \<Rightarrow>
       (case r of Inl e \<Rightarrow> (Inl e, w1\<lparr>database := db\<rparr>) | Inr res \<Rightarrow> grant env u res (w1\<lparr>database := db\<rparr>)))"
    by (rule request_run [OF assms(1-3)])
  from assms(6) w1 have "sessions (w1\<lparr>database := db'\<rparr>) (draws env k) = None" by simp
  from grant_true [OF assms(5) this, of u] obtain val where
    val: "sessions w1 val = None" "val \<in> range (draws env)"
    and run: "grant env u res (w1\<lparr>database := db'\<rparr>) = (Inr True, w1\<lparr>database := db',
      sessions := (sessions w1)(val \<mapsto> \<lparr>sessionLevel = authLevel_cast perm, userID = uid\<rparr>),
      console := console w1 @ ''Authenticated '' @ [QUOTE] @ u @ [QUOTE] @ '' with session ID: '' @ to_string val @ ''.\<newline>'',
      reply := reply w1 @ [WriteHeader ''Set-Cookie'' (authCookie @ ''='' @ to_string val)]\<rparr>)" (is "_ = (_, ?w')")
    by auto
  have "request env b w = (Inr True, ?w')" using rq assms(4) run by simp
  then show ?thesis
    using val w1 cs by (intro exI [of _ val] exI [of _ ?w']) simp
qed

lemma request_sessions:
  assumes "request env b w = (r, w')"
  shows "\<not> containsAll b [''username'', ''password''] False \<and> sessions w' = sessions w \<or>
    sessions w' = released (req env) (sessions w) \<or>
    (\<exists>u p res db uid perm val. r = Inr True \<and> b ''username'' = Some u \<and> b ''password'' = Some p \<and>
      loginQuery env u p (database w) = (Inr res, db) \<and> loginRow res uid perm \<and>
      released (req env) (sessions w) val = None \<and> val \<in> range (draws env) \<and>
      sessions w' = (released (req env) (sessions w))(val \<mapsto>
        \<lparr>sessionLevel = authLevel_cast perm, userID = uid\<rparr>))"
proof (cases "containsAll b [''username'', ''password''] False")
  case False
  with assms show ?thesis by (auto simp: request_def returnP_def)
next
  case True
  then obtain u p where up: "getElement b ''username'' = Inr u" "getElement b ''password'' = Inr p"
    "b ''username'' = Some u" "b ''password'' = Some p"
    by (auto simp: containsAll_iff hasElement_def getElement_def split: option.splits)
  obtain w1 cs where "database w1 = database w" and w1: "sessions w1 = released (req env) (sessions w)"
    and "reply w1 = reply w @ cs"
    and rq: "request env b w = (case loginQuery env u p (database w) of (r, db) \<Rightarrow>
       (case r of Inl e \<Rightarrow> (Inl e, w1\<lparr>database := db\<rparr>) | Inr res \<Rightarrow> grant env u res (w1\<lparr>database := db\<rparr>)))"
    by (rule request_run [OF True up(1,2)])
  obtain qr db where q: "loginQuery env u p (database w) = (qr, db)" by fastforce
  show ?thesis
  proof (cases qr)
    case (Inl e)
    with rq q assms w1 show ?thesis by auto
  next
    case (Inr res)
    with rq q assms have "grant env u res (w1\<lparr>database := db\<rparr>) = (r, w')" by simp
    from grant_cases [OF this] w1 have "sessions w' = released (req env) (sessions w) \<or>
      (\<exists>uid perm val. r = Inr True \<and> loginRow res uid perm \<and> released (req env) (sessions w) val = None \<and> val \<in> range (draws env) \<and>
        sessions w' = (released (req env) (sessions w))(val \<mapsto> \<lparr>sessionLevel = authLevel_cast perm, userID = uid\<rparr>))"
      by auto
    with up(3,4) q Inr show ?thesis by blast
  qed
qed

lemma verify_iff:
  "verify rq l w \<longleftrightarrow> (\<exists>ID s. getSessionID rq = Some ID \<and> sessions w ID = Some s \<and> l \<le> sessionLevel s)"
  by (auto simp: verify_def split: option.split)

lemma verify_hasSession: "verify rq l w \<Longrightarrow> \<exists>ID. getSessionID rq = Some ID"
  by (auto simp: verify_iff)

lemma verify_sessions_cong: "sessions w' = sessions w \<Longrightarrow> verify rq l w' = verify rq l w"
  by (simp add: verify_iff)

lemma verify_antimono: "l \<le> l' \<Longrightarrow> verify rq l' w \<Longrightarrow> verify rq l w"
  by (auto simp: verify_iff)

section \<open>Uploads\<close>

text \<open>An upload that arrives in pieces: the last piece, and only that one, is marked as such. The request may
  end between any two pieces.\<close>

definition upload :: "(string \<times> bool) list \<Rightarrow> string \<Rightarrow> bool \<Rightarrow> body_event list" where
  "upload chunks final live = map (\<lambda>(c, l). Data c False l) chunks @ [Data final True live]"

lemma onData_upload:
  "onData env h q buffer (upload chunks final live) =
     bind (liftE (parseURLValues (unescape env) (buffer @ concat (map fst chunks) @ final))) (\<lambda>b.
       if live then h env b q else liftE (Inl Undefined_behaviour))"
  by (induction chunks arbitrary: buffer) (auto simp: upload_def Let_def)

section \<open>The interface: handlers\<close>

text \<open>
  What the wrapper and the dispatcher rely on: a handler that returns has ended the response once
  (\<open>answering_handler\<close>), and most handlers never touch the session table (\<open>session_preserving\<close>).
\<close>

locale answering_handler =
  fixes h :: "('db, 'st) handler"
  assumes handler_answers: "answers (h env b q)"
begin

lemma ends_once:
  assumes "h env b q w = (Inr x, w')"
  shows "\<exists>cs c. reply w' = reply w @ cs @ [c] \<and> list_all (\<lambda>c. \<not> is_end c) cs \<and> is_end c"
  using handler_answers [of env b q] assms unfolding answers_def by blast

lemma wrapped_ends_once:
  assumes "contentLength (req env) = 0 \<or> events = upload chunks final live" "HttpCallWrapper env h events w = (Inr x, w')"
  shows "\<exists>cs c. reply w' = reply w @ cs @ [c] \<and> list_all (\<lambda>c. \<not> is_end c) cs \<and> is_end c"
proof -
  have "answers (HttpCallWrapper env h events)"
    unfolding HttpCallWrapper_def using assms(1) by (auto simp: onData_upload intro!: answering handler_answers)
  with assms(2) show ?thesis unfolding answers_def by blast
qed

end

locale session_preserving = answering_handler +
  assumes handler_keeps_sessions: "keeps sessions (h env b q)"
begin

lemma same_permissions: "h env b q w = (r, w') \<Longrightarrow> verify rq l w' = verify rq l w"
  by (rule verify_sessions_cong) (rule keepsD [OF handler_keeps_sessions])

end

section \<open>A sample environment\<close>

text \<open>The instance on which the theorems are applied: a scripted connection, session numbers drawn in
  order, and a request with a given cookie header and content length.\<close>

definition sample_request :: "string \<Rightarrow> string \<Rightarrow> http_request" where
  "sample_request cookie len = \<lparr>getMethod = ''get'', getUrl = ''/'', getQuery = [],
     getHeader = (\<lambda>n. if n = ''cookie'' then cookie else if n = ''content-length'' then len else [])\<rparr>"

definition sample_env :: "(string \<Rightarrow> string list list) \<Rightarrow> string \<Rightarrow> (script_log, table_stmt) env" where
  "sample_env answer cookie = \<lparr>api = scripted answer, iter = (\<lambda>ps. ps), iterRel = (\<lambda>ps. ps), draws = (\<lambda>i. i mod 2 ^ 64), unescape = Some,
     max_size = 2 ^ 62, nanText = ''nan'', req = sample_request cookie []\<rparr>"

definition sample_server :: "(nat \<rightharpoonup> session) \<Rightarrow> script_log server" where
  "sample_server table = \<lparr>database = [], sessions = table, console = [], reply = []\<rparr>"

lemma sample_env_simps [simp]:
  "api (sample_env answer cookie) = scripted answer" "iter (sample_env answer cookie) ps = ps"
  "iterRel (sample_env answer cookie) ps = ps"
  "draws (sample_env answer cookie) i = i mod 2 ^ 64" "unescape (sample_env answer cookie) = Some"
  "max_size (sample_env answer cookie) = 2 ^ 62"
  "req (sample_env answer cookie) = sample_request cookie []"
  "getHeader (sample_request cookie len) ''cookie'' = cookie"
  "getHeader (sample_request cookie len) ''content-length'' = len"
  "getQuery (sample_request cookie len) = []"
  "getMethod (sample_request cookie len) = ''get''" "getUrl (sample_request cookie len) = ''/''"
  by (simp_all add: sample_env_def sample_request_def)

lemma sample_server_simps [simp]:
  "database (sample_server table) = []" "sessions (sample_server table) = table"
  "console (sample_server table) = []" "reply (sample_server table) = []"
  by (simp_all add: sample_server_def)

lemma getSessionID_sample:
  "n < 2 ^ 64 \<Longrightarrow> getSessionID (sample_request (''auth='' @ to_string n) len) = Some n"
  by (simp add: getSessionID_auth)

text \<open>A request that carries the cookie of session 7, and a table with that session.\<close>

abbreviation staff_request :: http_request where
  "staff_request \<equiv> sample_request (''auth='' @ to_string 7) []"

abbreviation staff_env :: "(string \<Rightarrow> string list list) \<Rightarrow> (script_log, table_stmt) env" where
  "staff_env answer \<equiv> sample_env answer (''auth='' @ to_string 7)"

abbreviation staff_server :: "authLevel \<Rightarrow> script_log server" where
  "staff_server l \<equiv> sample_server [7 \<mapsto> \<lparr>sessionLevel = l, userID = 4\<rparr>]"

lemma staff_facts:
  "getSessionID staff_request = Some 7"
  "verify staff_request l' (staff_server l) \<longleftrightarrow> l' \<le> l"
  "verify staff_request l' ((staff_server l)\<lparr>database := d\<rparr>) \<longleftrightarrow> l' \<le> l"
  "getSessionUser staff_request (staff_server l) = Some 4"
  "getSessionUser staff_request ((staff_server l)\<lparr>database := d\<rparr>) = Some 4"
proof -
  show id: "getSessionID staff_request = Some 7" by (rule getSessionID_sample) simp
  show "verify staff_request l' (staff_server l) \<longleftrightarrow> l' \<le> l"
    "verify staff_request l' ((staff_server l)\<lparr>database := d\<rparr>) \<longleftrightarrow> l' \<le> l"
    "getSessionUser staff_request (staff_server l) = Some 4"
    "getSessionUser staff_request ((staff_server l)\<lparr>database := d\<rparr>) = Some 4"
    unfolding verify_def getSessionUser_def id by simp_all
qed

lemma to_string_7: "to_string 7 = ''7''"
  by code_simp

lemma getSessionID_no_cookie: "getSessionID (sample_request [] len) = None"
  by (simp add: getSessionID_def getCookies_def cookieGet_def Let_def)

section \<open>Properties\<close>

text \<open>The cookie identifies the session. For a request whose cookie header is well formed and
  whose last \<^verbatim>\<open>auth\<close> cookie is the decimal text of a session number, \<^verbatim>\<open>verify\<close> accepts exactly the
  levels up to the level of that session and \<^verbatim>\<open>getSessionUser\<close> gives its user; without such an
  entry in the table both refuse.\<close>

theorem cookie_identifies_session:
  assumes "list_all cookie_ok ps" and "getHeader rq ''cookie'' = cookie_header ps"
    and "map_of (rev ps) authCookie = Some (to_string val)" and "val < 2 ^ 64"
  shows "(verify rq l w \<longleftrightarrow> (case sessions w val of None \<Rightarrow> False | Some s \<Rightarrow> l \<le> sessionLevel s)) \<and>
    getSessionUser rq w = map_option userID (sessions w val)"
  using getSessionID_header [OF assms(1,2)] assms(3,4)
  by (simp_all add: verify_def getSessionUser_def)

theorem cookie_identifies_session_witness:
  "(verify (sample_request ''theme=dark; auth=7'' []) employee
      (sample_server [7 \<mapsto> \<lparr>sessionLevel = manager, userID = 4\<rparr>]) \<longleftrightarrow>
     (case sessions (sample_server [7 \<mapsto> \<lparr>sessionLevel = manager, userID = 4\<rparr>]) 7 of
        None \<Rightarrow> False | Some s \<Rightarrow> employee \<le> sessionLevel s)) \<and>
   getSessionUser (sample_request ''theme=dark; auth=7'' []) (sample_server [7 \<mapsto> \<lparr>sessionLevel = manager, userID = 4\<rparr>])
     = map_option userID (sessions (sample_server [7 \<mapsto> \<lparr>sessionLevel = manager, userID = 4\<rparr>]) 7)"
proof (rule cookie_identifies_session)
  show "list_all cookie_ok [(''theme'', ''dark''), (''auth'', ''7'')]"
    by (simp add: cookie_ok_def isspace_def)
qed (simp_all add: authCookie_def to_string_7)

text \<open>C30. How a body is cut into pieces does not matter as long as the last piece comes in time. When
  uWebSockets delivers a body in any number of pieces, of which the last one is marked, the pieces are put
  together and parsed as one form; if the request object still exists when the last piece arrives, the
  handler runs exactly once, on that form, and if the request has ended before, the handler is called with
  a dangling pointer, which is undefined behaviour, whatever the form says.\<close>

theorem body_pieces:
  assumes "contentLength (req env) \<noteq> 0" and "contentLength (req env) \<le> max_size env"
  shows "HttpCallWrapper env h (upload chunks final live) w =
    bind (liftE (parseURLValues (unescape env) (getQuery (req env)))) (\<lambda>q.
    bind (liftE (parseURLValues (unescape env) (concat (map fst chunks) @ final))) (\<lambda>b.
      if live then h env b q else liftE (Inl Undefined_behaviour))) w"
  using assms by (simp add: HttpCallWrapper_def onData_upload)

theorem body_pieces_witness:
  "HttpCallWrapper ((sample_env (\<lambda>_. []) [])\<lparr>req := sample_request [] ''7''\<rparr>)
     (\<lambda>env b q. cout (case b ''ab'' of None \<Rightarrow> ''none'' | Some v \<Rightarrow> v)) (upload [(''a'', True), (''b='', False)] ''cd'' True) (sample_server Map.empty) =
    bind (liftE (parseURLValues (unescape ((sample_env (\<lambda>_. []) [])\<lparr>req := sample_request [] ''7''\<rparr>))
        (getQuery (req ((sample_env (\<lambda>_. []) [])\<lparr>req := sample_request [] ''7''\<rparr>))))) (\<lambda>q.
    bind (liftE (parseURLValues (unescape ((sample_env (\<lambda>_. []) [])\<lparr>req := sample_request [] ''7''\<rparr>))
        (''ab='' @ ''cd''))) (\<lambda>b.
      cout (case b ''ab'' of None \<Rightarrow> ''none'' | Some v \<Rightarrow> v))) (sample_server Map.empty)"
  by (subst body_pieces)
    (simp_all add: contentLength_def from_chars_def is_digit_def num_val_def digit_val_def sample_env_def sample_request_def)

text \<open>Logging out. Releasing drops the session that the request names and no other: afterwards the
  same request is refused at every level, every other session is as it was, the database is
  untouched and the response tells the client to drop the cookie.\<close>

theorem logout:
  assumes "getSessionID (req env) = Some n"
  shows "\<exists>w'. release env w = (Inr True, w') \<and> sessions w' = (sessions w)(n := None) \<and>
    \<not> verify (req env) l w' \<and> getSessionUser (req env) w' = None \<and> database w' = database w \<and>
    reply w' = reply w @ [WriteHeader ''Set-Cookie'' ''auth=deleted; expires=Thu, 01 Jan 1970 00:00:00 GMT;'']"
  using assms by (simp add: release_run verify_def getSessionUser_def authCookie_def)

theorem logout_witness:
  "\<exists>w'. release (sample_env (\<lambda>_. []) (''auth='' @ to_string 7)) (sample_server [7 \<mapsto> \<lparr>sessionLevel = manager, userID = 4\<rparr>])
      = (Inr True, w') \<and>
    sessions w' = (sessions (sample_server [7 \<mapsto> \<lparr>sessionLevel = manager, userID = 4\<rparr>]))(7 := None) \<and>
    \<not> verify (req (sample_env (\<lambda>_. []) (''auth='' @ to_string 7))) client w' \<and>
    getSessionUser (req (sample_env (\<lambda>_. []) (''auth='' @ to_string 7))) w' = None \<and>
    database w' = database (sample_server [7 \<mapsto> \<lparr>sessionLevel = manager, userID = 4\<rparr>]) \<and>
    reply w' = reply (sample_server [7 \<mapsto> \<lparr>sessionLevel = manager, userID = 4\<rparr>]) @
      [WriteHeader ''Set-Cookie'' ''auth=deleted; expires=Thu, 01 Jan 1970 00:00:00 GMT;'']"
  by (rule logout) (simp add: getSessionID_sample del: append.simps)

text \<open>A session can be hidden by an unrelated cookie. A cookie without a value in front of the
  authentication cookie leaves the blank that separates them in the name, so that the request is
  treated as one without a session.\<close>

theorem bare_cookie_hides_session:
  assumes "n \<noteq> []" and "CHR '';'' \<notin> set n" and "CHR ''='' \<notin> set n" and "CHR '';'' \<notin> set v"
    and "getHeader rq ''cookie'' = n @ ''; auth='' @ v"
  shows "getSessionID rq = None"
proof -
  have s1: "split_at CHR '';'' (n @ CHR '';'' # '' auth='' @ v) = (n, Some ('' auth='' @ v))"
    using assms(2) by (rule split_at_append)
  have s2: "split_at CHR '';'' ('' auth='' @ v) = ('' auth='' @ v, None)"
    using assms(4) by (intro split_at_notin) simp
  have "cookieLoop [] (n @ CHR '';'' # '' auth='' @ v) = cookieLoop [] ('' auth='' @ v)"
    using assms(1,3) s1 by (subst cookieLoop.simps) (simp add: split_at_notin)
  also have "\<dots> = [('' auth'', v)]"
    using s2 by (subst cookieLoop.simps) simp
  finally show ?thesis
    using assms(5) by (simp add: getSessionID_def getCookies_def cookieGet_def authCookie_def)
qed

theorem bare_cookie_hides_session_witness: "getSessionID (sample_request (''flag'' @ ''; auth='' @ ''7'') []) = None"
  by (rule bare_cookie_hides_session [of "''flag''" "''7''"]) simp_all

end
