(* ===== verification/Handlers.thy ===== *)
theory Handlers
  imports Network
begin

text \<open>
  What the route handlers (\<^verbatim>\<open>Server/include/WebRoutes\<close>) have in common: building the parameters of
  a query, filling a response from the rows of a result, the log line of a session, and the loops
  over rows. Then the rules for two properties that every handler is shown to have: it ends its
  response exactly once, and it refuses a request without the required permission, which means that
  such a request changes nothing in the database and learns nothing but a status.
\<close>

section \<open>Pieces of handlers\<close>

text \<open>\<^verbatim>\<open>b.getElement(x).empty() || b.getElement(y).empty() || ...\<close>, from the left.\<close>

fun anyEmpty :: "queryBase \<Rightarrow> string list \<Rightarrow> fault + bool" where
  "anyEmpty b [] = Inr False"
| "anyEmpty b (n # names) = bindE (getElement b n) (\<lambda>v. if v = [] then Inr True else anyEmpty b names)"

text \<open>\<^verbatim>\<open>b.hasElement(name) ? b.getElement(name) : otherwise\<close>\<close>

definition elementOr :: "queryBase \<Rightarrow> string \<Rightarrow> string \<Rightarrow> fault + string" where
  "elementOr b name otherwise = (if hasElement b name False then getElement b name else Inr otherwise)"

text \<open>The braced list of named parameters of a query: every value is computed before the call.\<close>

fun params :: "(string \<times> (fault + string)) list \<Rightarrow> fault + (string \<times> string) list" where
  "params [] = Inr []"
| "params ((name, val) # ps) = bindE val (\<lambda>v. bindE (params ps) (\<lambda>vs. Inr ((name, v) # vs)))"

definition dbCall ::
  "('db, 'st) env \<Rightarrow> string \<Rightarrow> (string \<times> (fault + string)) list \<Rightarrow> ('db server, SQLCode \<times> SQLResult) prog" where
  "dbCall env SQL ps = bind (liftE (params ps)) (\<lambda>vs. dbQuery env SQL vs)"

text \<open>\<^verbatim>\<open>std::cout << "Session (" << auth->getSessionID(req).value() << msg\<close>\<close>

definition coutSession :: "('db, 'st) env \<Rightarrow> string \<Rightarrow> ('db server, unit) prog" where
  "coutSession env msg =
     seq (cout ''Session ('')
    (bind (liftE (valueOf (getSessionID (req env)))) (\<lambda>ID. cout (to_string ID @ msg)))"

text \<open>The log line ending in a quoted element: \<^verbatim>\<open><< ") updated part (\"" << text << "\").\n"\<close>.\<close>

definition quoted :: "string \<Rightarrow> string \<Rightarrow> string" where
  "quoted msg val = msg @ [QUOTE] @ val @ [QUOTE] @ '').\<newline>''"

text \<open>\<^verbatim>\<open>wrap.add(name, result[row][col]);\<close> for each pair of the list.\<close>

fun addCells :: "SQLResult \<Rightarrow> nat \<Rightarrow> (string \<times> nat) list \<Rightarrow> responseWrapper \<Rightarrow> fault + responseWrapper" where
  "addCells r row [] wrap = Inr wrap"
| "addCells r row ((name, col) # cols) wrap =
     bindE (cell r row col) (\<lambda>v. bindE (addString wrap name v False) (addCells r row cols))"

text \<open>A \<^verbatim>\<open>for\<close> loop over row indices whose body cannot leave the handler.\<close>

primrec foldE :: "('i \<Rightarrow> 'a \<Rightarrow> fault + 'a) \<Rightarrow> 'i list \<Rightarrow> 'a \<Rightarrow> fault + 'a" where
  "foldE f [] a = Inr a"
| "foldE f (i # is) a = bindE (f i a) (foldE f is)"

text \<open>The usual loop: every row becomes an object that is added under one name.\<close>

definition addRows ::
  "SQLResult \<Rightarrow> (string \<times> nat) list \<Rightarrow> string \<Rightarrow> bool \<Rightarrow> responseWrapper \<Rightarrow> fault + responseWrapper" where
  "addRows r cols name forceArray response =
     bindE (rowCount r) (\<lambda>n. foldE (\<lambda>i response.
       bindE (addCells r i cols emptyResponse) (\<lambda>temp. addObject response name temp forceArray)) [0..<n] response)"

text \<open>A \<^verbatim>\<open>for\<close> loop whose body may return from the handler: the body is given the rest of the loop.\<close>

primrec forEach ::
  "'i list \<Rightarrow> 'a \<Rightarrow> ('i \<Rightarrow> 'a \<Rightarrow> ('a \<Rightarrow> ('s, 'r) prog) \<Rightarrow> ('s, 'r) prog) \<Rightarrow> ('a \<Rightarrow> ('s, 'r) prog) \<Rightarrow> ('s, 'r) prog"
where
  "forEach [] a body after = after a"
| "forEach (i # is) a body after = body i a (\<lambda>a. forEach is a body after)"

text \<open>\<^verbatim>\<open>res->tryEnd(response.toData(false));\<close>\<close>

definition sendResponse :: "responseWrapper \<Rightarrow> ('db server, unit) prog" where
  "sendResponse response = bind (liftE (toDataString False response)) (\<lambda>s. emit (TryEnd s))"

text \<open>\<^verbatim>\<open>if (!status) res->writeStatus(INTERNALERROR); else \<dots>; res->end();\<close>\<close>

definition finish :: "SQLCode \<Rightarrow> ('db server, unit) prog \<Rightarrow> ('db server, unit) prog" where
  "finish status log = seq (if \<not> isOK status then emit (WriteStatus INTERNALERROR) else log) (emit (End []))"

section \<open>Running\<close>

named_theorems running \<open>one step of a handler on a given state\<close>

lemma bind_liftE_run [running]: "bind (liftE r) k w = (case r of Inl e \<Rightarrow> (Inl e, w) | Inr x \<Rightarrow> k x w)"
  by (cases r) simp_all

lemma bind_dbCall_run [running]:
  "bind (dbCall env SQL ps) k w = (case params ps of Inl e \<Rightarrow> (Inl e, w) | Inr vs \<Rightarrow>
     (case query (api env) SQL (iter env vs) (database w) of (Inl e, db) \<Rightarrow> (Inl e, w\<lparr>database := db\<rparr>)
      | (Inr x, db) \<Rightarrow> k x (w\<lparr>database := db\<rparr>)))"
  by (simp add: dbCall_def bind_assoc bind_liftE_run split: sum.split)
    (simp add: bind_def dbQuery_def split: prod.split sum.split)

lemma coutSession_run:
  "getSessionID (req env) = Some n \<Longrightarrow>
   coutSession env msg w = (Inr (), w\<lparr>console := console w @ ''Session ('' @ to_string n @ msg\<rparr>)"
  by (simp add: coutSession_def valueOf_def cout_run)

lemma seq_coutSession [running]:
  "getSessionID (req env) = Some n \<Longrightarrow>
   seq (coutSession env msg) k w = k (w\<lparr>console := console w @ ''Session ('' @ to_string n @ msg\<rparr>)"
  by (simp add: seq_Inr coutSession_run)

section \<open>Framing\<close>

lemma keeps_dbCall [frame]:
  "keeps sessions (dbCall env SQL ps)" "keeps reply (dbCall env SQL ps)" "keeps console (dbCall env SQL ps)"
  unfolding dbCall_def by (auto intro!: frame)

lemma keeps_coutSession [frame]:
  "keeps sessions (coutSession env msg)" "keeps database (coutSession env msg)" "keeps reply (coutSession env msg)"
  unfolding coutSession_def by (auto intro!: frame)

lemma keeps_sendResponse [frame]:
  "keeps sessions (sendResponse r)" "keeps database (sendResponse r)" "keeps console (sendResponse r)"
  unfolding sendResponse_def by (auto intro!: frame)

lemma keeps_finish [frame]:
  "keeps sessions log \<Longrightarrow> keeps sessions (finish status log)"
  "keeps database log \<Longrightarrow> keeps database (finish status log)"
  unfolding finish_def by (auto intro!: frame)

lemma keeps_forEach [frame]:
  assumes "\<And>i a k. (\<And>a. keeps f (k a)) \<Longrightarrow> keeps f (body i a k)" "\<And>a. keeps f (after a)"
  shows "keeps f (forEach is a body after)"
  by (induction "is" arbitrary: a) (simp_all add: assms)

section \<open>Ending the response once\<close>

lemma silent_helpers [answering]: "silent (dbCall env SQL ps)" "silent (coutSession env msg)"
  by (rule silent_keeps, rule frame)+

lemma answers_sendResponse [answering]: "answers (sendResponse r)"
  unfolding sendResponse_def by (auto intro!: answering)

lemma answers_finish [answering]: "silent log \<Longrightarrow> answers (finish status log)"
  unfolding finish_def by (auto intro!: answering)

lemma answers_forEach [answering]:
  assumes "\<And>i a k. (\<And>a. answers (k a)) \<Longrightarrow> answers (body i a k)" "\<And>a. answers (after a)"
  shows "answers (forEach is a body after)"
  by (induction "is" arbitrary: a) (simp_all add: assms)

section \<open>Refusing a request\<close>

text \<open>What SQLite documents: a \<^verbatim>\<open>SELECT\<close> statement does not change the database.\<close>

definition select_readonly :: "('db, 'st) sqlite3 \<Rightarrow> bool" where
  "select_readonly sql \<longleftrightarrow> (\<forall>SQL ps db. isSelect SQL \<longrightarrow> snd (query sql SQL ps db) = db)"

text \<open>Two kinds of requests without permission, by the session table: those whose session does not
  reach a level, and those without a known session.\<close>

definition below :: "http_request \<Rightarrow> authLevel \<Rightarrow> (nat \<rightharpoonup> session) \<Rightarrow> bool" where
  "below rq l table = (case getSessionID rq of None \<Rightarrow> True | Some ID \<Rightarrow>
     (case table ID of None \<Rightarrow> True | Some s \<Rightarrow> \<not> l \<le> sessionLevel s))"

definition anonymous :: "http_request \<Rightarrow> (nat \<rightharpoonup> session) \<Rightarrow> bool" where
  "anonymous rq table = (case getSessionID rq of None \<Rightarrow> True | Some ID \<Rightarrow> table ID = None)"

fun status_only :: "res_call \<Rightarrow> bool" where
  "status_only (WriteStatus _) = True"
| "status_only (End s) = (s = [])"
| "status_only _ = False"

definition refuses :: "((nat \<rightharpoonup> session) \<Rightarrow> bool) \<Rightarrow> ('db server, 'a) prog \<Rightarrow> bool" where
  "refuses P m \<longleftrightarrow> (\<forall>w. P (sessions w) \<longrightarrow>
     database (snd (m w)) = database w \<and> sessions (snd (m w)) = sessions w \<and>
     (\<exists>cs. reply (snd (m w)) = reply w @ cs \<and> list_all status_only cs))"

named_theorems refusing \<open>rules for refusing a request\<close>

lemma verify_below: "verify rq l w \<longleftrightarrow> \<not> below rq l (sessions w)"
  by (auto simp: verify_def below_def split: option.split)

lemma anonymous_below: "anonymous rq table \<Longrightarrow> below rq l table"
  by (auto simp: below_def anonymous_def split: option.splits)

lemma anonymous_no_user: "anonymous rq (sessions w) \<Longrightarrow> getSessionUser rq w = None"
  by (auto simp: anonymous_def getSessionUser_def split: option.splits)

lemma anonymous_is_no_user:
  "anonymous rq (sessions w) \<Longrightarrow> \<not> isSessionUser rq s w \<and> \<not> isSessionUserFromID rq s w"
  by (simp add: isSessionUser_def isSessionUserFromID_def anonymous_no_user)

lemma refuses_keeps:
  "keeps database m \<Longrightarrow> keeps sessions m \<Longrightarrow> keeps reply m \<Longrightarrow> refuses P m"
  unfolding refuses_def keeps_def by (intro allI impI conjI exI [of _ "[]"]) simp_all

lemma refuses_bind:
  fixes m :: "('a server, 'b) prog"
  assumes "refuses P m" "\<And>x. refuses P (k x)"
  shows "refuses P (bind m k)"
  unfolding refuses_def
proof (intro allI impI)
  fix w :: "'a server" assume P: "P (sessions w)"
  obtain r w1 where m: "m w = (r, w1)" by fastforce
  with assms(1) P obtain cs where 1: "database w1 = database w" "sessions w1 = sessions w"
    "reply w1 = reply w @ cs" "list_all status_only cs"
    unfolding refuses_def by fastforce
  show "database (snd (bind m k w)) = database w \<and> sessions (snd (bind m k w)) = sessions w \<and>
    (\<exists>cs. reply (snd (bind m k w)) = reply w @ cs \<and> list_all status_only cs)"
  proof (cases r)
    case (Inl e)
    with m 1 show ?thesis by (simp add: bind_def)
  next
    case (Inr x)
    from assms(2) [of x] P 1 obtain cs' where "database (snd (k x w1)) = database w"
      "sessions (snd (k x w1)) = sessions w" "reply (snd (k x w1)) = reply w @ cs @ cs'" "list_all status_only cs'"
      unfolding refuses_def by (metis append.assoc)
    with Inr m 1 show ?thesis by (auto simp: bind_def)
  qed
qed

lemma refuses_seq: "refuses P m \<Longrightarrow> refuses P k \<Longrightarrow> refuses P (seq m k)"
  by (simp add: seq_def refuses_bind)

lemma refuses_emit: "status_only c \<Longrightarrow> refuses P (emit c)"
  by (simp add: refuses_def emit_run)

lemma refuses_respond [refusing]: "refuses P (respond code)"
  unfolding respond_def by (intro refuses_seq refuses_emit) simp_all

lemma refuses_returnP [refusing]: "refuses P (returnP x)"
  by (rule refuses_keeps) (auto intro!: frame)

lemma refuses_fault [refusing]: "refuses P (liftE r)"
  by (rule refuses_keeps) (auto intro!: frame)

lemma refuses_cout [refusing]: "refuses P k \<Longrightarrow> refuses P (seq (cout s) k)"
  by (rule refuses_seq [OF refuses_keeps]) (auto intro!: frame)

lemma refuses_liftE [refusing]: "(\<And>x. r = Inr x \<Longrightarrow> refuses P (k x)) \<Longrightarrow> refuses P (bind (liftE r) k)"
  by (cases r) (auto simp: refuses_def liftE_def bind_def)

lemma refuses_if [refusing]: "(c \<Longrightarrow> refuses P a) \<Longrightarrow> (\<not> c \<Longrightarrow> refuses P b) \<Longrightarrow> refuses P (if c then a else b)"
  by simp

lemma refuses_prod [refusing]: "(\<And>a b. refuses P (k a b)) \<Longrightarrow> refuses P (case p of (a, b) \<Rightarrow> k a b)"
  by (cases p) simp

lemma refuses_option [refusing]:
  "(x = None \<Longrightarrow> refuses P a) \<Longrightarrow> (\<And>v. x = Some v \<Longrightarrow> refuses P (k v)) \<Longrightarrow> refuses P (case x of None \<Rightarrow> a | Some v \<Rightarrow> k v)"
  by (cases x) simp_all

lemma refuses_gets:
  "(\<And>w. P (sessions w) \<Longrightarrow> f w = c) \<Longrightarrow> refuses P (k c) \<Longrightarrow> refuses P (bind (gets f) k)"
  by (auto simp: refuses_def)

lemma refuses_gets_any: "(\<And>x. refuses P (k x)) \<Longrightarrow> refuses P (bind (gets f) k)"
  by (auto simp: refuses_def)

text \<open>The two ways in which a guard is decided.\<close>

lemma refuses_verify [refusing]:
  "refuses (below rq l) (k False) \<Longrightarrow> refuses (below rq l) (bind (gets (verify rq l)) k)"
  by (rule refuses_gets) (simp_all add: verify_below)

lemma refuses_anonymous [refusing]:
  "refuses (anonymous rq) (k False) \<Longrightarrow> refuses (anonymous rq) (bind (gets (verify rq l)) k)"
  "refuses (anonymous rq) (k False) \<Longrightarrow> refuses (anonymous rq) (bind (gets (isSessionUser rq s)) k)"
  "refuses (anonymous rq) (k False) \<Longrightarrow> refuses (anonymous rq) (bind (gets (isSessionUserFromID rq s)) k)"
  "refuses (anonymous rq) (k' None) \<Longrightarrow> refuses (anonymous rq) (bind (gets (getSessionUser rq)) k')"
  by (rule refuses_gets; auto simp: verify_below anonymous_below anonymous_is_no_user anonymous_no_user)+

text \<open>A query is harmless when it only reads.\<close>

lemma keeps_select: "select_readonly (api env) \<Longrightarrow> isSelect SQL \<Longrightarrow> keeps database (dbQuery env SQL ps)"
  by (auto simp: keeps_def dbQuery_def select_readonly_def split: prod.splits) (metis snd_conv)

lemma refuses_select [refusing]:
  assumes "select_readonly (api env)" "isSelect SQL" "\<And>x. refuses P (k x)"
  shows "refuses P (bind (dbCall env SQL ps) k)"
  by (rule refuses_bind [OF refuses_keeps])
    (use assms keeps_select in \<open>auto simp: dbCall_def intro!: frame\<close>)

text \<open>The scripted connection has this property.\<close>

lemma scripted_select_readonly:
  assumes "\<And>SQL. list_all (\<lambda>row. length row = script_width (answer SQL)) (answer SQL)"
  shows "select_readonly (scripted answer)"
  unfolding select_readonly_def
proof (intro allI impI)
  fix SQL :: string and ps db assume "isSelect SQL"
  then show "snd (query (scripted answer) SQL ps db) = db"
    using query_scripted [of SQL answer ps db] assms by (cases "length SQL < 2 ^ 31") (auto simp: query_def)
qed

lemmas sample_numbers = from_chars_def is_digit_def num_val_def digit_val_def authLevel_cast_def

end
