(* ===== verification/AuthRoutes.thy ===== *)
theory AuthRoutes
  imports Handlers
begin

text \<open>
  The authentication routes (\<^verbatim>\<open>Server/include/WebRoutes/Auth.h\<close>): logging in, registering, logging out
  and asking for the state of a session. They are the only routes that change the session table.
\<close>

section \<open>The routes\<close>

definition authenticate :: "('db, 'st) handler" where
  "authenticate env b q =
     bind (liftE (if \<not> containsAll b [''username'', ''password''] False then Inr True
                  else anyEmpty b [''username'', ''password''])) (\<lambda>bad.
     if bad then respond BADREQUEST
     else bind (request env b) (\<lambda>ok.
       seq (if \<not> ok then emit (WriteStatus UNAUTHORISED) else returnP ())
           (emit (End []))))"

definition registerSQL :: string where
  "registerSQL = ''INSERT INTO '' @ tableNames USER @
     '' (ID, USERNAME, PASSWORD, PERMISSIONS) VALUES (NULL, :USR, :PAS, 1);''"

definition registerUser :: "('db, 'st) handler" where
  "registerUser env b q =
     (if \<not> containsAll b [''username'', ''password''] False then respond BADREQUEST
      else
        bind (dbCall env registerSQL
          [('':USR'', getElement b ''username''), ('':PAS'', getElement b ''password'')]) (\<lambda>(status, result).
        seq (if \<not> isOK status then emit (WriteStatus INTERNALERROR)
             else bind (liftE (getElement b ''username'')) (\<lambda>u. cout (quoted ''Created new client ('' u)))
            (authenticate env b q)))"

definition deauthenticate :: "('db, 'st) env \<Rightarrow> ('db server, unit) prog" where
  "deauthenticate env =
     bind (release env) (\<lambda>ok.
     seq (if \<not> ok then emit (WriteStatus CONFLICT) else returnP ())
         (emit (End [])))"

definition checkSession :: "('db, 'st) env \<Rightarrow> ('db server, unit) prog" where
  "checkSession env =
     (if hasSession (req env) then
        seq (emit (WriteStatus OK))
       (bind (gets (getSessionAuthLevel (req env))) (\<lambda>l.
        bind (liftE (valueOf l)) (\<lambda>l.
        bind (liftE (addString emptyResponse ''Permissions'' (int_to_string (level l)) False)) (\<lambda>wrap.
        bind (liftE (toDataString False wrap)) (\<lambda>s.
        emit (End s))))))
      else
        seq (release env)
       (seq (emit (WriteStatus UNAUTHORISED))
            (emit (End []))))"

section \<open>Handlers of the interface\<close>

interpretation authenticate: answering_handler authenticate
  by unfold_locales (auto simp: authenticate_def intro!: answering)

interpretation registerUser: answering_handler registerUser
  by unfold_locales (auto simp: registerUser_def intro!: answering authenticate.handler_answers)

interpretation deauthenticate: answering_handler "\<lambda>env b q. deauthenticate env"
  by unfold_locales (auto simp: deauthenticate_def intro!: answering)

interpretation checkSession: answering_handler "\<lambda>env b q. checkSession env"
  by unfold_locales (auto simp: checkSession_def intro!: answering)

section \<open>A granted login\<close>

lemma authenticate_granted:
  assumes "b ''username'' = Some u" "u \<noteq> []" and "b ''password'' = Some p" "p \<noteq> []"
    and "loginQuery env u p (database w) = (Inr res, db')" and "loginRow res uid perm"
    and "released (req env) (sessions w) (draws env k) = None"
  shows "\<exists>w' cs val. authenticate env b q w = (Inr (), w') \<and> database w' = db' \<and> val \<in> range (draws env) \<and>
    reply w' = reply w @ cs @ [WriteHeader ''Set-Cookie'' (''auth='' @ to_string val), End []] \<and>
    sessions w' val = Some \<lparr>sessionLevel = authLevel_cast perm, userID = uid\<rparr>"
proof -
  have c: "containsAll b [''username'', ''password''] False" "getElement b ''username'' = Inr u"
    "getElement b ''password'' = Inr p"
    using assms(1-4) by (simp_all add: hasElement_def getElement_def)
  from request_granted [OF c assms(5-7)] obtain val w' cs where w': "request env b w = (Inr True, w')"
    "database w' = db'" "val \<in> range (draws env)"
    "sessions w' = (released (req env) (sessions w))(val \<mapsto> \<lparr>sessionLevel = authLevel_cast perm, userID = uid\<rparr>)"
    "reply w' = reply w @ cs @ [WriteHeader ''Set-Cookie'' (authCookie @ ''='' @ to_string val)]"
    by blast
  moreover have "authenticate env b q w = (Inr (), w'\<lparr>reply := reply w' @ [End []]\<rparr>)" (is "_ = (_, ?w)")
    using c assms(2,4) w'(1) by (simp add: authenticate_def bind_Inr emit_run del: containsAll.simps)
  ultimately show ?thesis
    by (intro exI [of _ ?w] exI [of _ cs] exI [of _ val]) (simp add: authCookie_def)
qed

lemma session_recognised:
  assumes "val < 2 ^ 64" "sessions w val = Some s" "getHeader rq ''cookie'' = ''auth='' @ to_string val"
  shows "getSessionUser rq w = Some (userID s)" "verify rq l w \<longleftrightarrow> l \<le> sessionLevel s"
  using getSessionID_auth [OF assms(1,3)] assms(2) by (simp_all add: getSessionUser_def verify_def)

section \<open>Properties\<close>

text \<open>C12. Logging in and being recognised. If the form has a user name and a password, the login query
  returns one row with a readable user number and permission number, and one of the session numbers
  drawn is free, then the route succeeds and sends a cookie; and every later request that carries
  this cookie is recognised as that user, with exactly the permission levels up to the level of the
  row. Session numbers are drawn below \<open>2 ^ 64\<close>, as \<^verbatim>\<open>std::uniform_int_distribution<size_t>\<close> does.\<close>

theorem login_roundtrip:
  assumes "b ''username'' = Some u" "u \<noteq> []" and "b ''password'' = Some p" "p \<noteq> []"
    and "loginQuery env u p (database w) = (Inr res, db')" and "loginRow res uid perm"
    and "released (req env) (sessions w) (draws env k) = None" and "\<And>i. draws env i < 2 ^ 64"
  shows "\<exists>w' cs val. authenticate env b q w = (Inr (), w') \<and> database w' = db' \<and>
    reply w' = reply w @ cs @ [WriteHeader ''Set-Cookie'' (''auth='' @ to_string val), End []] \<and>
    (\<forall>rq l. getHeader rq ''cookie'' = ''auth='' @ to_string val \<longrightarrow>
       getSessionUser rq w' = Some uid \<and> (verify rq l w' \<longleftrightarrow> l \<le> authLevel_cast perm))"
proof -
  obtain w' cs val where w': "authenticate env b q w = (Inr (), w')" "database w' = db'" "val \<in> range (draws env)"
    "reply w' = reply w @ cs @ [WriteHeader ''Set-Cookie'' (''auth='' @ to_string val), End []]"
    "sessions w' val = Some \<lparr>sessionLevel = authLevel_cast perm, userID = uid\<rparr>"
    using authenticate_granted [OF assms(1-7)] by blast
  have "val < 2 ^ 64" using w'(3) assms(8) by auto
  from session_recognised [OF this w'(5)] w' show ?thesis
    by (intro exI [of _ w'] exI [of _ cs] exI [of _ val]) simp
qed

theorem login_roundtrip_witness:
  "\<exists>w' cs val. authenticate (sample_env (\<lambda>_. [[''5'', ''2'']]) []) [''username'' \<mapsto> ''bob'', ''password'' \<mapsto> ''x''] Map.empty
      (sample_server [0 \<mapsto> \<lparr>sessionLevel = client, userID = 9\<rparr>]) = (Inr (), w') \<and> database w' = [] \<and>
    reply w' = reply (sample_server [0 \<mapsto> \<lparr>sessionLevel = client, userID = 9\<rparr>]) @ cs @
      [WriteHeader ''Set-Cookie'' (''auth='' @ to_string val), End []] \<and>
    (\<forall>rq l. getHeader rq ''cookie'' = ''auth='' @ to_string val \<longrightarrow>
       getSessionUser rq w' = Some 5 \<and> (verify rq l w' \<longleftrightarrow> l \<le> authLevel_cast 2))"
proof (rule login_roundtrip [where k = 1])
  show "loginQuery (sample_env (\<lambda>_. [[''5'', ''2'']]) []) ''bob'' ''x''
      (database (sample_server [0 \<mapsto> \<lparr>sessionLevel = client, userID = 9\<rparr>]))
    = (Inr (\<lparr>errorCode = SQLITE_OK\<rparr>, \<lparr>colCount = 2, cells = [''5'', ''2''],
        colNames = [''COLUMN'', ''COLUMN'']\<rparr>), [])"
    by (simp add: loginQuery_def query_scripted script_width_def isSelect_def)
  show "loginRow (\<lparr>errorCode = SQLITE_OK\<rparr>, \<lparr>colCount = 2, cells = [''5'', ''2''],
        colNames = [''COLUMN'', ''COLUMN'']\<rparr>) 5 2"
    by (simp add: loginRow_def isOK_def rowCount_def cell_def from_chars_def num_val_def digit_val_def is_digit_def)
  show "released (req (sample_env (\<lambda>_. [[''5'', ''2'']]) []))
      (sessions (sample_server [0 \<mapsto> \<lparr>sessionLevel = client, userID = 9\<rparr>])) (draws (sample_env (\<lambda>_. [[''5'', ''2'']]) []) 1) = None"
    by (simp add: released_def getSessionID_no_cookie)
qed simp_all

text \<open>Asking for a session. Without a session number in the request the answer is the status 401;
  with the number of a session of the table it is the level of that session; and with a number that
  is not in the table (a session that was released, or that a restart has forgotten) the status 200
  is written and the call then throws, so that the request is never answered.\<close>

theorem checkSession_spec:
  "checkSession env w = (case getSessionID (req env) of
     None \<Rightarrow> (Inr (), w\<lparr>reply := reply w @ [WriteStatus UNAUTHORISED, End []]\<rparr>)
   | Some n \<Rightarrow> (case sessions w n of
       None \<Rightarrow> (Inl Bad_optional_access, w\<lparr>reply := reply w @ [WriteStatus OK]\<rparr>)
     | Some s \<Rightarrow> (Inr (), w\<lparr>reply := reply w @ [WriteStatus OK,
         End (''{Permissions:'' @ int_to_string (level (sessionLevel s)) @ ''}'')]\<rparr>)))"
  by (simp add: checkSession_def hasSession_def release_def getSessionAuthLevel_def valueOf_def addString_def
      genericAdd_def emptyResponse_def toDataString_def toData_compact emit_run del: toData.simps split: option.split)

end
