(* ===== verification/UserRoutes.thy ===== *)
theory UserRoutes
  imports AuthRoutes "HOL-Library.Multiset"
begin

text \<open>
  The routes for user accounts (\<^verbatim>\<open>Server/include/WebRoutes/User.h\<close>): create, read one's own data,
  search, select, delete and update. Three of them check a permission level that is itself read
  from the form or from the database.
\<close>

section \<open>The routes\<close>

text \<open>The statements of the routes that change accounts and of the one that reads one's own data.\<close>

definition addUserSQL :: string where
  "addUserSQL = ''INSERT INTO '' @ tableNames USER @
     '' (ID, USERNAME, PASSWORD, PERMISSIONS) VALUES (NULL, :USR, :PAS, :PER);''"

definition ownAccountSQL :: string where
  "ownAccountSQL = ''SELECT ID, USERNAME, PERMISSIONS FROM '' @ tableNames USER @ '' WHERE ID = :USR''"

definition ownVehiclesSQL :: string where
  "ownVehiclesSQL = ''SELECT V.ID, V.PLATE, VS.MAKE, VS.MODEL, V.YEAR, V.COLOUR FROM '' @ tableNames VEHICLES @
     '' AS V INNER JOIN '' @ tableNames VEHICLESHARED @ '' AS VS ON V.BASE = VS.ID WHERE V.OWNER = :USR;''"

definition permissionSQL :: string where
  "permissionSQL = ''SELECT PERMISSIONS FROM '' @ tableNames USER @ '' WHERE ID = :ID''"

definition dropUserSQL :: string where
  "dropUserSQL = ''DELETE FROM '' @ tableNames USER @ '' WHERE ID = :ID''"

definition changeUserSQL :: "string \<Rightarrow> string" where
  "changeUserSQL updateStatement = ''UPDATE '' @ tableNames USER @ '' SET '' @ updateStatement @ '' WHERE ID = :ID''"

lemmas user_texts = addUserSQL_def ownAccountSQL_def ownVehiclesSQL_def permissionSQL_def dropUserSQL_def changeUserSQL_def

definition createUser :: "('db, 'st) handler" where
  "createUser env b q =
     bind (liftE (if \<not> containsAll b [''username'', ''password'', ''permission''] False then Inr True
                  else anyEmpty b [''username'', ''password'', ''permission''])) (\<lambda>bad.
     if bad then respond BADREQUEST
     else bind (liftE (getElement b ''permission'')) (\<lambda>str.
     case from_chars 32 str of
       None \<Rightarrow> respond BADREQUEST
     | Some requestedPermLevel \<Rightarrow>
         bind (gets (verify (req env) employee)) (\<lambda>isEmployee.
         bind (gets (verify (req env) (authLevel_cast requestedPermLevel))) (\<lambda>reaches.
         if \<not> isEmployee \<or> \<not> reaches then respond FORBIDDEN
         else
           bind (dbCall env addUserSQL
             [('':USR'', getElement b ''username''), ('':PAS'', getElement b ''password''),
              ('':PER'', getElement b ''permission'')]) (\<lambda>(status, result).
           finish status (bind (liftE (getElement b ''username'')) (\<lambda>u.
             coutSession env (quoted '') created new user ('' u))))))))"

definition vehicleColumns :: "(string \<times> nat) list" where
  "vehicleColumns = [(''ID'', 0), (''Plate'', 1), (''Make'', 2), (''Model'', 3), (''Year'', 4), (''Colour'', 5)]"

definition getLocalUserData :: "('db, 'st) handler" where
  "getLocalUserData env b q =
     bind (gets (getSessionUser (req env))) (\<lambda>user.
     case user of
       None \<Rightarrow> respond UNAUTHORISED
     | Some user \<Rightarrow>
         bind (dbCall env ownAccountSQL
           [('':USR'', Inr (to_string user))]) (\<lambda>(userStatus, userResult).
         if \<not> isOK userStatus then respond INTERNALERROR
         else
         bind (dbCall env ownVehiclesSQL
           [('':USR'', Inr (to_string user))]) (\<lambda>(vehStatus, vehResult).
         if \<not> isOK vehStatus then respond INTERNALERROR
         else
         bind (liftE (addCells userResult 0 [(''ID'', 0), (''Username'', 1), (''Permissions'', 2)] emptyResponse)) (\<lambda>response.
         bind (liftE (addRows vehResult vehicleColumns ''Vehicles'' True response)) (\<lambda>response.
         bind (liftE (cell userResult 0 1)) (\<lambda>name.
         seq (coutSession env (quoted '') accessed user data for ('' name))
             (sendResponse response)))))))"

definition searchUsers :: "('db, 'st) handler" where
  "searchUsers env b q =
     (if \<not> hasElement q ''username'' True then respond BADREQUEST
      else bind (gets (verify (req env) employee)) (\<lambda>ok.
      if \<not> ok then respond FORBIDDEN
      else bind (liftE (getElement q ''username'')) (\<lambda>name.
      seq (coutSession env (quoted '') searched for user ('' name))
     (bind (dbCall env (''SELECT ID, USERNAME, PERMISSIONS FROM '' @ tableNames USER @
             '' WHERE USERNAME LIKE :USR ORDER BY USERNAME'')
        [('':USR'', Inr (generateLIKEArgument name))]) (\<lambda>(status, result).
      if \<not> isOK status then respond INTERNALERROR
      else bind (liftE (rowCount result)) (\<lambda>n.
      if n \<noteq> 0 then
        forEach [0..<n] emptyResponse (\<lambda>i response next_row.
          bind (dbCall env ''SELECT V.PLATE, VS.MAKE, VS.MODEL, V.YEAR, V.COLOUR FROM VEHICLES AS V INNER JOIN VEHICLESHAREDDATA AS VS ON V.BASE = VS.ID WHERE V.OWNER = :USR;''
            [('':USR'', cell result i 0)]) (\<lambda>(vehStatus, vehResult).
          if \<not> isOK vehStatus then respond INTERNALERROR
          else
          bind (liftE (addCells result i [(''ID'', 0), (''Username'', 1), (''Permissions'', 2)] emptyResponse)) (\<lambda>temp.
          bind (liftE (addRows vehResult
              [(''Vehicle plate'', 0), (''Vehicle Make'', 1), (''Vehicle Model'', 2), (''Vehicle Year'', 3), (''Vehicle Colour'', 4)]
              ''Vehicles'' True temp)) (\<lambda>temp.
          bind (liftE (addObject response ''Users'' temp False)) next_row))))
        sendResponse
      else respond NOTFOUND))))))"

definition selectUser :: "('db, 'st) handler" where
  "selectUser env b q =
     (if \<not> hasElement q ''ID'' False then respond BADREQUEST
      else bind (gets (verify (req env) employee)) (\<lambda>ok.
      if \<not> ok then respond FORBIDDEN
      else bind (liftE (getElement q ''ID'')) (\<lambda>ID.
      seq (coutSession env (quoted '') selected user ('' ID))
     (bind (dbCall env (''SELECT ID, USERNAME, PERMISSIONS FROM '' @ tableNames USER @ '' WHERE ID = :ID'')
        [('':ID'', getElement q ''ID'')]) (\<lambda>(status, result).
      if \<not> isOK status then respond INTERNALERROR
      else bind (liftE (rowCount result)) (\<lambda>n.
      if n \<noteq> 0 then
        bind (dbCall env ''SELECT V.ID, V.PLATE, VS.MAKE, VS.MODEL, V.YEAR, V.COLOUR FROM VEHICLES AS V INNER JOIN VEHICLESHAREDDATA AS VS ON V.BASE = VS.ID WHERE V.OWNER = :USR;''
          [('':USR'', cell result 0 0)]) (\<lambda>(vehStatus, vehResult).
        if \<not> isOK vehStatus then respond INTERNALERROR
        else
        bind (liftE (addCells result 0 [(''ID'', 0), (''Username'', 1), (''Permissions'', 2)] emptyResponse)) (\<lambda>response.
        bind (liftE (addRows vehResult vehicleColumns ''Vehicles'' True response))
        sendResponse))
      else respond NOTFOUND))))))"

text \<open>\<^verbatim>\<open>deleteUser\<close> and \<^verbatim>\<open>updateUser\<close> first read the permissions of the user they act on.\<close>

definition deleteUser :: "('db, 'st) handler" where
  "deleteUser env b q =
     (if \<not> hasElement b ''ID'' False then respond BADREQUEST
      else bind (gets (verify (req env) employee)) (\<lambda>ok.
      if \<not> ok then respond FORBIDDEN
      else
      bind (dbCall env permissionSQL
        [('':ID'', getElement b ''ID'')]) (\<lambda>(pstatus, presult).
      if \<not> isOK pstatus then respond INTERNALERROR
      else bind (liftE (rowCount presult)) (\<lambda>n.
      if n = 0 then respond OK
      else bind (liftE (cell presult 0 0)) (\<lambda>permText.
      case from_chars 32 permText of
        None \<Rightarrow> respond INTERNALERROR
      | Some deletedPermissions \<Rightarrow>
          bind (gets (verify (req env) (authLevel_cast deletedPermissions))) (\<lambda>reaches.
          if \<not> reaches then respond FORBIDDEN
          else
          bind (dbCall env dropUserSQL
            [('':ID'', getElement b ''ID'')]) (\<lambda>(status, result).
          if \<not> isOK status then respond INTERNALERROR
          else bind (liftE (getElement b ''ID'')) (\<lambda>ID.
            seq (coutSession env (quoted '') deleted user ('' ID))
                (emit (End []))))))))))"

definition updateUser :: "('db, 'st) handler" where
  "updateUser env b q =
     (let apply_update =
        bind (dbCall env permissionSQL
          [('':ID'', getElement b ''ID'')]) (\<lambda>(pstatus, presult).
        if \<not> isOK pstatus then respond INTERNALERROR
        else bind (liftE (rowCount presult)) (\<lambda>n.
        if n = 0 then respond BADREQUEST
        else bind (liftE (cell presult 0 0)) (\<lambda>permText.
        case from_chars 32 permText of
          None \<Rightarrow> respond INTERNALERROR
        | Some modifiedPermissions \<Rightarrow>
            bind (gets (verify (req env) (authLevel_cast modifiedPermissions))) (\<lambda>reaches.
            if \<not> reaches then respond FORBIDDEN
            else
            bind (liftE (generateUpdateStatement b (iterRel env
              [(''username'', ''USERNAME''), (''password'', ''PASSWORD''), (''permissions'', ''PERMISSIONS'')]))) (\<lambda>updateStatement.
            if updateStatement = [] then respond OK
            else
            bind (dbCall env (changeUserSQL updateStatement)
              [('':ID'', getElement b ''ID'')]) (\<lambda>(status, result).
            seq (if \<not> isOK status then emit (WriteStatus INTERNALERROR) else returnP ())
           (bind (liftE (getElement b ''ID'')) (\<lambda>ID.
            seq (coutSession env (quoted '') updated user ('' ID))
                (emit (End []))))))))))
      in
      if \<not> hasElement b ''ID'' False then respond BADREQUEST
      else bind (gets (verify (req env) employee)) (\<lambda>ok.
      if \<not> ok then respond FORBIDDEN
      else if hasElement b ''permission'' False then
        bind (liftE (getElement b ''permission'')) (\<lambda>str.
        case from_chars 32 str of
          None \<Rightarrow> respond BADREQUEST
        | Some requestedPermLevel \<Rightarrow>
            bind (gets (verify (req env) (authLevel_cast requestedPermLevel))) (\<lambda>reaches.
            if \<not> reaches then respond FORBIDDEN else apply_update))
      else apply_update))"

section \<open>Handlers of the interface\<close>

interpretation createUser: session_preserving createUser
  by unfold_locales (auto simp: createUser_def intro!: answering frame)

interpretation getLocalUserData: session_preserving getLocalUserData
  by unfold_locales (auto simp: getLocalUserData_def intro!: answering frame)

interpretation searchUsers: session_preserving searchUsers
  by unfold_locales (auto simp: searchUsers_def intro!: answering frame)

interpretation selectUser: session_preserving selectUser
  by unfold_locales (auto simp: selectUser_def intro!: answering frame)

interpretation deleteUser: session_preserving deleteUser
  by unfold_locales (auto simp: deleteUser_def intro!: answering frame)

interpretation updateUser: session_preserving updateUser
  by unfold_locales (auto simp: updateUser_def Let_def intro!: answering frame)

section \<open>Permission levels of accounts\<close>

lemma hasElement_iff: "hasElement b n False \<longleftrightarrow> (\<exists>v. b n = Some v \<and> v \<noteq> [])"
  by (auto simp: hasElement_def split: option.splits)

lemma assignments_one:
  assumes "distinct rel" "(n, col) \<in> set rel" "b n = Some v" "v \<noteq> []"
    and "\<And>m c. (m, c) \<in> set rel \<Longrightarrow> (m, c) \<noteq> (n, col) \<Longrightarrow> b m = None"
  shows "assignments b rel = [(col, v)]"
proof -
  obtain xs ys where rel: "rel = xs @ (n, col) # ys" using assms(2) by (meson split_list)
  have "assignments b zs = []" if "set zs \<subseteq> set rel" "(n, col) \<notin> set zs" for zs
    unfolding assignments_def concat_eq_Nil_conv using that assms(5) by fastforce
  then have "assignments b xs = []" "assignments b ys = []" using rel assms(1) by auto
  moreover have "assignments b (xs @ zs) = assignments b xs @ assignments b zs" for zs
    by (simp add: assignments_def)
  ultimately show ?thesis using assms(3,4) rel by (simp add: assignments_Cons)
qed

section \<open>Properties\<close>

text \<open>Nobody creates an account above the own level. A call of the route changes the database only if
  the form asks for a readable permission number and the session of the request reaches both the
  level of an employee and the level asked for.\<close>

theorem createUser_bounded:
  assumes "database (snd (createUser env b q w)) \<noteq> database w"
  shows "\<exists>str n. b ''permission'' = Some str \<and> from_chars 32 str = Some n \<and>
    verify (req env) employee w \<and> verify (req env) (authLevel_cast n) w"
  using assms
  by (auto simp: createUser_def running getElement_def respond_run simp del: containsAll.simps anyEmpty.simps
      split: if_splits sum.splits option.splits)

theorem createUser_bounded_witness:
  "\<exists>str n. [''username'' \<mapsto> ''bob'', ''password'' \<mapsto> ''x'', ''permission'' \<mapsto> ''1''] ''permission'' = Some str \<and>
    from_chars 32 str = Some n \<and> verify (req (staff_env (\<lambda>_. []))) employee (staff_server manager) \<and>
    verify (req (staff_env (\<lambda>_. []))) (authLevel_cast n) (staff_server manager)"
proof -
  have "database (snd (createUser (staff_env (\<lambda>_. []))
      [''username'' \<mapsto> ''bob'', ''password'' \<mapsto> ''x'', ''permission'' \<mapsto> ''1''] Map.empty (staff_server manager)))
    \<noteq> database (staff_server manager)"
    by (simp add: createUser_def running getElement_def hasElement_def sample_numbers level_defs query_scripted
        script_width_def isSelect_def user_texts finish_def seq_Inr coutSession_run staff_facts isOK_def emit_run del: append.simps)
  from createUser_bounded [OF this] show ?thesis .
qed

text \<open>C35. An employee can raise permissions. The update route checks the element \<^verbatim>\<open>permission\<close> of the form
  but assigns the element \<^verbatim>\<open>permissions\<close>: for an account whose level the session reaches, the
  statement that sets the permissions to any text \<open>v\<close> is executed, whatever level \<open>v\<close> stands for.
  The iteration order of the map of columns is any order of its three entries.\<close>

theorem permission_escalation:
  assumes "i \<noteq> []" and "v \<noteq> []" and "verify (req env) employee w"
    and "query (api env) permissionSQL (iter env [('':ID'', i)]) (database w) = (Inr (c1, res), db1)"
    and "isOK c1" and "rowCount res = Inr (Suc k)" and "cell res 0 0 = Inr t" and "from_chars 32 t = Some n"
    and "verify (req env) (authLevel_cast n) w"
    and "mset (iterRel env [(''username'', ''USERNAME''), (''password'', ''PASSWORD''), (''permissions'', ''PERMISSIONS'')])
      = mset [(''username'', ''USERNAME''), (''password'', ''PASSWORD''), (''permissions'', ''PERMISSIONS'')]"
    and "query (api env) (''UPDATE USERS SET PERMISSIONS = '' @ [QUOTE] @ v @ [QUOTE] @ '' WHERE ID = :ID'')
      (iter env [('':ID'', i)]) db1 = (Inr (c2, res2), db2)"
  shows "\<exists>w'. updateUser env [''ID'' \<mapsto> i, ''permissions'' \<mapsto> v] q w = (Inr (), w') \<and> database w' = db2"
proof -
  let ?b = "[''ID'' \<mapsto> i, ''permissions'' \<mapsto> v]"
  let ?rel = "iterRel env [(''username'', ''USERNAME''), (''password'', ''PASSWORD''), (''permissions'', ''PERMISSIONS'')]"
  obtain m where m: "getSessionID (req env) = Some m"
    using verify_hasSession [OF assms(3)] by blast
  have "set ?rel = set [(''username'', ''USERNAME''), (''password'', ''PASSWORD''), (''permissions'', ''PERMISSIONS'')]"
    using assms(10) by (rule mset_eq_setD)
  moreover have "distinct ?rel"
    using mset_eq_imp_distinct_iff [OF assms(10)] by simp
  ultimately have "assignments ?b ?rel = [(''PERMISSIONS'', v)]"
    using assms(2) by (intro assignments_one [where n = "''permissions''"]) auto
  then have upd: "generateUpdateStatement ?b ?rel = Inr (''PERMISSIONS = '' @ [QUOTE] @ v @ [QUOTE])"
    by (simp add: generateUpdateStatement_eq assignment_text_def)
  have vdb: "verify rq l (w\<lparr>database := d\<rparr>) = verify rq l w" for rq l d
    by (rule verify_sessions_cong) simp
  show ?thesis
    using assms(1-9,11) upd
    by (cases "isOK c2") (simp_all add: updateUser_def changeUserSQL_def Let_def running hasElement_def getElement_def vdb seq_coutSession [OF m] emit_run)
qed

theorem permission_escalation_witness:
  "\<exists>w'. updateUser (staff_env (\<lambda>_. [[''1'']])) [''ID'' \<mapsto> ''3'', ''permissions'' \<mapsto> ''9''] Map.empty (staff_server employee)
      = (Inr (), w') \<and>
    database w' = [(''UPDATE USERS SET PERMISSIONS = '' @ [QUOTE] @ ''9'' @ [QUOTE] @ '' WHERE ID = :ID'', [''3''])]"
proof (rule permission_escalation)
  show "query (api (staff_env (\<lambda>_. [[''1'']]))) permissionSQL (iter (staff_env (\<lambda>_. [[''1'']])) [('':ID'', ''3'')])
      (database (staff_server employee))
    = (Inr (\<lparr>errorCode = SQLITE_OK\<rparr>, \<lparr>colCount = 1, cells = [''1''], colNames = [''COLUMN'']\<rparr>), [])"
    by (simp add: query_scripted script_width_def isSelect_def user_texts)
  show "query (api (staff_env (\<lambda>_. [[''1'']])))
      (''UPDATE USERS SET PERMISSIONS = '' @ [QUOTE] @ ''9'' @ [QUOTE] @ '' WHERE ID = :ID'')
      (iter (staff_env (\<lambda>_. [[''1'']])) [('':ID'', ''3'')]) []
    = (Inr (\<lparr>errorCode = SQLITE_OK\<rparr>, \<lparr>colCount = 1, cells = [''1''], colNames = [''COLUMN'']\<rparr>),
       [(''UPDATE USERS SET PERMISSIONS = '' @ [QUOTE] @ ''9'' @ [QUOTE] @ '' WHERE ID = :ID'', [''3''])])"
    by (simp add: query_scripted script_width_def isSelect_def user_texts)
  show "rowCount \<lparr>colCount = 1, cells = [''1''], colNames = [''COLUMN'']\<rparr> = Inr (Suc 0)" by (simp add: rowCount_def)
  show "cell \<lparr>colCount = 1, cells = [''1''], colNames = [''COLUMN'']\<rparr> 0 0 = Inr ''1''" by (simp add: cell_def)
  show "from_chars 32 ''1'' = Some 1" by (simp add: sample_numbers)
  show "verify (req (staff_env (\<lambda>_. [[''1'']]))) (authLevel_cast 1) (staff_server employee)"
    by (simp add: staff_facts authLevel_cast_def level_defs del: append.simps)
  show "verify (req (staff_env (\<lambda>_. [[''1'']]))) employee (staff_server employee)"
    by (simp add: staff_facts del: append.simps)
qed (simp_all add: isOK_def)

end
