(* ===== verification/VehicleRoutes.thy ===== *)
theory VehicleRoutes
  imports UserRoutes
begin

text \<open>
  The routes for vehicles (\<^verbatim>\<open>Server/include/WebRoutes/Vehicle.h\<close>). A vehicle may be handled by its
  owner and by managers; all routes but the first look the owner up in the database.
\<close>

section \<open>The routes\<close>

definition addModelSQL :: string where
  "addModelSQL = ''INSERT OR IGNORE INTO '' @ tableNames VEHICLESHARED @ ''(MAKE, MODEL) VALUES (:MAK, :MOD)''"

definition addVehicleSQL :: string where
  "addVehicleSQL = ''INSERT INTO '' @ tableNames VEHICLES @ '' (PLATE, BASE, OWNER, YEAR, COLOUR) VALUES (:PLT, '' @
     ''(SELECT ID FROM '' @ tableNames VEHICLESHARED @ '' WHERE MAKE = :MAK AND MODEL = :MOD), :OWN, :YEA, :COL);''"

text \<open>The query by which the routes find the owner.\<close>

definition ownerSQL :: string where
  "ownerSQL = ''SELECT OWNER FROM '' @ tableNames VEHICLES @ '' WHERE ID = :ID''"

definition changeVehicleSQL :: "string \<Rightarrow> string" where
  "changeVehicleSQL updateStatement = ''UPDATE '' @ tableNames VEHICLES @ '' SET '' @ updateStatement @ '' WHERE ID = :ID''"

definition dropVehicleSQL :: string where
  "dropVehicleSQL = ''DELETE FROM '' @ tableNames VEHICLES @ '' WHERE ID = :ID''"

definition vehicleByIDSQL :: string where
  "vehicleByIDSQL = ''SELECT V.ID, V.PLATE, VS.MAKE, VS.MODEL, V.YEAR, V.COLOUR FROM VEHICLES AS V INNER JOIN VEHICLESHAREDDATA AS VS ON V.BASE = VS.ID WHERE V.ID = :ID;''"

lemmas vehicle_texts = addModelSQL_def addVehicleSQL_def ownerSQL_def changeVehicleSQL_def dropVehicleSQL_def vehicleByIDSQL_def

definition createVehicle :: "('db, 'st) handler" where
  "createVehicle env b q =
     (if \<not> containsAll b [''plate'', ''make'', ''model'', ''owner'', ''year'', ''colour''] False then respond BADREQUEST
      else
      bind (gets (verify (req env) manager)) (\<lambda>isManager.
      bind (liftE (getElement b ''owner'')) (\<lambda>owner.
      bind (gets (isSessionUser (req env) owner)) (\<lambda>isOwner.
      if \<not> isManager \<and> \<not> isOwner then respond FORBIDDEN
      else
      bind (dbCall env addModelSQL
        [('':MAK'', getElement b ''make''), ('':MOD'', getElement b ''model'')]) (\<lambda>(vStatus, vResult).
      if \<not> isOK vStatus then respond INTERNALERROR
      else
      bind (dbCall env addVehicleSQL
        [('':PLT'', getElement b ''plate''), ('':MAK'', getElement b ''make''), ('':MOD'', getElement b ''model''),
         ('':OWN'', getElement b ''owner''), ('':YEA'', getElement b ''year''), ('':COL'', getElement b ''colour'')])
        (\<lambda>(status, result).
      finish status (coutSession env (quoted '') added new vehicle for ('' owner))))))))"

text \<open>The block that reads the owner; the result is used whether or not the query succeeded.\<close>

definition vehicleOwner ::
  "('db, 'st) env \<Rightarrow> queryBase \<Rightarrow> (string \<Rightarrow> ('db server, unit) prog) \<Rightarrow> ('db server, unit) prog" where
  "vehicleOwner env form k =
     bind (dbCall env ownerSQL
       [('':ID'', getElement form ''ID'')]) (\<lambda>(status, result).
     bind (liftE (cell result 0 0)) k)"

definition updateVehicle :: "('db, 'st) handler" where
  "updateVehicle env b q =
     (if \<not> hasElement b ''ID'' False then respond BADREQUEST
      else
      vehicleOwner env b (\<lambda>owner.
      bind (gets (isSessionUserFromID (req env) owner)) (\<lambda>isOwner.
      bind (gets (verify (req env) manager)) (\<lambda>isManager.
      if \<not> isOwner \<and> \<not> isManager then respond FORBIDDEN
      else
      bind (liftE (generateUpdateStatement b (iterRel env [(''plate'', ''PLATE''), (''colour'', ''COLOUR'')]))) (\<lambda>updateStatement.
      if updateStatement = [] then respond OK
      else
      bind (dbCall env (changeVehicleSQL updateStatement)
        [('':ID'', getElement b ''ID'')]) (\<lambda>(status, result).
      seq (if \<not> isOK status then emit (WriteStatus INTERNALERROR) else returnP ())
     (bind (liftE (getElement b ''ID'')) (\<lambda>ID.
      seq (coutSession env (quoted '') updated vehicle ('' ID))
          (emit (End []))))))))))"

definition deleteVehicle :: "('db, 'st) handler" where
  "deleteVehicle env b q =
     (if \<not> hasElement b ''ID'' False then respond BADREQUEST
      else
      vehicleOwner env b (\<lambda>owner.
      bind (gets (isSessionUserFromID (req env) owner)) (\<lambda>isOwner.
      bind (gets (verify (req env) manager)) (\<lambda>isManager.
      if \<not> isOwner \<and> \<not> isManager then respond FORBIDDEN
      else
      bind (dbCall env dropVehicleSQL
        [('':ID'', getElement b ''ID'')]) (\<lambda>(status, result).
      if \<not> isOK status then respond INTERNALERROR
      else bind (liftE (getElement b ''ID'')) (\<lambda>ID.
      seq (coutSession env (quoted '') deleted vehicle ('' ID))
          (emit (End []))))))))"

definition selectVehicle :: "('db, 'st) handler" where
  "selectVehicle env b q =
     (if \<not> hasElement q ''ID'' False then respond BADREQUEST
      else
      vehicleOwner env q (\<lambda>owner.
      bind (gets (isSessionUser (req env) owner)) (\<lambda>isOwner.
      bind (gets (verify (req env) manager)) (\<lambda>isManager.
      if \<not> isOwner \<and> \<not> isManager then respond FORBIDDEN
      else
      bind (dbCall env vehicleByIDSQL
        [('':ID'', getElement q ''ID'')]) (\<lambda>(vehStatus, vehResult).
      if \<not> isOK vehStatus then respond INTERNALERROR
      else bind (liftE (rowCount vehResult)) (\<lambda>n.
      if n \<noteq> 0 then
        bind (liftE (addCells vehResult 0 vehicleColumns emptyResponse)) (\<lambda>response.
        bind (liftE (getElement q ''ID'')) (\<lambda>ID.
        bind (liftE (addString response ''Owner'' ID False))
        sendResponse))
      else respond NOTFOUND))))))"

section \<open>Handlers of the interface\<close>

interpretation createVehicle: session_preserving createVehicle
  by unfold_locales (auto simp: createVehicle_def intro!: answering frame)

interpretation updateVehicle: session_preserving updateVehicle
  by unfold_locales (auto simp: updateVehicle_def vehicleOwner_def intro!: answering frame)

interpretation deleteVehicle: session_preserving deleteVehicle
  by unfold_locales (auto simp: deleteVehicle_def vehicleOwner_def intro!: answering frame)

interpretation selectVehicle: session_preserving selectVehicle
  by unfold_locales (auto simp: selectVehicle_def vehicleOwner_def intro!: answering frame)

section \<open>Properties\<close>

text \<open>Vehicles are changed by their owners and by managers. If a call of the update or of the delete
  route changes the database, then the session of the request has the level of a manager, or its user
  is the owner that the database holds for the vehicle named in the form.\<close>

theorem vehicle_changed_by_owner:
  assumes "select_readonly (api env)" and "b ''ID'' = Some i"
    and "query (api env) ownerSQL (iter env [('':ID'', i)]) (database w) = (Inr (c, res), db1)"
    and "database (snd (updateVehicle env b q w)) \<noteq> database w \<or> database (snd (deleteVehicle env b q w)) \<noteq> database w"
  shows "\<exists>owner. cell res 0 0 = Inr owner \<and>
    (verify (req env) manager w \<or> (\<exists>u. getSessionUser (req env) w = Some u \<and> from_chars 64 owner = Some u))"
proof -
  have "snd (query (api env) ownerSQL (iter env [('':ID'', i)]) (database w)) = database w"
    using assms(1) by (simp add: select_readonly_def isSelect_def vehicle_texts)
  with assms(3) have db1: "db1 = database w" by simp
  have iff: "isSessionUserFromID (req env) owner w \<longleftrightarrow>
      (\<exists>u. getSessionUser (req env) w = Some u \<and> from_chars 64 owner = Some u)" for owner
    by (auto simp: isSessionUserFromID_def split: option.splits)
  from assms(4) show ?thesis
  proof
    assume "database (snd (updateVehicle env b q w)) \<noteq> database w"
    then show ?thesis using assms(2,3) db1
      by (auto simp: updateVehicle_def vehicleOwner_def running getElement_def respond_run iff
          split: if_splits sum.splits option.splits)
  next
    assume "database (snd (deleteVehicle env b q w)) \<noteq> database w"
    then show ?thesis using assms(2,3) db1
      by (auto simp: deleteVehicle_def vehicleOwner_def running getElement_def respond_run iff
          split: if_splits sum.splits option.splits)
  qed
qed

theorem vehicle_changed_by_owner_witness:
  "\<exists>owner. cell \<lparr>colCount = 1, cells = [''4''], colNames = [''COLUMN'']\<rparr> 0 0 = Inr owner \<and>
    (verify (req (staff_env (\<lambda>_. [[''4'']]))) manager (staff_server client) \<or>
     (\<exists>u. getSessionUser (req (staff_env (\<lambda>_. [[''4'']]))) (staff_server client) = Some u \<and> from_chars 64 owner = Some u))"
proof (rule vehicle_changed_by_owner [where b = "[''ID'' \<mapsto> ''3'']" and q = Map.empty])
  show "select_readonly (api (staff_env (\<lambda>_. [[''4'']])))"
    by (simp add: scripted_select_readonly script_width_def)
  show "[''ID'' \<mapsto> ''3''] ''ID'' = Some ''3''" by simp
  show "query (api (staff_env (\<lambda>_. [[''4'']]))) ownerSQL (iter (staff_env (\<lambda>_. [[''4'']])) [('':ID'', ''3'')])
      (database (staff_server client))
    = (Inr (\<lparr>errorCode = SQLITE_OK\<rparr>, \<lparr>colCount = 1, cells = [''4''], colNames = [''COLUMN'']\<rparr>), [])"
    by (simp add: query_scripted script_width_def isSelect_def vehicle_texts)
  show "database (snd (updateVehicle (staff_env (\<lambda>_. [[''4'']])) [''ID'' \<mapsto> ''3''] Map.empty (staff_server client)))
      \<noteq> database (staff_server client) \<or>
    database (snd (deleteVehicle (staff_env (\<lambda>_. [[''4'']])) [''ID'' \<mapsto> ''3''] Map.empty (staff_server client)))
      \<noteq> database (staff_server client)"
    by (rule disjI2)
      (simp add: deleteVehicle_def vehicleOwner_def running getElement_def hasElement_def sample_numbers query_scripted
        cell_def script_width_def isSelect_def vehicle_texts isSessionUserFromID_def staff_facts isOK_def emit_run del: append.simps)
qed

text \<open>A vehicle that does not exist. When the owner query gives no row, the three routes that look
  the owner up read the first cell of an empty result, whose behaviour is undefined; none of them
  tests for this case.\<close>

theorem missing_vehicle_undefined:
  assumes "b ''ID'' = Some i" and "i \<noteq> []"
    and "query (api env) ownerSQL (iter env [('':ID'', i)]) (database w) = (Inr (c, res), db1)" and "rowCount res = Inr 0"
  shows "fst (updateVehicle env b q w) = Inl Undefined_behaviour \<and>
    fst (deleteVehicle env b q w) = Inl Undefined_behaviour \<and> fst (selectVehicle env q' b w) = Inl Undefined_behaviour"
  using assms sqlite.beyond_rows [OF assms(3,4) le_refl, of 0]
  by (simp add: updateVehicle_def deleteVehicle_def selectVehicle_def vehicleOwner_def running hasElement_def getElement_def)

theorem missing_vehicle_undefined_witness:
  "fst (updateVehicle (staff_env (\<lambda>_. [])) [''ID'' \<mapsto> ''3''] Map.empty (staff_server manager)) = Inl Undefined_behaviour \<and>
    fst (deleteVehicle (staff_env (\<lambda>_. [])) [''ID'' \<mapsto> ''3''] Map.empty (staff_server manager)) = Inl Undefined_behaviour \<and>
    fst (selectVehicle (staff_env (\<lambda>_. [])) Map.empty [''ID'' \<mapsto> ''3''] (staff_server manager)) = Inl Undefined_behaviour"
proof (rule missing_vehicle_undefined)
  show "[''ID'' \<mapsto> ''3''] ''ID'' = Some ''3''" by simp
  show "query (api (staff_env (\<lambda>_. []))) ownerSQL (iter (staff_env (\<lambda>_. [])) [('':ID'', ''3'')]) (database (staff_server manager))
    = (Inr (\<lparr>errorCode = SQLITE_OK\<rparr>, \<lparr>colCount = 1, cells = [], colNames = [''COLUMN'']\<rparr>), [])"
    by (simp add: query_scripted script_width_def isSelect_def vehicle_texts)
qed (simp_all add: rowCount_def)

end
