(* ===== verification/PartRoutes.thy ===== *)
theory PartRoutes
  imports VehicleRoutes
begin

text \<open>
  The routes for suppliers, part groups and parts (\<^verbatim>\<open>Server/include/WebRoutes/Parts.h\<close>). Managers
  create and update; employees search and select.
\<close>

section \<open>Suppliers\<close>

text \<open>The statements of the routes for suppliers, groups and parts.\<close>

definition addSupplierSQL :: string where
  "addSupplierSQL = ''INSERT INTO '' @ tableNames SUPPLIERS @ '' (ID, NAME, PHONE, EMAIL) VALUES (NULL, :NAM, :PHO, :EMA);''"

definition changeSupplierSQL :: "string \<Rightarrow> string" where
  "changeSupplierSQL updateStatement = ''UPDATE '' @ tableNames SUPPLIERS @ '' SET '' @ updateStatement @ '' WHERE NAME = :NAM''"

definition findSuppliersSQL :: string where
  "findSuppliersSQL = ''SELECT ID, NAME, PHONE, EMAIL FROM '' @ tableNames SUPPLIERS @
     '' WHERE NAME LIKE :VAL OR NAME LIKE :VAL OR PHONE LIKE :VAL OR EMAIL LIKE :VAL''"

definition supplierByIDSQL :: string where
  "supplierByIDSQL = ''SELECT ID, NAME, PHONE, EMAIL FROM '' @ tableNames SUPPLIERS @ '' WHERE ID = :ID''"

definition addGroupSQL :: string where
  "addGroupSQL = ''INSERT INTO '' @ tableNames PARTGROUPS @ '' (NAME) VALUES (:NAM);''"

definition renameGroupSQL :: string where
  "renameGroupSQL = ''UPDATE '' @ tableNames PARTGROUPS @ '' SET NAME = :RNM WHERE NAME = :NAM''"

definition findGroupsSQL :: string where
  "findGroupsSQL = ''SELECT ID, NAME FROM '' @ tableNames PARTGROUPS @ '' WHERE NAME LIKE :NAM''"

definition groupByIDSQL :: string where
  "groupByIDSQL = ''SELECT ID, NAME FROM '' @ tableNames PARTGROUPS @ '' WHERE ID = :ID''"

definition groupByNameSQL :: string where
  "groupByNameSQL = ''SELECT ID FROM '' @ tableNames PARTGROUPS @ '' WHERE NAME = :GRP''"

definition addPartSQL :: string where
  "addPartSQL = ''INSERT INTO '' @ tableNames PARTS @
     '' (ID, NAME, QUANTITY, SUPPLIER, PRICE, SIMILAR) VALUES (NULL, :NAM, :QUA, :SUP, :PRI, :SIM);''"

definition changePartSQL :: "string \<Rightarrow> string" where
  "changePartSQL updateStatement = ''UPDATE '' @ tableNames PARTS @ '' SET '' @ updateStatement @ '' WHERE ID = :ID''"

definition findPartsSQL :: "string \<Rightarrow> string" where
  "findPartsSQL searchTerm = ''SELECT P.ID, P.NAME, P.PRICE, P.QUANTITY, S.NAME, G.ID FROM '' @ tableNames PARTS @
     '' AS P LEFT JOIN '' @ tableNames PARTGROUPS @ '' AS G ON P.SIMILAR = G.ID '' @
     ''INNER JOIN '' @ tableNames SUPPLIERS @ '' AS S ON P.SUPPLIER = S.ID WHERE '' @ searchTerm"

definition partByIDSQL :: string where
  "partByIDSQL = ''SELECT P.ID, P.NAME, P.PRICE, P.QUANTITY, S.NAME, G.ID FROM '' @ tableNames PARTS @
     '' AS P LEFT JOIN '' @ tableNames PARTGROUPS @ '' AS G INNER JOIN '' @ tableNames SUPPLIERS @ '' AS S WHERE P.ID = :ID''"

lemmas part_texts = addSupplierSQL_def changeSupplierSQL_def findSuppliersSQL_def supplierByIDSQL_def addGroupSQL_def
  renameGroupSQL_def findGroupsSQL_def groupByIDSQL_def groupByNameSQL_def addPartSQL_def changePartSQL_def
  findPartsSQL_def partByIDSQL_def

definition createSupplier :: "('db, 'st) handler" where
  "createSupplier env b q =
     bind (liftE (if \<not> hasElement b ''name'' False then Inr True else anyEmpty b [''name''])) (\<lambda>bad.
     if bad then respond BADREQUEST
     else bind (gets (verify (req env) manager)) (\<lambda>ok.
     if \<not> ok then respond FORBIDDEN
     else
     bind (dbCall env addSupplierSQL
       [('':NAM'', getElement b ''name''), ('':PHO'', elementOr b ''phone'' ''NULL''), ('':EMA'', elementOr b ''email'' ''NULL'')])
       (\<lambda>(status, result).
     finish status (bind (liftE (getElement b ''name'')) (\<lambda>name.
       coutSession env (quoted '') created new supplier ('' name))))))"

definition updateSupplier :: "('db, 'st) handler" where
  "updateSupplier env b q =
     bind (liftE (if \<not> hasElement b ''name'' False then Inr True
                  else if hasElement b ''rename'' False then anyEmpty b [''rename''] else Inr False)) (\<lambda>bad.
     if bad then respond BADREQUEST
     else bind (gets (verify (req env) manager)) (\<lambda>ok.
     if \<not> ok then respond FORBIDDEN
     else
     bind (liftE (generateUpdateStatement b (iterRel env
       [(''rename'', ''NAME''), (''phone'', ''PHONE''), (''email'', ''EMAIL'')]))) (\<lambda>updateStatement.
     if updateStatement = [] then respond OK
     else
     bind (dbCall env (changeSupplierSQL updateStatement)
       [('':NAM'', getElement b ''name'')]) (\<lambda>(status, result).
     finish status (bind (liftE (getElement b ''name'')) (\<lambda>name.
       coutSession env (quoted '') updated supplier ('' name)))))))"

definition supplierColumns :: "(string \<times> nat) list" where
  "supplierColumns = [(''ID'', 0), (''Name'', 1), (''Phone'', 2), (''Email'', 3)]"

definition searchSuppliers :: "('db, 'st) handler" where
  "searchSuppliers env b q =
     (if \<not> hasElement q ''searchterm'' True then respond BADREQUEST
      else bind (gets (verify (req env) employee)) (\<lambda>ok.
      if \<not> ok then respond FORBIDDEN
      else bind (liftE (getElement q ''searchterm'')) (\<lambda>term.
      seq (coutSession env ('') searched for supplier with keyword '' @ [QUOTE] @ term @ [QUOTE] @ ''.\<newline>''))
     (bind (dbCall env findSuppliersSQL
        [('':VAL'', Inr (generateLIKEArgument term))]) (\<lambda>(status, result).
      if \<not> isOK status then respond INTERNALERROR
      else bind (liftE (rowCount result)) (\<lambda>n.
      if n \<noteq> 0 then
        bind (liftE (addRows result supplierColumns ''Suppliers'' False emptyResponse)) sendResponse
      else respond NOTFOUND))))))"

definition selectSupplier :: "('db, 'st) handler" where
  "selectSupplier env b q =
     (if \<not> hasElement q ''ID'' False then respond BADREQUEST
      else bind (gets (verify (req env) employee)) (\<lambda>ok.
      if \<not> ok then respond FORBIDDEN
      else bind (liftE (getElement q ''ID'')) (\<lambda>ID.
      seq (coutSession env (quoted '') selected supplier ('' ID))
     (bind (dbCall env supplierByIDSQL
        [('':ID'', getElement q ''ID'')]) (\<lambda>(status, result).
      if \<not> isOK status then respond INTERNALERROR
      else bind (liftE (rowCount result)) (\<lambda>n.
      if n \<noteq> 0 then bind (liftE (addCells result 0 supplierColumns emptyResponse)) sendResponse
      else respond NOTFOUND))))))"

section \<open>Part groups\<close>

definition createPartGroup :: "('db, 'st) handler" where
  "createPartGroup env b q =
     bind (liftE (if \<not> hasElement b ''name'' False then Inr True else anyEmpty b [''name''])) (\<lambda>bad.
     if bad then respond BADREQUEST
     else bind (gets (verify (req env) manager)) (\<lambda>ok.
     if \<not> ok then respond FORBIDDEN
     else
     bind (dbCall env addGroupSQL
       [('':NAM'', getElement b ''name'')]) (\<lambda>(status, result).
     finish status (bind (liftE (getElement b ''name'')) (\<lambda>name.
       coutSession env (quoted '') created new part group ('' name))))))"

definition updatePartGroup :: "('db, 'st) handler" where
  "updatePartGroup env b q =
     bind (liftE (if \<not> containsAll b [''name'', ''rename''] False then Inr True else anyEmpty b [''rename''])) (\<lambda>bad.
     if bad then respond BADREQUEST
     else bind (gets (verify (req env) manager)) (\<lambda>ok.
     if \<not> ok then respond FORBIDDEN
     else
     bind (dbCall env renameGroupSQL
       [('':NAM'', getElement b ''name''), ('':RNM'', getElement b ''rename'')]) (\<lambda>(status, result).
     finish status
       (bind (liftE (getElement b ''name'')) (\<lambda>name.
        bind (liftE (getElement b ''rename'')) (\<lambda>rename.
          coutSession env ('') updated part group ('' @ [QUOTE] @ name @ [QUOTE] @ ''/'' @ [QUOTE] @ rename @ [QUOTE] @ '').\<newline>'')))))))"

definition groupColumns :: "(string \<times> nat) list" where
  "groupColumns = [(''ID'', 0), (''Name'', 1)]"

definition searchPartGroups :: "('db, 'st) handler" where
  "searchPartGroups env b q =
     (if \<not> hasElement q ''name'' True then respond BADREQUEST
      else bind (gets (verify (req env) employee)) (\<lambda>ok.
      if \<not> ok then respond FORBIDDEN
      else bind (liftE (getElement q ''name'')) (\<lambda>name.
      bind (dbCall env findGroupsSQL
        [('':NAM'', Inr (generateLIKEArgument name))]) (\<lambda>(status, result).
      if \<not> isOK status then respond INTERNALERROR
      else bind (liftE (rowCount result)) (\<lambda>n.
      if n \<noteq> 0 then
        bind (liftE (addRows result groupColumns ''Groups'' True emptyResponse)) (\<lambda>response.
        seq (coutSession env ('') searched part groups for '' @ name @ ''.\<newline>''))
            (sendResponse response))
      else respond NOTFOUND)))))"

definition selectPartGroup :: "('db, 'st) handler" where
  "selectPartGroup env b q =
     (if \<not> hasElement q ''ID'' False then respond BADREQUEST
      else bind (gets (verify (req env) employee)) (\<lambda>ok.
      if \<not> ok then respond FORBIDDEN
      else
      bind (dbCall env groupByIDSQL
        [('':ID'', getElement q ''ID'')]) (\<lambda>(status, result).
      if \<not> isOK status then respond INTERNALERROR
      else bind (liftE (getElement q ''ID'')) (\<lambda>ID.
      seq (coutSession env ('') selected group '' @ ID @ ''.\<newline>''))
     (bind (liftE (rowCount result)) (\<lambda>n.
      if n \<noteq> 0 then
        bind (liftE (addCells result 0 groupColumns emptyResponse)) sendResponse
      else respond NOTFOUND))))))"

section \<open>Parts\<close>

text \<open>\<^verbatim>\<open>groupID\<close> is never assigned: the text \<^verbatim>\<open>NULL\<close> is bound for every part.\<close>

definition createPart :: "('db, 'st) handler" where
  "createPart env b q =
     (let insert =
        bind (dbCall env addPartSQL
          [('':NAM'', getElement b ''name''), ('':QUA'', getElement b ''quantity''), ('':SUP'', getElement b ''supplier''),
           ('':PRI'', getElement b ''price''), ('':SIM'', Inr ''NULL'')]) (\<lambda>(status, result).
        finish status (bind (liftE (getElement b ''name'')) (\<lambda>name.
          coutSession env (quoted '') created new part ('' name))))
      in
      bind (liftE (if \<not> containsAll b [''name'', ''quantity'', ''supplier'', ''price''] False then Inr True
                   else anyEmpty b [''name'', ''quantity'', ''supplier'', ''price''])) (\<lambda>bad.
      if bad then respond BADREQUEST
      else bind (gets (verify (req env) manager)) (\<lambda>ok.
      if \<not> ok then respond FORBIDDEN
      else if hasElement b ''group'' False then
        bind (dbCall env groupByNameSQL
          [('':GRP'', getElement b ''group'')]) (\<lambda>(groupstatus, groupresult).
        if \<not> isOK groupstatus then respond INTERNALERROR
        else bind (liftE (rowCount groupresult)) (\<lambda>n.
        if n \<noteq> 1 then respond INTERNALERROR else insert))
      else insert)))"

definition updatePart :: "('db, 'st) handler" where
  "updatePart env b q =
     bind (liftE (if \<not> hasElement b ''ID'' False then Inr True
                  else if hasElement b ''rename'' False then anyEmpty b [''rename''] else Inr False)) (\<lambda>bad.
     if bad then respond BADREQUEST
     else bind (gets (verify (req env) manager)) (\<lambda>ok.
     if \<not> ok then respond FORBIDDEN
     else
     bind (liftE (generateUpdateStatement b (iterRel env
       [(''name'', ''NAME''), (''quantity'', ''QUANTITY''), (''supplier'', ''SUPPLIER''), (''price'', ''PRICE''),
        (''group'', ''SIMILAR'')]))) (\<lambda>updateStatement.
     if updateStatement = [] then respond OK
     else
     bind (dbCall env (changePartSQL updateStatement)
       [('':ID'', getElement b ''ID'')]) (\<lambda>(status, result).
     finish status (bind (liftE (getElement b ''ID'')) (\<lambda>ID.
       coutSession env (quoted '') updated part ('' ID)))))))"

definition partColumns :: "(string \<times> nat) list" where
  "partColumns = [(''ID'', 0), (''Name'', 1), (''Price'', 2), (''Quantity'', 3), (''Supplier'', 4), (''GroupID'', 5)]"

text \<open>The condition of the search, and the parameters it needs.\<close>

definition searchTerm :: "queryBase \<Rightarrow> string" where
  "searchTerm q =
     (if hasElement q ''name'' True then
        '' P.NAME LIKE :NAM'' @ (if hasElement q ''group'' True then '' AND'' else '''')
      else '''') @
     (if hasElement q ''group'' True then '' G.ID = :ID'' else '''')"

definition searchVals :: "queryBase \<Rightarrow> (string \<times> (fault + string)) list" where
  "searchVals q =
     (if hasElement q ''name'' True
      then [('':NAM'', bindE (getElement q ''name'') (\<lambda>name. Inr (generateLIKEArgument name)))] else []) @
     (if hasElement q ''group'' True then [('':ID'', getElement q ''group'')] else [])"

definition searchParts :: "('db, 'st) handler" where
  "searchParts env b q =
     (if \<not> hasElement q ''name'' True \<and> \<not> hasElement q ''group'' True then respond BADREQUEST
      else bind (gets (verify (req env) employee)) (\<lambda>ok.
      if \<not> ok then respond FORBIDDEN
      else
      bind (dbCall env (findPartsSQL (searchTerm q))
        (searchVals q)) (\<lambda>(status, result).
      if \<not> isOK status then respond INTERNALERROR
      else
      bind (liftE (addRows result partColumns ''Parts'' True emptyResponse)) (\<lambda>response.
      bind (liftE (if hasElement q ''name'' True then getElement q ''name'' else getElement q ''group'')) (\<lambda>term.
      seq (coutSession env ('') searched parts for '' @ term @ ''.\<newline>''))
          (sendResponse response))))))"

definition selectPart :: "('db, 'st) handler" where
  "selectPart env b q =
     (if \<not> hasElement q ''ID'' False then respond BADREQUEST
      else bind (gets (verify (req env) employee)) (\<lambda>ok.
      if \<not> ok then respond FORBIDDEN
      else
      bind (dbCall env partByIDSQL
        [('':ID'', getElement q ''ID'')]) (\<lambda>(status, result).
      if \<not> isOK status then respond INTERNALERROR
      else bind (liftE (getElement q ''ID'')) (\<lambda>ID.
      seq (coutSession env ('') selected part '' @ ID @ ''.\<newline>''))
     (bind (liftE (rowCount result)) (\<lambda>n.
      if n \<noteq> 0 then bind (liftE (addCells result 0 partColumns emptyResponse)) sendResponse
      else respond NOTFOUND))))))"

section \<open>Handlers of the interface\<close>

interpretation createSupplier: session_preserving createSupplier
  by unfold_locales (auto simp: createSupplier_def intro!: answering frame)

interpretation updateSupplier: session_preserving updateSupplier
  by unfold_locales (auto simp: updateSupplier_def intro!: answering frame)

interpretation searchSuppliers: session_preserving searchSuppliers
  by unfold_locales (auto simp: searchSuppliers_def intro!: answering frame)

interpretation selectSupplier: session_preserving selectSupplier
  by unfold_locales (auto simp: selectSupplier_def intro!: answering frame)

interpretation createPartGroup: session_preserving createPartGroup
  by unfold_locales (auto simp: createPartGroup_def intro!: answering frame)

interpretation updatePartGroup: session_preserving updatePartGroup
  by unfold_locales (auto simp: updatePartGroup_def intro!: answering frame)

interpretation searchPartGroups: session_preserving searchPartGroups
  by unfold_locales (auto simp: searchPartGroups_def intro!: answering frame)

interpretation selectPartGroup: session_preserving selectPartGroup
  by unfold_locales (auto simp: selectPartGroup_def intro!: answering frame)

interpretation createPart: session_preserving createPart
  by unfold_locales (auto simp: createPart_def Let_def intro!: answering frame)

interpretation updatePart: session_preserving updatePart
  by unfold_locales (auto simp: updatePart_def intro!: answering frame)

interpretation searchParts: session_preserving searchParts
  by unfold_locales (auto simp: searchParts_def intro!: answering frame)

interpretation selectPart: session_preserving selectPart
  by unfold_locales (auto simp: selectPart_def intro!: answering frame)

end
