(* ===== verification/Price.thy ===== *)
theory Price
  imports Prelude Complex_Main
begin

text \<open>
  Prices (\<^verbatim>\<open>getPartPrice\<close> of \<^verbatim>\<open>Server/include/WebRoutes/Services.h\<close> and the sums formed with it). The
  program computes with \<^verbatim>\<open>double\<close>: a finite value is the rational number it stands for, every
  operation rounds to the nearest value of 53 bits (ties to even), and the two infinities and NaN
  are values of their own. A zero has no sign here; the sums of the program start at zero, so that
  the sign of a zero cannot be seen in them.
\<close>

section \<open>Double precision numbers\<close>

datatype double = Fin rat | Infinite bool | NaN

text \<open>The number of binary digits.\<close>

fun bitlen :: "nat \<Rightarrow> nat" where
  "bitlen n = (if n = 0 then 0 else Suc (bitlen (n div 2)))"

declare bitlen.simps [simp del]

definition pow2 :: "int \<Rightarrow> rat" where
  "pow2 e = (if 0 \<le> e then 2 ^ nat e else 1 / 2 ^ nat (- e))"

definition pow10 :: "int \<Rightarrow> rat" where
  "pow10 e = (if 0 \<le> e then 10 ^ nat e else 1 / 10 ^ nat (- e))"

text \<open>The exponent of the leading binary digit of a positive number.\<close>

definition ilog2 :: "rat \<Rightarrow> int" where
  "ilog2 a = (case quotient_of a of (p, q) \<Rightarrow>
     let k = int (bitlen (nat p)) - int (bitlen (nat q))
     in if pow2 k \<le> a then k else k - 1)"

definition round_even :: "rat \<Rightarrow> int" where
  "round_even x =
     (let f = \<lfloor>x\<rfloor>; r = x - of_int f
      in if r < 1 / 2 then f else if 1 / 2 < r then f + 1 else if even f then f else f + 1)"

definition roundDouble :: "rat \<Rightarrow> double" where
  "roundDouble x =
     (if x = 0 then Fin 0
      else let a = \<bar>x\<bar>; ulp = pow2 (max (ilog2 a) (- 1022) - 52); y = of_int (round_even (a / ulp)) * ulp
           in if 2 ^ 1024 \<le> y then Infinite (x < 0) else Fin (if x < 0 then - y else y))"

fun doubleMult :: "double \<Rightarrow> double \<Rightarrow> double" where
  "doubleMult (Fin a) (Fin b) = roundDouble (a * b)"
| "doubleMult (Infinite s) (Fin b) = (if b = 0 then NaN else Infinite (s \<noteq> (b < 0)))"
| "doubleMult (Fin a) (Infinite s) = (if a = 0 then NaN else Infinite ((a < 0) \<noteq> s))"
| "doubleMult (Infinite s) (Infinite t) = Infinite (s \<noteq> t)"
| "doubleMult _ _ = NaN"

fun doubleAdd :: "double \<Rightarrow> double \<Rightarrow> double" where
  "doubleAdd (Fin a) (Fin b) = roundDouble (a + b)"
| "doubleAdd (Infinite s) (Fin b) = Infinite s"
| "doubleAdd (Fin a) (Infinite s) = Infinite s"
| "doubleAdd (Infinite s) (Infinite t) = (if s = t then Infinite s else NaN)"
| "doubleAdd _ _ = NaN"

section \<open>Reading and printing\<close>

text \<open>
  \<^verbatim>\<open>std::from_chars\<close> for \<^verbatim>\<open>double\<close>: an optional minus sign, then \<^verbatim>\<open>inf\<close> or \<^verbatim>\<open>nan\<close> in any case, or
  digits with an optional point and an optional exponent (an exponent without digits is not part of
  the number). Whatever follows is ignored. A number that rounds to an infinity, or that is not
  zero and rounds to zero, is out of range.
\<close>

definition parseExponent :: "string \<Rightarrow> int" where
  "parseExponent s = (case s of
     [] \<Rightarrow> 0
   | c # cs \<Rightarrow>
       if c \<notin> set ''eE'' then 0
       else (let neg = (case cs of [] \<Rightarrow> False | d # ds \<Rightarrow> d = CHR ''-'');
                 ds = takeWhile is_digit (case cs of [] \<Rightarrow> [] | d # ds \<Rightarrow> if d \<in> set ''+-'' then ds else cs)
             in if ds = [] then 0 else if neg then - int (num_val ds) else int (num_val ds)))"

definition parseDecimal :: "string \<Rightarrow> rat option" where
  "parseDecimal s =
     (let ip = takeWhile is_digit s;
          r = dropWhile is_digit s;
          point = (case r of [] \<Rightarrow> False | c # cs \<Rightarrow> c = CHR ''.'');
          fp = (if point then takeWhile is_digit (tl r) else []);
          r' = (if point then dropWhile is_digit (tl r) else r)
      in if ip = [] \<and> fp = [] then None
         else Some (of_nat (num_val (ip @ fp)) * pow10 (parseExponent r' - int (length fp))))"

definition lower :: "char \<Rightarrow> char" where
  "lower c = (if (65::nat) \<le> of_char c \<and> of_char c \<le> (90::nat) then char_of (of_char c + 32 :: nat) else c)"

definition doubleFromChars :: "string \<Rightarrow> double option" where
  "doubleFromChars s =
     (let neg = (case s of [] \<Rightarrow> False | c # cs \<Rightarrow> c = CHR ''-''); t = (if neg then tl s else s)
      in if map lower (take 3 t) = ''inf'' then Some (Infinite neg)
         else if map lower (take 3 t) = ''nan'' then Some NaN
         else case parseDecimal t of
           None \<Rightarrow> None
         | Some v \<Rightarrow>
             (case roundDouble (if neg then - v else v) of
                Fin y \<Rightarrow> if y = 0 \<and> v \<noteq> 0 then None else Some (Fin y)
              | Infinite b \<Rightarrow> None
              | NaN \<Rightarrow> None))"

text \<open>
  \<^verbatim>\<open>std::to_string(double)\<close> prints six decimal places of the exact value. The text for a NaN depends
  on the implementation and is an argument.
\<close>

definition sixDigits :: "nat \<Rightarrow> string" where
  "sixDigits n = replicate (6 - length (to_string n)) CHR ''0'' @ to_string n"

fun doubleToString :: "string \<Rightarrow> double \<Rightarrow> string" where
  "doubleToString nan (Fin x) =
     (let n = nat (round_even (\<bar>x\<bar> * 1000000))
      in (if x < 0 then ''-'' else '''') @ to_string (n div 1000000) @ ''.'' @ sixDigits (n mod 1000000))"
| "doubleToString nan (Infinite s) = (if s then ''-inf'' else ''inf'')"
| "doubleToString nan NaN = nan"

section \<open>The price of a part\<close>

definition getPartPrice :: "string \<Rightarrow> string \<Rightarrow> double option" where
  "getPartPrice price quantity =
     (case (doubleFromChars price, from_chars 64 quantity) of
        (Some partPrice, Some partQuantity) \<Rightarrow>
          Some (doubleMult partPrice (roundDouble (of_nat partQuantity)))
      | _ \<Rightarrow> None)"

section \<open>Whole numbers are exact\<close>

lemma bitlen_le: "n < 2 ^ k \<Longrightarrow> bitlen n \<le> k"
proof (induction k arbitrary: n)
  case 0
  then show ?case by (simp add: bitlen.simps)
next
  case (Suc k)
  then have "bitlen (n div 2) \<le> k" by simp
  then show ?case by (subst bitlen.simps) simp
qed

lemma ilog2_nat_le:
  assumes "0 < n" "n < 2 ^ 53"
  shows "ilog2 (of_nat n) \<le> 52"
proof -
  have q: "quotient_of (of_nat n) = (int n, 1)"
    by (simp add: of_nat_rat quotient_of_Fract normalize_def)
  have "bitlen 1 = 1" by (simp add: bitlen.simps)
  with assms(2) show ?thesis
    using bitlen_le [of n 53] by (simp add: ilog2_def q Let_def)
qed

lemma round_even_of_int [simp]: "round_even (of_int n) = n"
  by (simp add: round_even_def Let_def)

lemma pow2_neg: "e \<le> 0 \<Longrightarrow> pow2 e = 1 / 2 ^ nat (- e)"
  by (auto simp: pow2_def)

lemma roundDouble_nat:
  assumes "n < 2 ^ 53"
  shows "roundDouble (of_nat n) = Fin (of_nat n)"
proof (cases "n = 0")
  case True
  then show ?thesis by (simp add: roundDouble_def)
next
  case False
  define e where "e = max (ilog2 (of_nat n)) (- 1022) - 52"
  have e: "e \<le> 0" using ilog2_nat_le [of n] assms False by (simp add: e_def)
  have div: "of_nat n / pow2 e = (of_int (int n * 2 ^ nat (- e)) :: rat)"
    using e by (simp add: pow2_neg)
  have "of_int (round_even (of_nat n / pow2 e)) * pow2 e = (of_nat n :: rat)"
    unfolding div round_even_of_int using e by (simp add: pow2_neg)
  moreover have "(of_nat n :: rat) < 2 ^ 53"
    using assms by (metis of_nat_less_iff of_nat_numeral of_nat_power)
  then have "(of_nat n :: rat) < 2 ^ 1024"
    by (rule less_le_trans) (intro power_increasing, simp_all)
  ultimately show ?thesis using False by (simp add: roundDouble_def Let_def e_def [symmetric])
qed

lemma dropWhile_to_string [simp]: "dropWhile is_digit (to_string n) = []"
  using to_string_digits by simp

lemma takeWhile_to_string_Nil [simp]: "takeWhile is_digit (to_string n) = to_string n"
  using takeWhile_to_string [of "[]" n] by simp

lemma parseDecimal_to_string: "parseDecimal (to_string n) = Some (of_nat n)"
  by (simp add: parseDecimal_def parseExponent_def pow10_def)

lemma is_digit_not_letter: "is_digit c \<Longrightarrow> lower c = c \<and> c \<notin> set ''-in''"
  by (auto simp: is_digit_def lower_def)

lemma to_string_Cons: obtains c cs where "to_string n = c # cs" "is_digit c"
  using to_string_digits by (metis list.exhaust list.set_intros(1) to_string_not_Nil)

lemma doubleFromChars_to_string:
  assumes "n < 2 ^ 53"
  shows "doubleFromChars (to_string n) = Some (Fin (of_nat n))"
proof -
  obtain c cs where c: "to_string n = c # cs" "is_digit c" by (rule to_string_Cons)
  have l: "lower c = c" "c \<noteq> CHR ''-''" "c \<noteq> CHR ''i''" "c \<noteq> CHR ''n''"
    using is_digit_not_letter [OF c(2)] by auto
  have "map lower (take 3 (to_string n)) \<noteq> ''inf''" "map lower (take 3 (to_string n)) \<noteq> ''nan''"
    using l by (auto simp: c(1) take_Cons')
  moreover have "parseDecimal (c # cs) = Some (of_nat n)"
    using parseDecimal_to_string [of n] c(1) by simp
  ultimately show ?thesis
    using l assms c(1) by (auto simp: doubleFromChars_def Let_def roundDouble_nat)
qed

lemma getPartPrice_nat:
  assumes "p < 2 ^ 53" "n < 2 ^ 53" "p * n < 2 ^ 53"
  shows "getPartPrice (to_string p) (to_string n) = Some (Fin (of_nat (p * n)))"
proof -
  have "n < 2 ^ 64" using assms(2) by simp
  then have "from_chars 64 (to_string n) = Some n" by (rule from_chars_to_string)
  with assms show ?thesis
    using roundDouble_nat [OF assms(3)] by (simp add: getPartPrice_def doubleFromChars_to_string roundDouble_nat)
qed

lemma doubleAdd_nat: "a + b < 2 ^ 53 \<Longrightarrow> doubleAdd (Fin (of_nat a)) (Fin (of_nat b)) = Fin (of_nat (a + b))"
  using roundDouble_nat [of "a + b"] by simp

lemma sixDigits_0: "sixDigits 0 = ''000000''"
  by code_simp

lemma doubleToString_nat: "doubleToString nan (Fin (of_nat n)) = to_string n @ ''.000000''"
proof -
  have "round_even (of_nat n * 1000000) = int n * 1000000"
    using round_even_of_int [of "int n * 1000000"] by simp
  then have "nat (round_even (\<bar>of_nat n\<bar> * 1000000)) = n * 1000000"
    by (simp add: nat_mult_distrib)
  then show ?thesis by (simp add: Let_def sixDigits_0)
qed

end
