(* ===== verification/ServiceRoutes.thy ===== *)
theory ServiceRoutes
  imports PartRoutes Price
begin

text \<open>
  The routes for services (\<^verbatim>\<open>Server/include/WebRoutes/Services.h\<close>). A service is requested, authorised,
  worked on and closed; its state is the table that holds it, and each transition is a pair of
  statements without a transaction around them.
\<close>

section \<open>The life of a service\<close>

text \<open>The statements of the routes that move a service on, and of those that change its parts.\<close>

definition requestOwnerSQL :: string where
  "requestOwnerSQL = ''SELECT OWNER FROM '' @ tableNames VEHICLES @ '' WHERE ID = :VID''"

definition addSharedSQL :: string where
  "addSharedSQL = ''INSERT INTO '' @ tableNames SERVICESHARED @ ''(VEHICLE, REQUESTED, REQUEST) VALUES '' @
     ''(:ID, (SELECT date('' @ [CHR 0x27] @ ''now'' @ [CHR 0x27] @ '')), :REQ)''"

definition addWaitingSQL :: string where
  "addWaitingSQL = ''INSERT INTO '' @ tableNames SERVICEUNAUTHORISED @ '' (SERVICE) VALUES ((SELECT last_insert_rowid()))''"

definition findWaitingSQL :: string where
  "findWaitingSQL = ''SELECT SERVICE FROM '' @ tableNames SERVICEUNAUTHORISED @ '' WHERE SERVICE = :ID''"

definition dropWaitingSQL :: string where
  "dropWaitingSQL = ''DELETE FROM '' @ tableNames SERVICEUNAUTHORISED @ '' WHERE SERVICE = :ID''"

definition addActiveSQL :: string where
  "addActiveSQL = ''INSERT INTO '' @ tableNames SERVICEACTIVE @ '' (SERVICE, LABOUR, NOTES, AUTHORISER, QUOTE) VALUES '' @
     ''(:ID, 0, :NOT, :UID, :QOT)''"

definition addOpenSQL :: string where
  "addOpenSQL = ''INSERT INTO '' @ tableNames SERVICEOPEN @ '' (SERVICE) VALUES ((SELECT last_insert_rowid()))''"

definition addClosedSQL :: string where
  "addClosedSQL = ''INSERT INTO '' @ tableNames SERVICECLOSED @ ''(SERVICE, COMPLETED, COMPLETER, PAID) VALUES (:ID, (SELECT date('' @
     [CHR 0x27] @ ''now'' @ [CHR 0x27] @ '')), :USR, :PAD)''"

definition dropOpenSQL :: string where
  "dropOpenSQL = ''DELETE FROM '' @ tableNames SERVICEOPEN @ '' WHERE SERVICE = :ID''"

definition findEntrySQL :: string where
  "findEntrySQL = ''SELECT ID FROM '' @ tableNames PARTSINSERVICE @ '' WHERE SERVICE = :SID AND PART = :PRT''"

definition growEntrySQL :: string where
  "growEntrySQL = ''UPDATE '' @ tableNames PARTSINSERVICE @ '' SET QUANTITY = QUANTITY + :QNT WHERE ID = :ID''"

definition addEntrySQL :: string where
  "addEntrySQL = ''INSERT INTO '' @ tableNames PARTSINSERVICE @ ''(PART, QUANTITY, SERVICE) VALUES '' @ ''(:PRT, :QNT, :SRV)''"

definition entryQuantitySQL :: string where
  "entryQuantitySQL = ''SELECT QUANTITY FROM '' @ tableNames PARTSINSERVICE @ '' WHERE ID = :ID''"

definition dropEntrySQL :: string where
  "dropEntrySQL = ''DELETE FROM '' @ tableNames PARTSINSERVICE @ '' WHERE ID = :ID''"

definition shrinkEntrySQL :: string where
  "shrinkEntrySQL = ''UPDATE '' @ tableNames PARTSINSERVICE @ '' SET QUANTITY = QUANTITY - :QNT WHERE ID = :ID''"

lemmas service_texts = requestOwnerSQL_def addSharedSQL_def addWaitingSQL_def findWaitingSQL_def dropWaitingSQL_def
  addActiveSQL_def addOpenSQL_def addClosedSQL_def dropOpenSQL_def findEntrySQL_def growEntrySQL_def addEntrySQL_def
  entryQuantitySQL_def dropEntrySQL_def shrinkEntrySQL_def

definition createRequest :: "('db, 'st) handler" where
  "createRequest env b q =
     (let create =
        bind (dbCall env addSharedSQL
          [('':ID'', getElement b ''VID''), ('':REQ'', getElement b ''request'')]) (\<lambda>(sStatus, sResult).
        if \<not> isOK sStatus then respond INTERNALERROR
        else
        bind (dbCall env addWaitingSQL []) (\<lambda>(status, result).
        finish status (coutSession env '') requested a new service.\<newline>'')))
      in
      if \<not> containsAll b [''VID'', ''request''] False then respond BADREQUEST
      else bind (gets (verify (req env) manager)) (\<lambda>isManager.
      if \<not> isManager then
        bind (dbCall env requestOwnerSQL
          [('':VID'', getElement b ''VID'')]) (\<lambda>(status, result).
        if \<not> isOK status then respond INTERNALERROR
        else bind (liftE (cell result 0 0)) (\<lambda>owner.
        bind (gets (isSessionUserFromID (req env) owner)) (\<lambda>isOwner.
        if \<not> isOwner then respond FORBIDDEN else create)))
      else create))"

definition authoriseRequest :: "('db, 'st) handler" where
  "authoriseRequest env b q =
     (if \<not> hasElement b ''ID'' False \<and> \<not> hasElement b ''quote'' False then respond BADREQUEST
      else bind (gets (verify (req env) manager)) (\<lambda>ok.
      if \<not> ok then respond FORBIDDEN
      else
      bind (dbCall env findWaitingSQL
        [('':ID'', getElement b ''ID'')]) (\<lambda>(sStatus, sResult).
      if \<not> isOK sStatus then respond INTERNALERROR
      else bind (liftE (rowCount sResult)) (\<lambda>n.
      if n \<noteq> 1 then respond NOTFOUND
      else
      bind (dbCall env dropWaitingSQL
        [('':ID'', getElement b ''ID'')]) (\<lambda>(dStatus, dResult).
      if \<not> isOK dStatus then respond INTERNALERROR
      else
      bind (gets (getSessionUser (req env))) (\<lambda>u.
      bind (liftE (valueOf u)) (\<lambda>u.
      bind (dbCall env addActiveSQL
        [('':ID'', getElement b ''ID''), ('':NOT'', elementOr b ''notes'' ''''), ('':UID'', Inr (to_string u)),
         ('':QOT'', getElement b ''quote'')]) (\<lambda>(status, result).
      if \<not> isOK status then respond INTERNALERROR
      else
      bind (dbCall env addOpenSQL []) (\<lambda>(oStatus, oResult).
      finish oStatus (coutSession env ('') authorised a service as '' @ [QUOTE] @ to_string u @ [QUOTE] @ ''.\<newline>'')))))))))))"

definition updateService :: "('db, 'st) handler" where
  "updateService env b q =
     (if \<not> hasElement b ''ID'' False then respond BADREQUEST
      else bind (gets (verify (req env) employee)) (\<lambda>ok.
      if \<not> ok then respond FORBIDDEN
      else
      bind (liftE (generateUpdateStatement b (iterRel env [(''notes'', ''NOTES''), (''hours'', ''LABOUR'')]))) (\<lambda>updateStatement.
      if updateStatement = [] then respond OK
      else
      bind (dbCall env (''UPDATE '' @ tableNames SERVICEACTIVE @ '' SET '' @ updateStatement @ '' WHERE ID = :ID'')
        [('':ID'', getElement b ''ID'')]) (\<lambda>(status, result).
      finish status (coutSession env '') updated a service.\<newline>'')))))"

definition closeService :: "('db, 'st) handler" where
  "closeService env b q =
     (if \<not> hasElement b ''ID'' False then respond BADREQUEST
      else bind (gets (verify (req env) manager)) (\<lambda>ok.
      if \<not> ok then respond FORBIDDEN
      else
      bind (gets (getSessionUser (req env))) (\<lambda>u.
      bind (liftE (valueOf u)) (\<lambda>u.
      bind (dbCall env addClosedSQL
        [('':ID'', getElement b ''ID''), ('':USR'', Inr (to_string u)), ('':PAD'', getElement b ''paid'')]) (\<lambda>(sStatus, sResult).
      if \<not> isOK sStatus then respond INTERNALERROR
      else
      bind (dbCall env dropOpenSQL
        [('':ID'', getElement b ''ID'')]) (\<lambda>(dStatus, dResult).
      if \<not> isOK dStatus then respond INTERNALERROR
      else seq (coutSession env '') closed a service.\<newline>'') (emit (End []))))))))"

text \<open>\<^verbatim>\<open>reopenService\<close> is not registered in the route table.\<close>

definition reopenService :: "('db, 'st) handler" where
  "reopenService env b q =
     (if \<not> hasElement b ''ID'' False then respond BADREQUEST
      else bind (gets (verify (req env) manager)) (\<lambda>ok.
      if \<not> ok then respond FORBIDDEN
      else
      bind (gets (getSessionUser (req env))) (\<lambda>u.
      bind (liftE (valueOf u)) (\<lambda>u.
      bind (dbCall env (''DELETE FROM '' @ tableNames SERVICECLOSED @ '' WHERE ID = :ID'')
        [('':ID'', getElement b ''ID'')]) (\<lambda>(dStatus, dResult).
      if \<not> isOK dStatus then respond INTERNALERROR
      else
      bind (dbCall env (''INSERT INTO '' @ tableNames SERVICEOPEN @ ''(SERVICE) VALUES (:ID)'')
        [('':ID'', getElement b ''ID'')]) (\<lambda>(sStatus, sResult).
      if \<not> isOK sStatus then respond INTERNALERROR
      else seq (coutSession env '') reopened a service.\<newline>'') (emit (End []))))))))"

section \<open>The parts of a service\<close>

definition addPartToService :: "('db, 'st) handler" where
  "addPartToService env b q =
     (let add =
        bind (dbCall env findEntrySQL
          [('':PRT'', getElement b ''partID''), ('':SID'', getElement b ''serviceID'')]) (\<lambda>(searchStatus, searchResult).
        if \<not> isOK searchStatus then respond INTERNALERROR
        else bind (liftE (rowCount searchResult)) (\<lambda>n.
        if n \<noteq> 0 then
          bind (dbCall env growEntrySQL
            [('':ID'', cell searchResult 0 0), ('':QNT'', elementOr b ''quantity'' ''1'')]) (\<lambda>(status, result).
          finish status (coutSession env '') added existing parts to a service.\<newline>''))
        else
          bind (dbCall env addEntrySQL
            [('':PRT'', getElement b ''partID''), ('':QNT'', elementOr b ''quantity'' ''1''), ('':SRV'', getElement b ''serviceID'')])
            (\<lambda>(status, result).
          if \<not> isOK status then respond INTERNALERROR
          else seq (coutSession env '') added new parts to a service.\<newline>'') (emit (End [])))))
      in
      if \<not> containsAll b [''serviceID'', ''partID''] False then respond BADREQUEST
      else bind (gets (verify (req env) employee)) (\<lambda>ok.
      if \<not> ok then respond FORBIDDEN
      else if hasElement b ''quantity'' False then
        bind (liftE (getElement b ''quantity'')) (\<lambda>val.
        case from_chars 64 val of
          None \<Rightarrow> respond BADREQUEST
        | Some quantity \<Rightarrow> if quantity \<le> 0 then respond BADREQUEST else add)
      else add))"

definition removePartFromService :: "('db, 'st) handler" where
  "removePartFromService env b q =
     (if \<not> hasElement b ''entry'' False then respond BADREQUEST
      else bind (gets (verify (req env) employee)) (\<lambda>ok.
      if \<not> ok then respond FORBIDDEN
      else
      bind (dbCall env entryQuantitySQL
        [('':ID'', getElement b ''entry'')]) (\<lambda>(searchStatus, searchResult).
      if \<not> isOK searchStatus then respond INTERNALERROR
      else bind (liftE (rowCount searchResult)) (\<lambda>n.
      if n = 0 then respond NOTFOUND
      else bind (liftE (cell searchResult 0 0)) (\<lambda>quantityText.
      case from_chars 64 quantityText of
        None \<Rightarrow> respond INTERNALERROR
      | Some currentQuantity \<Rightarrow>
          bind (liftE (if hasElement b ''quantity'' False
                       then bindE (getElement b ''quantity'') (\<lambda>val. Inr (from_chars 64 val)) else Inr (Some 1))) (\<lambda>removed.
          case removed of
            None \<Rightarrow> respond BADREQUEST
          | Some removedQuantity \<Rightarrow>
              if removedQuantity \<le> 0 then respond BADREQUEST
              else if removedQuantity \<ge> currentQuantity then
                bind (dbCall env dropEntrySQL
                  [('':ID'', getElement b ''entry'')]) (\<lambda>(status, result).
                finish status (coutSession env '') removed a set of existing parts from a service.\<newline>''))
              else
                bind (dbCall env shrinkEntrySQL
                  [('':QNT'', elementOr b ''quantity'' ''1''), ('':ID'', getElement b ''entry'')]) (\<lambda>(status, result).
                finish status (coutSession env '') removed some existing parts from a service.\<newline>''))))))))"

section \<open>Searching and selecting\<close>

text \<open>
  The loop over the parts of a service: every part becomes an object in the array \<^verbatim>\<open>parts\<close>, the sum of
  the prices becomes the element \<^verbatim>\<open>total\<close>, and a price that cannot be read ends the request.
\<close>

definition addParts ::
  "('db, 'st) env \<Rightarrow> SQLResult \<Rightarrow> (string \<times> nat) list \<Rightarrow> nat \<Rightarrow> nat \<Rightarrow> responseWrapper
    \<Rightarrow> (responseWrapper \<Rightarrow> ('db server, unit) prog) \<Rightarrow> ('db server, unit) prog" where
  "addParts env partResult cols priceCol quantityCol temp k =
     bind (liftE (rowCount partResult)) (\<lambda>n.
     forEach [0..<n] (temp, Fin 0) (\<lambda>i (temp, totalPrice) next_row.
       bind (liftE (addCells partResult i cols emptyResponse)) (\<lambda>temp2.
       bind (liftE (cell partResult i priceCol)) (\<lambda>price.
       bind (liftE (cell partResult i quantityCol)) (\<lambda>quantity.
       case getPartPrice price quantity of
         None \<Rightarrow> respond INTERNALERROR
       | Some price \<Rightarrow>
           bind (liftE (addObject temp ''parts'' temp2 True)) (\<lambda>temp.
           next_row (temp, doubleAdd totalPrice price))))))
     (\<lambda>(temp, totalPrice).
       bind (liftE (addString temp ''total'' (doubleToString (nanText env) totalPrice) False)) k))"

definition serviceColumns :: "(string \<times> nat) list" where
  "serviceColumns = [(''service'', 0), (''vehicle'', 1), (''owner'', 2), (''request'', 3), (''requested'', 4)]"

text \<open>The three sections of \<^verbatim>\<open>searchServices\<close>; each hands the response on.\<close>

definition searchUser :: "queryBase \<Rightarrow> (string \<times> (fault + string)) list" where
  "searchUser q = (if hasElement q ''UID'' False then [('':ID'', getElement q ''UID'')] else [])"

definition searchUnauthorised ::
  "('db, 'st) env \<Rightarrow> queryBase \<Rightarrow> responseWrapper \<Rightarrow> (responseWrapper \<Rightarrow> ('db server, unit) prog) \<Rightarrow> ('db server, unit) prog" where
  "searchUnauthorised env q response k =
     (if \<not> hasElement q ''unauthorised'' True then k response
      else
      bind (dbCall env (''SELECT SERVICE, V.ID, V.OWNER, SS.REQUEST, SS.REQUESTED FROM '' @ tableNames SERVICEUNAUTHORISED @
          '' INNER JOIN '' @ tableNames SERVICESHARED @ '' AS SS ON SERVICE = SS.ID'' @
          '' INNER JOIN '' @ tableNames VEHICLES @ '' AS V ON SS.VEHICLE = V.ID'' @
          '' INNER JOIN '' @ tableNames USER @ '' AS U ON U.ID = V.OWNER'' @
          (if hasElement q ''UID'' False then '' WHERE U.ID = :ID'' else '''')) (searchUser q)) (\<lambda>(status, result).
      if \<not> isOK status then respond INTERNALERROR
      else bind (liftE (addRows result serviceColumns ''Unauthorised'' True response)) k))"

definition searchOpen ::
  "('db, 'st) env \<Rightarrow> queryBase \<Rightarrow> responseWrapper \<Rightarrow> (responseWrapper \<Rightarrow> ('db server, unit) prog) \<Rightarrow> ('db server, unit) prog" where
  "searchOpen env q response k =
     (if \<not> hasElement q ''open'' True then k response
      else
      bind (dbCall env (''SELECT S.ID, S.VEHICLE, V.OWNER, S.REQUEST, S.REQUESTED, A.LABOUR, A.NOTES, U.ID, A.QUOTE, S.ID FROM '' @
          tableNames SERVICEOPEN @ '' AS SO'' @
          '' INNER JOIN '' @ tableNames SERVICEACTIVE @ '' AS A ON SO.SERVICE = A.ID'' @
          '' INNER JOIN '' @ tableNames SERVICESHARED @ '' AS S ON A.SERVICE = S.ID'' @
          '' INNER JOIN '' @ tableNames VEHICLES @ '' AS V ON S.VEHICLE = V.ID'' @
          '' INNER JOIN '' @ tableNames USER @ '' AS U ON A.AUTHORISER = U.ID'' @
          '' INNER JOIN '' @ tableNames USER @ '' AS O ON V.OWNER = O.ID'' @
          (if hasElement q ''UID'' False then '' WHERE O.ID = :ID'' else '''')) (searchUser q)) (\<lambda>(status, result).
      if \<not> isOK status then respond INTERNALERROR
      else bind (liftE (rowCount result)) (\<lambda>n.
      forEach [0..<n] response (\<lambda>i response next_row.
        bind (liftE (addCells result i (serviceColumns @
          [(''labour'', 5), (''notes'', 6), (''authoriser'', 7), (''quote'', 8)]) emptyResponse)) (\<lambda>temp.
        bind (dbCall env (''SELECT PS.ID, P.NAME, PS.PART, PS.QUANTITY, P.PRICE FROM '' @ tableNames PARTSINSERVICE @ '' AS PS'' @
            '' INNER JOIN '' @ tableNames PARTS @ '' AS P ON PS.PART = P.ID'' @
            '' WHERE PS.SERVICE = :ID'') [('':ID'', cell result i 9)]) (\<lambda>(partStatus, partResult).
        if \<not> isOK partStatus then respond INTERNALERROR
        else
        addParts env partResult [(''entry'', 0), (''name'', 1), (''ID'', 2), (''quantity'', 3), (''price'', 4)] 4 3 temp (\<lambda>temp.
        bind (liftE (addObject response ''Open'' temp True)) next_row))))
      k)))"

definition searchClosed ::
  "('db, 'st) env \<Rightarrow> queryBase \<Rightarrow> responseWrapper \<Rightarrow> (responseWrapper \<Rightarrow> ('db server, unit) prog) \<Rightarrow> ('db server, unit) prog" where
  "searchClosed env q response k =
     (if \<not> hasElement q ''closed'' True then k response
      else
      bind (dbCall env (''SELECT S.ID, S.VEHICLE, V.OWNER, S.REQUEST, S.REQUESTED, A.LABOUR, A.NOTES, A.AUTHORISER, A.QUOTE, C.COMPLETED, C.COMPLETER, C.PAID FROM '' @
          tableNames SERVICECLOSED @ '' AS C '' @
          ''INNER JOIN '' @ tableNames SERVICEACTIVE @ '' AS A ON C.SERVICE = A.ID '' @
          ''INNER JOIN '' @ tableNames SERVICESHARED @ '' AS S ON A.SERVICE = S.ID '' @
          ''INNER JOIN '' @ tableNames VEHICLES @ '' AS V ON S.VEHICLE = V.ID '' @
          ''INNER JOIN '' @ tableNames USER @ '' AS O ON V.OWNER = O.ID'' @
          (if hasElement q ''UID'' False then '' WHERE O.ID = :ID'' else '''')) (searchUser q)) (\<lambda>(status, result).
      if \<not> isOK status then respond INTERNALERROR
      else bind (liftE (rowCount result)) (\<lambda>n.
      forEach [0..<n] response (\<lambda>i response next_row.
        bind (liftE (addCells result i (serviceColumns @
          [(''labour'', 5), (''notes'', 6), (''authoriser'', 7), (''quote'', 8),
           (''completed'', 9), (''completer'', 10), (''paid'', 11)]) emptyResponse)) (\<lambda>temp.
        bind (dbCall env (''SELECT P.NAME, PS.PART, PS.QUANTITY, P.PRICE FROM '' @ tableNames PARTSINSERVICE @ '' AS PS '' @
            ''INNER JOIN '' @ tableNames PARTS @ '' AS P ON PS.PART = P.ID WHERE PS.SERVICE = :ID'')
          [('':ID'', cell result i 0)]) (\<lambda>(partStatus, partResult).
        if \<not> isOK partStatus then respond INTERNALERROR
        else
        addParts env partResult [(''name'', 0), (''ID'', 1), (''quantity'', 2), (''price'', 3)] 3 2 temp (\<lambda>temp.
        bind (liftE (addObject response ''Closed'' temp True)) next_row))))
      k)))"

text \<open>
  The guard that \<^verbatim>\<open>searchServices\<close> and \<^verbatim>\<open>selectServicePart\<close> share: an employee, or the user named in the
  query; reading a missing \<^verbatim>\<open>UID\<close> throws.
\<close>

definition employeeOrNamedUser :: "('db, 'st) env \<Rightarrow> queryBase \<Rightarrow> ('db server, unit) prog \<Rightarrow> ('db server, unit) prog" where
  "employeeOrNamedUser env q k =
     (let check_session = (if \<not> hasSession (req env) then respond UNAUTHORISED else k)
      in bind (gets (verify (req env) employee)) (\<lambda>isEmployee.
         if \<not> isEmployee then
           bind (gets (getSessionUser (req env))) (\<lambda>UID.
           case UID of
             None \<Rightarrow> respond FORBIDDEN
           | Some UID \<Rightarrow>
               bind (liftE (getElement q ''UID'')) (\<lambda>named.
               if to_string UID \<noteq> named then respond FORBIDDEN else check_session))
         else check_session))"

definition searchServices :: "('db, 'st) handler" where
  "searchServices env b q =
     (if \<not> containsAny q [''unauthorised'', ''open'', ''closed''] True then respond BADREQUEST
      else
      employeeOrNamedUser env q
       (searchUnauthorised env q emptyResponse (\<lambda>response.
        searchOpen env q response (\<lambda>response.
        searchClosed env q response sendResponse))))"

text \<open>The block of \<^verbatim>\<open>selectService\<close> for a closed service.\<close>

definition selectClosed :: "('db, 'st) env \<Rightarrow> queryBase \<Rightarrow> responseWrapper \<Rightarrow> ('db server, unit) prog" where
  "selectClosed env q response =
     bind (dbCall env (''SELECT C.ID, C.COMPLETED, C.PAID FROM '' @ tableNames SERVICECLOSED @ '' AS C '' @
         ''INNER JOIN '' @ tableNames SERVICESHARED @ '' AS S ON SERVICE = S.ID '' @
         ''WHERE S.ID + :ID'') [('':ID'', getElement q ''ID'')]) (\<lambda>(status, result).
     bind (liftE (if \<not> isOK status then Inr True else bindE (rowCount result) (\<lambda>n. Inr (n = 0)))) (\<lambda>failed.
     if failed then respond INTERNALERROR
     else
     bind (liftE (addCells result 0 [(''completer'', 0), (''completed'', 1), (''paid'', 2)] response)) (\<lambda>response.
     bind (dbCall env (''SELECT DATE(:DAT, '' @ [CHR 0x27] @ ''-6 month'' @ [CHR 0x27] @ '')'') [('':DAT'', cell result 0 1)]) (\<lambda>(lds, ldr).
     if \<not> isOK lds then respond INTERNALERROR
     else
     bind (dbCall env (''SELECT P.NAME, PS.PART, PS.QUANTITY FROM '' @ tableNames SERVICECLOSED @ '' AS S '' @
         ''INNER JOIN '' @ tableNames SERVICEACTIVE @ '' AS A ON S.SERVICE = A.ID '' @
         ''INNER JOIN '' @ tableNames SERVICESHARED @ '' AS SS ON A.SERVICE = SS.ID '' @
         ''INNER JOIN '' @ tableNames PARTSINSERVICE @ '' AS PS ON SS.ID = PS.SERVICE '' @
         ''INNER JOIN '' @ tableNames PARTS @ '' AS P ON PS.PART = P.ID '' @
         ''WHERE S.ID != :ID AND S.COMPLETED >= :LOWDATE AND S.COMPLETED <= :HIGHDATE'')
       [('':ID'', getElement q ''ID''), ('':LOWDATE'', cell ldr 0 0), ('':HIGHDATE'', cell result 0 1)]) (\<lambda>(partStatus, partResult).
     if \<not> isOK partStatus then respond INTERNALERROR
     else
     bind (liftE (addRows partResult [(''name'', 0), (''ID'', 1), (''quantity'', 2)] ''warrantied'' True response))
     sendResponse)))))"

text \<open>The block for an authorised service, which may turn out to be closed.\<close>

definition selectActive :: "('db, 'st) env \<Rightarrow> queryBase \<Rightarrow> responseWrapper \<Rightarrow> ('db server, unit) prog" where
  "selectActive env q response =
     bind (dbCall env (''SELECT A.LABOUR, A.NOTES, A.AUTHORISER, A.QUOTE FROM '' @ tableNames SERVICEACTIVE @ '' AS A WHERE A.SERVICE = :ID'')
       [('':ID'', getElement q ''ID'')]) (\<lambda>(status, result).
     bind (liftE (if \<not> isOK status then Inr True else bindE (rowCount result) (\<lambda>n. Inr (n = 0)))) (\<lambda>failed.
     if failed then respond INTERNALERROR
     else
     bind (liftE (addCells result 0 [(''labour'', 0), (''notes'', 1), (''authoriser'', 2), (''quote'', 3)] response)) (\<lambda>response.
     bind (dbCall env (''SELECT P.NAME, PS.PART, PS.QUANTITY, P.PRICE FROM '' @ tableNames PARTSINSERVICE @ '' AS PS'' @
         '' INNER JOIN '' @ tableNames PARTS @ '' AS P ON PS.PART = P.ID'' @
         '' INNER JOIN '' @ tableNames SERVICESHARED @ '' AS S ON PS.SERVICE = S.ID WHERE S.ID = :ID'')
       [('':ID'', getElement q ''ID'')]) (\<lambda>(status, result).
     if \<not> isOK status then respond INTERNALERROR
     else
     addParts env result [(''name'', 0), (''ID'', 1), (''quantity'', 2), (''price'', 3)] 3 2 response (\<lambda>response.
     bind (dbCall env (''SELECT ID FROM '' @ tableNames SERVICEOPEN @ '' WHERE SERVICE = :ID'')
       [('':ID'', getElement q ''ID'')]) (\<lambda>(status, result).
     if \<not> isOK status then respond INTERNALERROR
     else bind (liftE (rowCount result)) (\<lambda>n.
     if n \<noteq> 0 then bind (liftE (addString response ''status'' ''authorised'' False)) sendResponse
     else selectClosed env q response)))))))"

text \<open>The data that all services have, and the check for an unauthorised service.\<close>

definition selectCommon :: "('db, 'st) env \<Rightarrow> queryBase \<Rightarrow> ('db server, unit) prog" where
  "selectCommon env q =
     bind (dbCall env (''SELECT S.ID, V.ID, U.ID, S.REQUEST, S.REQUESTED FROM '' @ tableNames SERVICESHARED @ '' AS S '' @
         ''INNER JOIN '' @ tableNames VEHICLES @ '' AS V ON V.ID = S.VEHICLE '' @
         ''INNER JOIN '' @ tableNames USER @ '' AS U ON U.ID = V.OWNER '' @
         ''WHERE S.ID = :ID'') [('':ID'', getElement q ''ID'')]) (\<lambda>(status, result).
     if \<not> isOK status then respond INTERNALERROR
     else bind (liftE (rowCount result)) (\<lambda>n.
     if n = 0 then respond NOTFOUND
     else
     bind (liftE (addCells result 0 serviceColumns emptyResponse)) (\<lambda>response.
     bind (dbCall env (''SELECT U.ID FROM '' @ tableNames SERVICEUNAUTHORISED @ '' AS U INNER JOIN '' @
         tableNames SERVICESHARED @ '' AS S ON S.ID = U.SERVICE WHERE S.ID = :ID'') [('':ID'', getElement q ''ID'')]) (\<lambda>(status, result).
     if \<not> isOK status then respond INTERNALERROR
     else bind (liftE (rowCount result)) (\<lambda>n.
     if n \<noteq> 0 then bind (liftE (addString response ''status'' ''unauthorised'' False)) sendResponse
     else selectActive env q response)))))"

definition selectService :: "('db, 'st) handler" where
  "selectService env b q =
     (if \<not> hasElement q ''ID'' False then respond BADREQUEST
      else if \<not> hasSession (req env) then respond UNAUTHORISED
      else bind (gets (verify (req env) employee)) (\<lambda>isEmployee.
      if \<not> isEmployee then
        bind (dbCall env (''SELECT U.ID FROM '' @ tableNames VEHICLES @ '' AS V '' @
            ''INNER JOIN '' @ tableNames USER @ '' AS V ON V.OWNER = U.ID '' @
            ''INNER JOIN '' @ tableNames SERVICESHARED @ '' AS S ON S.VEHICLE = V.ID WHERE S.ID = :ID'')
          [('':ID'', getElement q ''ID'')]) (\<lambda>(status, result).
        bind (liftE (if \<not> isOK status then Inr True else bindE (rowCount result) (\<lambda>n. Inr (n = 0)))) (\<lambda>failed.
        if failed then respond INTERNALERROR
        else bind (gets (getSessionUser (req env))) (\<lambda>UID.
        case UID of
          None \<Rightarrow> respond FORBIDDEN
        | Some UID \<Rightarrow>
            bind (liftE (cell result 0 0)) (\<lambda>owner.
            if to_string UID \<noteq> owner then respond FORBIDDEN else selectCommon env q))))
      else selectCommon env q))"

definition selectServicePart :: "('db, 'st) handler" where
  "selectServicePart env b q =
     (if \<not> hasElement q ''entry'' False then respond BADREQUEST
      else
      employeeOrNamedUser env q
       (bind (dbCall env (''SELECT ID, SERVICE, PART, QUANTITY FROM '' @ tableNames PARTSINSERVICE @ '' WHERE ID = :ID'')
          [('':ID'', getElement q ''entry'')]) (\<lambda>(status, result).
        if \<not> isOK status then respond INTERNALERROR
        else bind (liftE (rowCount result)) (\<lambda>n.
        if n = 0 then respond NOTFOUND
        else
        bind (liftE (addCells result 0 [(''entry'', 0), (''serviceID'', 1), (''partID'', 2), (''quantity'', 3)] emptyResponse))
        sendResponse))))"

section \<open>Handlers of the interface\<close>

lemma addParts_frame [frame]:
  "(\<And>r. keeps sessions (k r)) \<Longrightarrow> keeps sessions (addParts env pr cols p n temp k)"
  unfolding addParts_def by (auto intro!: frame)

lemma addParts_answers [answering]:
  "(\<And>r. answers (k r)) \<Longrightarrow> answers (addParts env pr cols p n temp k)"
  unfolding addParts_def by (auto intro!: answering)

lemma search_frame [frame]:
  assumes "\<And>r. keeps sessions (k r)"
  shows "keeps sessions (searchUnauthorised env q response k)"
    "keeps sessions (searchOpen env q response k)" "keeps sessions (searchClosed env q response k)"
  unfolding searchUnauthorised_def searchOpen_def searchClosed_def by (auto intro!: frame assms)

lemma search_answers [answering]:
  assumes "\<And>r. answers (k r)"
  shows "answers (searchUnauthorised env q response k)"
    "answers (searchOpen env q response k)" "answers (searchClosed env q response k)"
  unfolding searchUnauthorised_def searchOpen_def searchClosed_def by (auto intro!: answering assms)

lemma employeeOrNamedUser_frame [frame]:
  "keeps sessions k \<Longrightarrow> keeps sessions (employeeOrNamedUser env q k)"
  unfolding employeeOrNamedUser_def Let_def by (auto intro!: frame)

lemma employeeOrNamedUser_answers [answering]:
  "answers k \<Longrightarrow> answers (employeeOrNamedUser env q k)"
  unfolding employeeOrNamedUser_def Let_def by (auto intro!: answering)

lemmas select_defs = selectCommon_def selectActive_def selectClosed_def

interpretation createRequest: session_preserving createRequest
  by unfold_locales (auto simp: createRequest_def Let_def intro!: answering frame)

interpretation authoriseRequest: session_preserving authoriseRequest
  by unfold_locales (auto simp: authoriseRequest_def intro!: answering frame)

interpretation updateService: session_preserving updateService
  by unfold_locales (auto simp: updateService_def intro!: answering frame)

interpretation closeService: session_preserving closeService
  by unfold_locales (auto simp: closeService_def intro!: answering frame)

interpretation reopenService: session_preserving reopenService
  by unfold_locales (auto simp: reopenService_def intro!: answering frame)

interpretation addPartToService: session_preserving addPartToService
  by unfold_locales (auto simp: addPartToService_def Let_def intro!: answering frame)

interpretation removePartFromService: session_preserving removePartFromService
  by unfold_locales (auto simp: removePartFromService_def intro!: answering frame)

interpretation searchServices: session_preserving searchServices
  by unfold_locales (auto simp: searchServices_def intro!: answering frame)

interpretation selectService: session_preserving selectService
  by unfold_locales (auto simp: selectService_def select_defs intro!: answering frame)

interpretation selectServicePart: session_preserving selectServicePart
  by unfold_locales (auto simp: selectServicePart_def intro!: answering frame)

section \<open>Totals\<close>

lemma verify_user: "verify rq l w \<Longrightarrow> \<exists>u. getSessionUser rq w = Some u"
  by (auto simp: verify_def getSessionUser_def split: option.splits)

lemma bindE_eqD: "bindE m k = Inr y \<Longrightarrow> \<exists>x. m = Inr x \<and> k x = Inr y"
  by (cases m) auto

text \<open>The loop over the parts with whole prices and quantities, from any sum so far.\<close>

lemma addParts_loop:
  assumes "foldE (\<lambda>i response. bindE (addCells pr i cols emptyResponse) (\<lambda>temp2. addObject response ''parts'' temp2 True)) is temp = Inr temp'"
    and "\<And>i. i \<in> set is \<Longrightarrow> cell pr i pc = Inr (to_string (price i)) \<and> cell pr i qc = Inr (to_string (quantity i)) \<and>
      price i < 2 ^ 53 \<and> quantity i < 2 ^ 53"
    and "s + (\<Sum>i\<leftarrow>is. price i * quantity i) < 2 ^ 53"
  shows "forEach is (temp, Fin (of_nat s)) (\<lambda>i (temp, totalPrice) next_row.
       bind (liftE (addCells pr i cols emptyResponse)) (\<lambda>temp2.
       bind (liftE (cell pr i pc)) (\<lambda>price.
       bind (liftE (cell pr i qc)) (\<lambda>quantity.
       case getPartPrice price quantity of
         None \<Rightarrow> respond INTERNALERROR
       | Some price \<Rightarrow>
           bind (liftE (addObject temp ''parts'' temp2 True)) (\<lambda>temp.
           next_row (temp, doubleAdd totalPrice price)))))) k w
    = k (temp', Fin (of_nat (s + (\<Sum>i\<leftarrow>is. price i * quantity i)))) w"
  using assms
proof (induction "is" arbitrary: temp s)
  case (Cons i "is")
  from Cons.prems(1) obtain o' temp1 where 1: "addCells pr i cols emptyResponse = Inr o'" "addObject temp ''parts'' o' True = Inr temp1"
    "foldE (\<lambda>i response. bindE (addCells pr i cols emptyResponse) (\<lambda>temp2. addObject response ''parts'' temp2 True)) is temp1 = Inr temp'"
    by (fastforce dest!: bindE_eqD)
  have i: "cell pr i pc = Inr (to_string (price i))" "cell pr i qc = Inr (to_string (quantity i))"
    "price i < 2 ^ 53" "quantity i < 2 ^ 53"
    using Cons.prems(2) [of i] by auto
  have le: "s + price i * quantity i < 2 ^ 53" "price i * quantity i < 2 ^ 53"
    using Cons.prems(3) by simp_all
  have add: "doubleAdd (Fin (of_nat s)) (Fin (of_nat (price i * quantity i))) = Fin (of_nat (s + price i * quantity i))"
    using le(1) by (rule doubleAdd_nat)
  have "s + price i * quantity i + (\<Sum>i\<leftarrow>is. price i * quantity i) < 2 ^ 53" using Cons.prems(3) by simp
  from Cons.IH [OF 1(3) Cons.prems(2) this] show ?case
    using 1(1,2) i getPartPrice_nat [OF i(3,4) le(2)] add by (simp add: add.assoc del: of_nat_add of_nat_mult)
qed simp

section \<open>Properties\<close>

text \<open>C31. The total of a service is exact for whole prices. When the prices and quantities of the parts are
  whole numbers in decimal text and the sum of their products is below \<open>2 ^ 53\<close>, computing in double
  precision loses nothing: the loop adds every part to the response and then the element \<^verbatim>\<open>total\<close> with
  exactly that sum, printed with six zeros behind the point.\<close>

theorem parts_total_exact:
  assumes "rowCount pr = Inr n" and "addRows pr cols ''parts'' True temp = Inr temp'"
    and "\<And>i. i < n \<Longrightarrow> cell pr i pc = Inr (to_string (price i)) \<and> cell pr i qc = Inr (to_string (quantity i)) \<and>
      price i < 2 ^ 53 \<and> quantity i < 2 ^ 53"
    and "(\<Sum>i < n. price i * quantity i) < 2 ^ 53"
  shows "addParts env pr cols pc qc temp k w =
    bind (liftE (addString temp' ''total'' (to_string (\<Sum>i < n. price i * quantity i) @ ''.000000'') False)) k w"
proof -
  have sum: "(\<Sum>i\<leftarrow>[0..<n]. price i * quantity i) = (\<Sum>i < n. price i * quantity i)"
    by (simp add: sum_list_sum_nth atLeast0LessThan)
  have "foldE (\<lambda>i response. bindE (addCells pr i cols emptyResponse) (\<lambda>temp2. addObject response ''parts'' temp2 True)) [0..<n] temp = Inr temp'"
    using assms(1,2) by (simp add: addRows_def)
  from addParts_loop [OF this, of pc price qc quantity 0 "\<lambda>(temp, totalPrice).
      bind (liftE (addString temp ''total'' (doubleToString (nanText env) totalPrice) False)) k" w] assms(3,4)
  show ?thesis
    by (simp add: addParts_def assms(1) sum doubleToString_nat del: doubleToString.simps of_nat_sum of_nat_mult)
qed

theorem parts_total_exact_witness:
  "addParts (sample_env (\<lambda>_. []) []) \<lparr>colCount = 2, cells = [''7'', ''3'', ''0'', ''5''], colNames = [''PRICE'', ''QUANTITY'']\<rparr>
      [(''price'', 0), (''quantity'', 1)] 0 1 emptyResponse sendResponse (sample_server Map.empty) =
    bind (liftE (addString (ResponseWrapper [(''parts'', Objects
        [ResponseWrapper [(''price'', Strings [''7'']), (''quantity'', Strings [''3''])] [False, False],
         ResponseWrapper [(''price'', Strings [''0'']), (''quantity'', Strings [''5''])] [False, False]])] [True])
      ''total'' (to_string (\<Sum>i < (2::nat). (if i = 0 then 7 else 0) * (if i = 0 then 3 else 5)) @ ''.000000'') False))
    sendResponse (sample_server Map.empty)"
proof (rule parts_total_exact)
  show "rowCount \<lparr>colCount = 2, cells = [''7'', ''3'', ''0'', ''5''], colNames = [''PRICE'', ''QUANTITY'']\<rparr> = Inr 2"
    by (simp add: rowCount_def)
  show "addRows \<lparr>colCount = 2, cells = [''7'', ''3'', ''0'', ''5''], colNames = [''PRICE'', ''QUANTITY'']\<rparr>
      [(''price'', 0), (''quantity'', 1)] ''parts'' True emptyResponse = Inr (ResponseWrapper [(''parts'', Objects
        [ResponseWrapper [(''price'', Strings [''7'']), (''quantity'', Strings [''3''])] [False, False],
         ResponseWrapper [(''price'', Strings [''0'']), (''quantity'', Strings [''5''])] [False, False]])] [True])"
    by code_simp
  show "(\<Sum>i < (2::nat). (if i = 0 then 7 else 0) * (if i = 0 then 3 else 5)) < (2::nat) ^ 53"
  proof -
    have "{..<2::nat} = {0, 1}" by auto
    then show ?thesis by simp
  qed
  have digits: "to_string 7 = ''7''" "to_string 3 = ''3''" "to_string 0 = ''0''" "to_string 5 = ''5''"
    by code_simp+
  fix i :: nat assume "i < 2"
  then consider "i = 0" | "i = 1" by linarith
  then show "cell \<lparr>colCount = 2, cells = [''7'', ''3'', ''0'', ''5''], colNames = [''PRICE'', ''QUANTITY'']\<rparr> i 0
      = Inr (to_string (if i = 0 then 7 else 0)) \<and>
    cell \<lparr>colCount = 2, cells = [''7'', ''3'', ''0'', ''5''], colNames = [''PRICE'', ''QUANTITY'']\<rparr> i 1
      = Inr (to_string (if i = 0 then 3 else 5)) \<and> (if i = 0 then 7 else 0) < (2::nat) ^ 53 \<and> (if i = 0 then 3 else 5) < (2::nat) ^ 53"
    by cases (simp_all add: cell_def digits)
qed

text \<open>Removing parts never leaves an entry without parts. For an employee, an entry that exists and a
  positive amount: the route executes one statement after its query. If the amount is at least the
  quantity in the database, the entry is deleted; otherwise the statement subtracts the amount, which is
  then smaller than the quantity.\<close>

theorem removePart_decision:
  assumes "b ''entry'' = Some e" and "e \<noteq> []" and "verify (req env) employee w"
    and "query (api env) entryQuantitySQL (iter env [('':ID'', e)]) (database w)
      = (Inr (c, res), db1)"
    and "isOK c" and "rowCount res = Inr (Suc k)" and "cell res 0 0 = Inr t" and "from_chars 64 t = Some current"
    and "elementOr b ''quantity'' ''1'' = Inr amount" and "from_chars 64 amount = Some r" and "0 < r"
  shows "if current \<le> r
    then database (snd (removePartFromService env b q w)) = snd (query (api env)
      dropEntrySQL (iter env [('':ID'', e)]) db1)
    else r < current \<and> database (snd (removePartFromService env b q w)) = snd (query (api env)
      shrinkEntrySQL (iter env [('':QNT'', amount), ('':ID'', e)]) db1)"
proof -
  have removed: "(if hasElement b ''quantity'' False then bindE (getElement b ''quantity'') (\<lambda>val. Inr (from_chars 64 val))
      else Inr (Some 1)) = Inr (Some r)"
    using assms(9,10) by (auto simp: elementOr_def sample_numbers split: if_splits)
  have db: "database (snd (finish c' (coutSession env m) w')) = database w'" for c' m w'
    using keeps_finish(2) [OF keeps_coutSession(2), of c' env m] by (simp add: keeps_def)
  show ?thesis
    using assms removed
    by (auto simp: removePartFromService_def running hasElement_def getElement_def db split: sum.split prod.split)
qed

theorem removePart_decision_witness:
  "if (9::nat) \<le> 2
    then database (snd (removePartFromService (staff_env (\<lambda>_. [[''9'']])) [''entry'' \<mapsto> ''3'', ''quantity'' \<mapsto> ''2''] Map.empty
      (staff_server employee))) = snd (query (api (staff_env (\<lambda>_. [[''9'']])))
      dropEntrySQL (iter (staff_env (\<lambda>_. [[''9'']])) [('':ID'', ''3'')]) [])
    else (2::nat) < 9 \<and> database (snd (removePartFromService (staff_env (\<lambda>_. [[''9'']]))
        [''entry'' \<mapsto> ''3'', ''quantity'' \<mapsto> ''2''] Map.empty (staff_server employee)))
      = snd (query (api (staff_env (\<lambda>_. [[''9''] ])))
      shrinkEntrySQL
      (iter (staff_env (\<lambda>_. [[''9'']])) [('':QNT'', ''2''), ('':ID'', ''3'')]) [])"
proof (rule removePart_decision)
  show "query (api (staff_env (\<lambda>_. [[''9'']]))) entryQuantitySQL
      (iter (staff_env (\<lambda>_. [[''9'']])) [('':ID'', ''3'')]) (database (staff_server employee))
    = (Inr (\<lparr>errorCode = SQLITE_OK\<rparr>, \<lparr>colCount = 1, cells = [''9''], colNames = [''COLUMN'']\<rparr>), [])"
    by (simp add: query_scripted script_width_def isSelect_def service_texts)
  show "rowCount \<lparr>colCount = 1, cells = [''9''], colNames = [''COLUMN'']\<rparr> = Inr (Suc 0)" by (simp add: rowCount_def)
  show "cell \<lparr>colCount = 1, cells = [''9''], colNames = [''COLUMN'']\<rparr> 0 0 = Inr ''9''" by (simp add: cell_def)
  show "from_chars 64 ''9'' = Some 9" "from_chars 64 ''2'' = Some 2" by (simp_all add: sample_numbers)
  show "verify (req (staff_env (\<lambda>_. [[''9'']]))) employee (staff_server employee)"
    by (simp add: staff_facts del: append.simps)
  show "[''entry'' \<mapsto> ''3'', ''quantity'' \<mapsto> ''2''] ''entry'' = Some ''3''" by simp
qed (simp_all add: isOK_def elementOr_def hasElement_def getElement_def)

text \<open>C39. A request can be lost. When a manager authorises a request without giving a quote, the route
  deletes it from the requests that wait, then reads the missing element of the form and throws; the
  service was not opened, and the deletion stays. The guard at its start asks only for one of the two
  elements.\<close>

theorem authorise_without_quote_loses_request:
  assumes "b ''ID'' = Some i" and "i \<noteq> []" and "b ''quote'' = None" and "verify (req env) manager w"
    and "query (api env) findWaitingSQL (iter env [('':ID'', i)]) (database w)
      = (Inr (c1, res), db1)" and "isOK c1" and "rowCount res = Inr 1"
    and "query (api env) dropWaitingSQL (iter env [('':ID'', i)]) db1
      = (Inr (c2, res2), db2)" and "isOK c2"
  shows "authoriseRequest env b q w = (Inl Out_of_range, w\<lparr>database := db2\<rparr>)"
proof -
  obtain u where u: "getSessionUser (req env) w = Some u" using verify_user [OF assms(4)] by blast
  then have "getSessionUser (req env) (w\<lparr>database := db\<rparr>) = Some u" for db
    by (simp add: getSessionUser_def split: option.splits)
  moreover obtain nt where "elementOr b ''notes'' [] = Inr nt"
    by (cases "hasElement b ''notes'' False") (auto simp: elementOr_def dest: hasElement_getElement)
  ultimately show ?thesis
    using assms by (simp add: authoriseRequest_def running hasElement_def getElement_def valueOf_def)
qed

theorem authorise_without_quote_loses_request_witness:
  "authoriseRequest (staff_env (\<lambda>_. [[''3'']])) [''ID'' \<mapsto> ''3''] Map.empty (staff_server manager) =
    (Inl Out_of_range, (staff_server manager)\<lparr>database :=
      [(''DELETE FROM UNAUTHORISEDSERVICES WHERE SERVICE = :ID'', [''3''])]\<rparr>)"
proof (rule authorise_without_quote_loses_request)
  show "query (api (staff_env (\<lambda>_. [[''3'']]))) findWaitingSQL
      (iter (staff_env (\<lambda>_. [[''3'']])) [('':ID'', ''3'')]) (database (staff_server manager))
    = (Inr (\<lparr>errorCode = SQLITE_OK\<rparr>, \<lparr>colCount = 1, cells = [''3''], colNames = [''COLUMN'']\<rparr>), [])"
    by (simp add: query_scripted script_width_def isSelect_def service_texts)
  show "query (api (staff_env (\<lambda>_. [[''3'']]))) dropWaitingSQL
      (iter (staff_env (\<lambda>_. [[''3'']])) [('':ID'', ''3'')]) []
    = (Inr (\<lparr>errorCode = SQLITE_OK\<rparr>, \<lparr>colCount = 1, cells = [''3''], colNames = [''COLUMN'']\<rparr>),
       [(''DELETE FROM UNAUTHORISEDSERVICES WHERE SERVICE = :ID'', [''3''])])"
    by (simp add: query_scripted script_width_def isSelect_def service_texts)
  show "verify (req (staff_env (\<lambda>_. [[''3'']]))) manager (staff_server manager)"
    by (simp add: staff_facts del: append.simps)
qed (simp_all add: isOK_def rowCount_def)

end
