(* ===== verification/Console.thy ===== *)
theory Console
  imports Handlers
begin

text \<open>
  The text console of the server (\<^verbatim>\<open>Server/src/Source.cpp\<close>) and the table printer that it shares with
  the debugging route of \<^verbatim>\<open>Server/src/Network.cpp\<close>. The standard input is the list of its lines;
  the file system and \<^verbatim>\<open>sqlite3_open\<close> are parameters.
\<close>

section \<open>Printing a table\<close>

definition widen :: "nat list \<Rightarrow> nat \<Rightarrow> string \<Rightarrow> nat list" where
  "widen sizes c s = (if length s > sizes ! c then sizes[c := length s] else sizes)"

text \<open>The widths after the loop over the cells.\<close>

definition columnSizes :: "SQLResult \<Rightarrow> nat \<Rightarrow> fault + nat list" where
  "columnSizes r n =
     foldE (\<lambda>row sizes. foldE (\<lambda>c sizes. bindE (cell r row c) (\<lambda>v. Inr (widen sizes c v))) [0..<columnCount r] sizes)
       [0..<n] (replicate (columnCount r) 0)"

definition paddedCell :: "nat list \<Rightarrow> nat \<Rightarrow> string \<Rightarrow> string" where
  "paddedCell sizes c s = s @ replicate (sizes ! c - length s) CHR '' '' @ ''|''"

text \<open>The header row, which also widens the columns to their names, and one row of cells.\<close>

definition printHeader :: "SQLResult \<Rightarrow> nat list \<Rightarrow> fault + nat list \<times> string" where
  "printHeader r sizes =
     foldE (\<lambda>c (sizes, out). bindE (getColName r c) (\<lambda>name.
       let sizes = widen sizes c name in Inr (sizes, out @ paddedCell sizes c name))) [0..<columnCount r] (sizes, ''|'')"

definition printRow :: "SQLResult \<Rightarrow> nat list \<Rightarrow> nat \<Rightarrow> fault + string" where
  "printRow r sizes row =
     foldE (\<lambda>c out. bindE (cell r row c) (\<lambda>v. Inr (out @ paddedCell sizes c v))) [0..<columnCount r] ''|''"

text \<open>The lines of the table, without their ends.\<close>

definition tableLines :: "SQLResult \<Rightarrow> nat \<Rightarrow> fault + string list" where
  "tableLines r n =
     bindE (columnSizes r n) (\<lambda>sizes.
     bindE (printHeader r sizes) (\<lambda>(sizes, header).
     foldE (\<lambda>row out. bindE (printRow r sizes row) (\<lambda>l. Inr (out @ [l]))) [0..<n] [header]))"

definition tableText :: "SQLResult \<Rightarrow> nat \<Rightarrow> fault + string" where
  "tableText r n = bindE (tableLines r n) (\<lambda>ls. Inr (concat (map (\<lambda>l. l @ ''\<newline>'') ls)))"

definition printResult :: "SQLResult \<Rightarrow> ('db server, unit) prog" where
  "printResult r =
     (if columnCount r = 0 then returnP ()
      else bind (liftE (rowCount r)) (\<lambda>n.
        if n = 0 then returnP ()
        else bind (liftE (tableText r n)) cout))"

section \<open>Commands\<close>

record 'db host =
  readFile :: "string \<Rightarrow> string option"
  sqlite3_open :: "string \<Rightarrow> 'db \<times> bool"

definition schemaSQL :: string where
  "schemaSQL = ''SELECT name FROM sqlite_schema WHERE type='' @ [CHR 0x27] @ ''table'' @ [CHR 0x27] @ '' ORDER BY name''"

text \<open>
  A command gets its argument as a view. When the line has no blank, the length of that view wraps
  around to the largest \<^verbatim>\<open>size_t\<close> and its data starts behind the line, which is \<open>None\<close>: copying it
  into a string throws, and reading it as a C string is undefined.
\<close>

definition displayTables :: "('db, 'st) env \<Rightarrow> string option \<Rightarrow> ('db server, unit) prog" where
  "displayTables env args =
     bind (dbQuery env schemaSQL []) (\<lambda>(code, data).
     if \<not> isOK code then cout ''Error accessing database metadata.\<newline>'' else printResult data)"

definition displayRows :: "('db, 'st) env \<Rightarrow> string option \<Rightarrow> ('db server, unit) prog" where
  "displayRows env args =
     (case args of
        None \<Rightarrow> liftE (Inl Length_error)
      | Some args \<Rightarrow>
          bind (dbQuery env (''SELECT * FROM '' @ args) []) (\<lambda>(code, data).
          if \<not> isOK code then cout ''Error displaying table rows.\<newline>'' else printResult data))"

text \<open>The lines that \<^verbatim>\<open>std::getline\<close> gives for a text.\<close>

function fileLines :: "string \<Rightarrow> string list" where
  "fileLines s =
     (if s = [] then []
      else case split_at CHR ''\<newline>'' s of (l, None) \<Rightarrow> [l] | (l, Some rest) \<Rightarrow> l # fileLines rest)"
  by pat_completeness auto
termination
  by (relation "measure length") (auto dest: length_split_at [OF sym])

declare fileLines.simps [simp del]

fun execLines :: "('db, 'st) env \<Rightarrow> string list \<Rightarrow> ('db server, unit) prog" where
  "execLines env [] = returnP ()"
| "execLines env (line # rest) =
     (if line = [] then execLines env rest
      else
      seq (cout (''>># '' @ line @ ''\<newline>''))
     (bind (dbQuery env line []) (\<lambda>(status, result).
      if \<not> isOK status then cout ''!!! Command failed, stopping autoexecution.\<newline>''
      else
      seq (if columnCount result > 0 then seq (cout ''Output:\<newline>'') (printResult result) else returnP ())
          (execLines env rest))))"

definition autoexec :: "('db, 'st) env \<Rightarrow> 'db host \<Rightarrow> string option \<Rightarrow> ('db server, unit) prog" where
  "autoexec env host args =
     (case args of
        None \<Rightarrow> liftE (Inl Undefined_behaviour)
      | Some args \<Rightarrow>
          (case readFile host args of
             None \<Rightarrow> cout ''Error opening file.\<newline>''
           | Some text \<Rightarrow> seq (execLines env (fileLines text)) (cout ''Done.\<newline>'')))"

definition load :: "'db host \<Rightarrow> string option \<Rightarrow> ('db server, unit) prog" where
  "load host args =
     (case args of
        None \<Rightarrow> liftE (Inl Undefined_behaviour)
      | Some args \<Rightarrow>
          seq (modify (\<lambda>w. w\<lparr>database := fst (sqlite3_open host args)\<rparr>))
              (if \<not> snd (sqlite3_open host args) then cout (''Failed to open '' @ args @ ''.\<newline>'')
               else cout ''Opened DB file.\<newline>''))"

text \<open>The table of control sequences.\<close>

definition generateControlSequences ::
  "('db, 'st) env \<Rightarrow> 'db host \<Rightarrow> (string \<times> (string option \<Rightarrow> ('db server, unit) prog)) list" where
  "generateControlSequences env host =
     [(''dt'', displayTables env), (''dr'', displayRows env), (''ax'', autoexec env host), (''ld'', load host)]"

abbreviation BACKSLASH :: char where "BACKSLASH \<equiv> CHR 0x5C"

text \<open>
  The loop of \<^verbatim>\<open>db\<close>. At the end of the input \<^verbatim>\<open>std::getline\<close> fails and leaves the line as it is (or
  makes it empty), so that the loop never ends.
\<close>

fun db_loop :: "('db, 'st) env \<Rightarrow> 'db host \<Rightarrow> string list \<Rightarrow> ('db server, unit) prog" where
  "db_loop env host [] = liftE (Inl Diverges)"
| "db_loop env host (input # rest) =
     (case input of
        [] \<Rightarrow> db_loop env host rest
      | c # cs \<Rightarrow>
          if c = BACKSLASH then
            if cs = [] then seq (cout ''Error: Empty control sequence.\<newline>'') (db_loop env host rest)
            else (case split_at CHR '' '' cs of (name, args) \<Rightarrow>
              if name = [BACKSLASH] then returnP ()
              else (case map_of (generateControlSequences env host) name of
                      None \<Rightarrow> seq (cout ''Error: Invalid control sequence.\<newline>'') (db_loop env host rest)
                    | Some command \<Rightarrow> seq (command args) (db_loop env host rest)))
          else
            seq (bind (dbQuery env input []) (\<lambda>(status, result).
                 if isOK status then seq (printResult result) (cout ''Done.\<newline>'')
                 else cout ''SQL execution failed.\<newline>''))
                (db_loop env host rest))"

text \<open>\<^verbatim>\<open>main\<close> up to the call of \<^verbatim>\<open>net\<close>: \<open>Inr False\<close> is the failure to open the database, after which the
  process terminates.\<close>

definition adminSQL :: string where
  "adminSQL = ''INSERT INTO USERS(ID, USERNAME, PASSWORD, PERMISSIONS) VALUES(0, '' @
     [QUOTE] @ ''ADMIN'' @ [QUOTE] @ '', :HAS, 3);''"

definition main :: "('db, 'st) env \<Rightarrow> 'db host \<Rightarrow> bool \<Rightarrow> string list \<Rightarrow> ('db server, bool) prog" where
  "main env host isOpen input =
     (if \<not> isOpen then seq (cout ''Failed to open database.\<newline>'') (returnP False)
      else
      seq (modify (\<lambda>w. w\<lparr>sessions := Map.empty\<rparr>))
     (seq (cout ''Database ready:\<newline>'')
     (seq (db_loop env host input)
     (bind (dbQuery env adminSQL [('':HAS'', hash ''ADMIN'')]) (\<lambda>(status, result).
      seq (if \<not> isOK status then cout ''Admin user not added.\<newline>'' else returnP ())
          (returnP True))))))"

section \<open>The printed table\<close>

lemma foldE_append: "foldE f (xs @ ys) a = bindE (foldE f xs a) (foldE f ys)"
proof (induction xs arbitrary: a)
  case (Cons x xs)
  then show ?case by (cases "f x a") simp_all
qed simp

lemma foldE_upt:
  assumes "\<And>i a. i < n \<Longrightarrow> Q i a \<Longrightarrow> \<exists>a'. f i a = Inr a' \<and> Q (Suc i) a'" "Q 0 a"
  shows "\<exists>a'. foldE f [0..<n] a = Inr a' \<and> Q n a'"
  using assms
proof (induction n)
  case (Suc n)
  then obtain a' where "foldE f [0..<n] a = Inr a'" "Q n a'" by (metis less_SucI)
  with Suc.prems(1) [of n a'] show ?case by (auto simp: foldE_append)
qed simp

text \<open>A result of \<open>n\<close> rows in which every cell and every column name can be read.\<close>

definition readable :: "SQLResult \<Rightarrow> nat \<Rightarrow> (nat \<Rightarrow> nat \<Rightarrow> string) \<Rightarrow> (nat \<Rightarrow> string) \<Rightarrow> bool" where
  "readable r n v name \<longleftrightarrow> (\<forall>i < n. \<forall>c < columnCount r. cell r i c = Inr (v i c)) \<and>
     (\<forall>c < columnCount r. getColName r c = Inr (name c))"

lemma length_widen [simp]: "length (widen sizes c s) = length sizes"
  by (simp add: widen_def)

lemma widen_nth: "c < length sizes \<Longrightarrow> widen sizes c s ! d = (if d = c then max (sizes ! c) (length s) else sizes ! d)"
  by (auto simp: widen_def nth_list_update)

lemma columnSizes_covers:
  assumes "readable r n v name"
  shows "\<exists>sizes. columnSizes r n = Inr sizes \<and> length sizes = columnCount r \<and>
    (\<forall>i < n. \<forall>c < columnCount r. length (v i c) \<le> sizes ! c)"
  unfolding columnSizes_def
proof (rule foldE_upt)
  fix i sizes
  assume i: "i < n" and Q: "length sizes = columnCount r \<and> (\<forall>j < i. \<forall>c < columnCount r. length (v j c) \<le> sizes ! c)"
  have "\<exists>sizes'. foldE (\<lambda>c sizes. bindE (cell r i c) (\<lambda>v. Inr (widen sizes c v))) [0..<columnCount r] sizes = Inr sizes' \<and>
    length sizes' = columnCount r \<and> (\<forall>c < columnCount r. sizes ! c \<le> sizes' ! c) \<and> (\<forall>c < columnCount r. length (v i c) \<le> sizes' ! c)"
  proof (rule foldE_upt [where Q = "\<lambda>k sizes'. length sizes' = columnCount r \<and>
      (\<forall>c < columnCount r. sizes ! c \<le> sizes' ! c) \<and> (\<forall>d < k. length (v i d) \<le> sizes' ! d)"])
    fix c sizes'
    assume "c < columnCount r" "length sizes' = columnCount r \<and> (\<forall>c < columnCount r. sizes ! c \<le> sizes' ! c) \<and>
      (\<forall>d < c. length (v i d) \<le> sizes' ! d)"
    then show "\<exists>a'. bindE (cell r i c) (\<lambda>v. Inr (widen sizes' c v)) = Inr a' \<and> length a' = columnCount r \<and>
        (\<forall>c < columnCount r. sizes ! c \<le> a' ! c) \<and> (\<forall>d < Suc c. length (v i d) \<le> a' ! d)"
      using i assms by (auto simp: readable_def widen_nth less_Suc_eq le_max_iff_disj)
  qed (use Q in simp)
  then show "\<exists>a'. foldE (\<lambda>c sizes. bindE (cell r i c) (\<lambda>v. Inr (widen sizes c v))) [0..<columnCount r] sizes = Inr a' \<and>
      length a' = columnCount r \<and> (\<forall>j < Suc i. \<forall>c < columnCount r. length (v j c) \<le> a' ! c)"
    using Q by (fastforce simp: less_Suc_eq)
qed simp

definition lineWidth :: "nat list \<Rightarrow> nat \<Rightarrow> nat" where
  "lineWidth sizes c = Suc (\<Sum>d < c. Suc (sizes ! d))"

lemma length_paddedCell: "length s \<le> sizes ! c \<Longrightarrow> length (paddedCell sizes c s) = Suc (sizes ! c)"
  by (simp add: paddedCell_def)

lemma printHeader_width:
  assumes "readable r n v name" "length sizes = columnCount r"
  shows "\<exists>sizes' out. printHeader r sizes = Inr (sizes', out) \<and> length out = lineWidth sizes' (columnCount r) \<and>
    (\<forall>c < columnCount r. sizes ! c \<le> sizes' ! c)"
proof -
  let ?Q = "\<lambda>c (sizes', out :: string). length sizes' = columnCount r \<and> (\<forall>d < columnCount r. sizes ! d \<le> sizes' ! d) \<and>
    length out = lineWidth sizes' c"
  have "\<exists>a'. printHeader r sizes = Inr a' \<and> ?Q (columnCount r) a'"
    unfolding printHeader_def
  proof (rule foldE_upt [where Q = ?Q])
    fix c and a :: "nat list \<times> string" assume c: "c < columnCount r" and Q: "?Q c a"
    obtain sz out where a: "a = (sz, out)" by (cases a)
    let ?sz = "widen sz c (name c)"
    have "lineWidth ?sz (Suc c) = lineWidth sz c + Suc (?sz ! c)"
      using c Q a by (simp add: lineWidth_def widen_nth)
    moreover have "length (paddedCell ?sz c (name c)) = Suc (?sz ! c)"
      using c Q a by (intro length_paddedCell) (simp add: widen_nth)
    ultimately show "\<exists>a'. (case a of (sizes, out) \<Rightarrow> bindE (getColName r c) (\<lambda>name.
        let sizes = widen sizes c name in Inr (sizes, out @ paddedCell sizes c name))) = Inr a' \<and> ?Q (Suc c) a'"
      using c Q a assms(1) by (auto simp: readable_def Let_def widen_nth le_max_iff_disj)
  qed (use assms(2) in \<open>simp add: lineWidth_def\<close>)
  then show ?thesis by auto
qed

lemma printRow_width:
  assumes "readable r n v name" "i < n" "\<And>c. c < columnCount r \<Longrightarrow> length (v i c) \<le> sizes ! c"
  shows "\<exists>out. printRow r sizes i = Inr out \<and> length out = lineWidth sizes (columnCount r)"
  unfolding printRow_def
proof (rule foldE_upt)
  fix c and out :: string assume "c < columnCount r" "length out = lineWidth sizes c"
  then show "\<exists>a'. bindE (cell r i c) (\<lambda>v. Inr (out @ paddedCell sizes c v)) = Inr a' \<and> length a' = lineWidth sizes (Suc c)"
    using assms by (simp add: readable_def length_paddedCell lineWidth_def)
qed (simp add: lineWidth_def)

lemma tableLines_width:
  assumes "readable r n v name"
  shows "\<exists>ls k. tableLines r n = Inr ls \<and> length ls = Suc n \<and> list_all (\<lambda>l. length l = k) ls"
proof -
  obtain sizes where s: "columnSizes r n = Inr sizes" "length sizes = columnCount r"
    and le: "\<And>i c. i < n \<Longrightarrow> c < columnCount r \<Longrightarrow> length (v i c) \<le> sizes ! c"
    using columnSizes_covers [OF assms] by blast
  obtain sizes' out where h: "printHeader r sizes = Inr (sizes', out)" "length out = lineWidth sizes' (columnCount r)"
    and le': "\<And>c. c < columnCount r \<Longrightarrow> sizes ! c \<le> sizes' ! c"
    using printHeader_width [OF assms s(2)] by blast
  let ?k = "lineWidth sizes' (columnCount r)"
  have "\<exists>ls. foldE (\<lambda>row out. bindE (printRow r sizes' row) (\<lambda>l. Inr (out @ [l]))) [0..<n] [out] = Inr ls \<and>
    length ls = Suc n \<and> list_all (\<lambda>l. length l = ?k) ls"
  proof (rule foldE_upt)
    fix i and ls :: "string list" assume i: "i < n" and Q: "length ls = Suc i \<and> list_all (\<lambda>l. length l = ?k) ls"
    have "length (v i c) \<le> sizes' ! c" if "c < columnCount r" for c
      using le [OF i that] le' [OF that] by linarith
    from printRow_width [OF assms i this] Q
    show "\<exists>a'. bindE (printRow r sizes' i) (\<lambda>l. Inr (ls @ [l])) = Inr a' \<and> length a' = Suc (Suc i) \<and>
        list_all (\<lambda>l. length l = ?k) a'"
      by auto
  qed (use h in simp)
  with s h show ?thesis by (auto simp: tableLines_def)
qed

lemma query_readable:
  assumes "query sql SQL ps db = (Inr (c, r), db')" "rowCount r = Inr n"
  shows "\<exists>v name. readable r n v name"
proof -
  have names: "length (colNames r) = columnCount r"
    using assms(1) by (auto simp: query_def execute_def emptyResult_def columnCount_def
        split: if_splits option.splits sum.splits prod.splits)
  have "\<forall>i < n. \<forall>c < columnCount r. \<exists>x. cell r i c = Inr x"
    using sqlite.cell_in_range [OF assms] by blast
  then obtain v where "\<forall>i < n. \<forall>c < columnCount r. cell r i c = Inr (v i c)" by metis
  with names show ?thesis
    by (intro exI [of _ v] exI [of _ "\<lambda>c. colNames r ! c"]) (simp add: readable_def getColName_def)
qed

section \<open>Ending the console\<close>

definition exitLine :: "string \<Rightarrow> bool" where
  "exitLine input \<longleftrightarrow> take 2 input = [BACKSLASH, BACKSLASH] \<and> (drop 2 input = [] \<or> hd (drop 2 input) = CHR '' '')"

lemma exitLine_Cons:
  "exitLine (c # cs) \<longleftrightarrow> c = BACKSLASH \<and> cs \<noteq> [] \<and> fst (split_at CHR '' '' cs) = [BACKSLASH]"
proof (cases cs)
  case (Cons d ds)
  then show ?thesis by (cases ds) (auto simp: exitLine_def split: prod.splits)
qed (simp add: exitLine_def)

lemma db_loop_needs_exit:
  fixes env :: "('db, 'st) env"
  shows "db_loop env host input w = (Inr (), w') \<Longrightarrow> list_ex exitLine input"
proof (induction input arbitrary: w)
  case Nil
  then show ?case by (simp add: liftE_def)
next
  case (Cons line rest)
  have step: "list_ex exitLine rest" if "seq m (db_loop env host rest) w = (Inr (), w')" for m :: "('db server, unit) prog"
    using that Cons.IH by (auto simp: seq_def dest!: bind_returns)
  show ?case
  proof (cases line)
    case Nil
    with Cons show ?thesis by simp
  next
    fix c cs assume l: "line = c # cs"
    show ?thesis
    proof (cases "exitLine line")
      case False
      with Cons.prems l show ?thesis
        by (auto simp: exitLine_Cons split: if_splits prod.splits option.splits dest!: step dest: Cons.IH)
    qed simp
  qed
qed

section \<open>Properties\<close>

text \<open>Tables are printed aligned and without a fault. For the result of any query that has columns,
  the printer reads only cells and names that exist, and it prints one line for the names and one for
  each row, all of the same length.\<close>

theorem table_aligned:
  assumes "query sql SQL ps db = (Inr (c, r), db')" and "rowCount r = Inr n"
  shows "\<exists>ls k. tableLines r n = Inr ls \<and> length ls = Suc n \<and> list_all (\<lambda>l. length l = k) ls"
  using query_readable [OF assms] tableLines_width by blast

theorem table_aligned_witness:
  "\<exists>ls k. tableLines \<lparr>colCount = 1, cells = [''7'', ''NULL''], colNames = [''ID'']\<rparr> 2 = Inr ls \<and>
    length ls = Suc 2 \<and> list_all (\<lambda>l. length l = k) ls"
proof (rule table_aligned)
  show "query tiny_sqlite ''SELECT ID FROM USERS'' [] 0
      = (Inr (\<lparr>errorCode = SQLITE_OK\<rparr>, \<lparr>colCount = 1, cells = [''7'', ''NULL''], colNames = [''ID'']\<rparr>), 0)"
    by (simp add: query_def execute_def emptyResult_def tiny_sqlite_def sqlite_codes readRow_def
        stepLoop.simps Let_def)
  show "rowCount \<lparr>colCount = 1, cells = [''7'', ''NULL''], colNames = [''ID'']\<rparr> = Inr 2"
    by (simp add: rowCount_def)
qed

text \<open>C34. The console can only be left by its exit command. If the start of the server reaches the network
  part, then one of the lines that were typed is a double backslash, alone or followed by a blank;
  with any other input, its end included, the console never returns.\<close>

theorem console_needs_exit_line:
  assumes "main env host True input w = (Inr x, w')"
  shows "list_ex exitLine input"
  using assms db_loop_needs_exit by (fastforce simp: main_def seq_def dest!: bind_returns)

theorem console_needs_exit_line_witness:
  "list_ex exitLine [''SELECT 1'', [BACKSLASH, BACKSLASH]]"
proof -
  have "\<exists>w'. main (sample_env (\<lambda>_. []) []) \<lparr>readFile = (\<lambda>_. None), sqlite3_open = (\<lambda>_. ([], True))\<rparr> True
     [''SELECT 1'', [BACKSLASH, BACKSLASH]] (sample_server Map.empty) = (Inr True, w')"
    by (simp add: main_def adminSQL_def seq_def bind_def modify_def cout_run dbQuery_def query_scripted script_width_def
        isSelect_def isOK_def printResult_def columnCount_def rowCount_def liftE_def returnP_def)
  then show ?thesis using console_needs_exit_line by blast
qed

end
