(* ===== verification/Server.thy ===== *)
theory Server
  imports ServiceRoutes Console
begin

text \<open>
  The route table of the server (\<^verbatim>\<open>net\<close> in \<^verbatim>\<open>Server/src/Network.cpp\<close>) with its three anonymous handlers,
  the states the server can reach, and the properties that hold for every route. Which entry
  uWebSockets selects for a request is its own matter: the properties are shown for every entry and
  every request.
\<close>

section \<open>The route table\<close>

text \<open>What is registered: a handler of the request and of the events of its body.\<close>

type_synonym ('db, 'st) endpoint = "('db, 'st) env \<Rightarrow> body_event list \<Rightarrow> ('db server, unit) prog"

definition wrapped :: "('db, 'st) handler \<Rightarrow> ('db, 'st) endpoint" where
  "wrapped h env events = HttpCallWrapper env h events"

definition direct :: "(('db, 'st) env \<Rightarrow> ('db server, unit) prog) \<Rightarrow> ('db, 'st) endpoint" where
  "direct h env events = h env"

definition debugDisplayTables :: "('db, 'st) env \<Rightarrow> ('db server, unit) prog" where
  "debugDisplayTables env =
     seq (cout ''Displaying tables:\<newline>'')
    (bind (dbQuery env schemaSQL []) (\<lambda>(tableCode, tables).
     seq (if \<not> isOK tableCode then cout ''Error accessing database metadata.\<newline>''
          else bind (liftE (rowCount tables)) (\<lambda>n.
            forEach [0..<n] () (\<lambda>x _ next_row.
              bind (liftE (cell tables x 0)) (\<lambda>name.
              seq (cout (name @ '':''))
             (bind (dbQuery env (''SELECT * FROM '' @ name) []) (\<lambda>(code, result).
              if \<not> isOK code then seq (cout ''Error displaying table rows.\<newline>'') (next_row ())
              else bind (liftE (if columnCount result = 0 then Inr 0 else rowCount result)) (\<lambda>m.
                if m = 0 then seq (cout '' empty.\<newline>'') (next_row ())
                else
                seq (cout ''\<newline>'')
               (bind (liftE (tableText result m)) (\<lambda>t.
                seq (cout t) (next_row ()))))))))
            (\<lambda>_. returnP ())))
         (emit (End []))))"

definition ping :: "('db, 'st) env \<Rightarrow> ('db server, unit) prog" where
  "ping env =
     seq (if hasSession (req env) then coutSession env '') pinged server.\<newline>''
          else cout ''Unknown user pinged server.\<newline>'')
         (emit (End []))"

definition badRequest :: "('db, 'st) env \<Rightarrow> ('db server, unit) prog" where
  "badRequest env = seq (emit (WriteStatus BADREQUEST)) (emit (End ''Bad request.''))"

definition net :: "(string \<times> string \<times> ('db, 'st) endpoint) list" where
  "net = [
     (''post'', ''/request'', wrapped authenticate),
     (''post'', ''/register'', wrapped registerUser),
     (''get'', ''/release'', direct deauthenticate),
     (''get'', ''/checkSession'', direct checkSession),
     (''post'', ''/user/create'', wrapped createUser),
     (''get'', ''/user/me'', wrapped getLocalUserData),
     (''get'', ''/user/search'', wrapped searchUsers),
     (''get'', ''/user/select'', wrapped selectUser),
     (''post'', ''/user/delete'', wrapped deleteUser),
     (''post'', ''/user/update'', wrapped updateUser),
     (''post'', ''/part/supplier/create'', wrapped createSupplier),
     (''post'', ''/part/supplier/update'', wrapped updateSupplier),
     (''get'', ''/part/supplier/search'', wrapped searchSuppliers),
     (''get'', ''/part/supplier/select'', wrapped selectSupplier),
     (''post'', ''/part/group/create'', wrapped createPartGroup),
     (''post'', ''/part/group/update'', wrapped updatePartGroup),
     (''get'', ''/part/group/search'', wrapped searchPartGroups),
     (''get'', ''/part/group/select'', wrapped selectPartGroup),
     (''post'', ''/part/create'', wrapped createPart),
     (''post'', ''/part/update'', wrapped updatePart),
     (''get'', ''/part/search'', wrapped searchParts),
     (''get'', ''/part/select'', wrapped selectPart),
     (''post'', ''/vehicle/create'', wrapped createVehicle),
     (''post'', ''/vehicle/update'', wrapped updateVehicle),
     (''post'', ''/vehicle/delete'', wrapped deleteVehicle),
     (''get'', ''/vehicle/select'', wrapped selectVehicle),
     (''post'', ''/service/create'', wrapped createRequest),
     (''post'', ''/service/authorise'', wrapped authoriseRequest),
     (''post'', ''/service/update'', wrapped updateService),
     (''post'', ''/service/close'', wrapped closeService),
     (''post'', ''/service/part/add'', wrapped addPartToService),
     (''post'', ''/service/part/remove'', wrapped removePartFromService),
     (''get'', ''/service/part/select'', wrapped selectServicePart),
     (''get'', ''/service/search'', wrapped searchServices),
     (''get'', ''/service/select'', wrapped selectService),
     (''get'', ''/debug/displayTables'', direct debugDisplayTables),
     (''any'', ''/ping'', direct ping),
     (''any'', ''/*'', direct badRequest)]"

section \<open>Wrapped handlers\<close>

lemma keeps_onData:
  "(\<And>b. keeps f (h env b q)) \<Longrightarrow> keeps f (respond INTERNALERROR) \<Longrightarrow> keeps f (onData env h q buffer events)"
  by (induction env h q buffer events rule: onData.induct) (auto simp: Let_def intro!: frame)

lemma keeps_wrapped: "(\<And>b q. keeps sessions (h env b q)) \<Longrightarrow> keeps sessions (wrapped h env events)"
  unfolding wrapped_def HttpCallWrapper_def by (auto intro!: frame keeps_onData)

lemma refuses_onData: "(\<And>b. refuses P (h env b q)) \<Longrightarrow> refuses P (onData env h q buffer events)"
  by (induction env h q buffer events rule: onData.induct)
    (auto simp: Let_def intro!: refusing refuses_seq)

lemma refuses_wrapped: "(\<And>b q. refuses P (h env b q)) \<Longrightarrow> refuses P (wrapped h env events)"
  unfolding wrapped_def HttpCallWrapper_def by (auto intro!: refusing refuses_onData)

section \<open>Every route answers once\<close>

text \<open>A request without a body, or with a body that arrives completely.\<close>

definition delivered :: "('db, 'st) env \<Rightarrow> body_event list \<Rightarrow> bool" where
  "delivered env events \<longleftrightarrow> contentLength (req env) = 0 \<or> (\<exists>chunks final live. events = upload chunks final live)"

lemma wrapped_answers:
  assumes "\<And>b q. answers (h env b q)" "delivered env events"
  shows "answers (wrapped h env events)"
  unfolding wrapped_def HttpCallWrapper_def
  using assms by (auto simp: delivered_def onData_upload intro!: answering)

lemmas handler_answers = authenticate.handler_answers registerUser.handler_answers createUser.handler_answers
  getLocalUserData.handler_answers searchUsers.handler_answers selectUser.handler_answers deleteUser.handler_answers
  updateUser.handler_answers createSupplier.handler_answers updateSupplier.handler_answers
  searchSuppliers.handler_answers selectSupplier.handler_answers createPartGroup.handler_answers
  updatePartGroup.handler_answers searchPartGroups.handler_answers selectPartGroup.handler_answers
  createPart.handler_answers updatePart.handler_answers searchParts.handler_answers selectPart.handler_answers
  createVehicle.handler_answers updateVehicle.handler_answers deleteVehicle.handler_answers
  selectVehicle.handler_answers createRequest.handler_answers authoriseRequest.handler_answers
  updateService.handler_answers closeService.handler_answers addPartToService.handler_answers
  removePartFromService.handler_answers selectServicePart.handler_answers searchServices.handler_answers
  selectService.handler_answers

lemma silent_forEach:
  assumes "\<And>i a k. (\<And>a. silent (k a)) \<Longrightarrow> silent (body i a k)" "\<And>a. silent (after a)"
  shows "silent (forEach is a body after)"
  by (induction "is" arbitrary: a) (simp_all add: assms)

lemma direct_answers:
  "answers (direct deauthenticate env events)" "answers (direct checkSession env events)"
  "answers (direct ping env events)" "answers (direct badRequest env events)"
  unfolding direct_def ping_def badRequest_def
  by (auto intro!: answering deauthenticate.handler_answers checkSession.handler_answers)

lemma debug_answers: "answers (direct debugDisplayTables env events)"
  unfolding direct_def debugDisplayTables_def by (auto intro!: answering silent_forEach)

lemma net_answers:
  assumes "(m, p, h) \<in> set net" "delivered env events"
  shows "answers (h env events)"
  using assms(1) unfolding net_def set_simps
  by (elim insertE emptyE Pair_inject)
    (simp_all add: wrapped_answers [OF _ assms(2)] handler_answers direct_answers debug_answers)

section \<open>Guards\<close>

text \<open>What a route asks of the session of a request.\<close>

datatype need = AtLeast authLevel | SomeSession

fun lacks :: "need \<Rightarrow> http_request \<Rightarrow> (nat \<rightharpoonup> session) \<Rightarrow> bool" where
  "lacks (AtLeast l) rq table = below rq l table"
| "lacks SomeSession rq table = anonymous rq table"

definition policy :: "(string \<times> need) list" where
  "policy = [
     (''/user/create'', AtLeast employee), (''/user/me'', SomeSession), (''/user/search'', AtLeast employee),
     (''/user/select'', AtLeast employee), (''/user/delete'', AtLeast employee), (''/user/update'', AtLeast employee),
     (''/part/supplier/create'', AtLeast manager), (''/part/supplier/update'', AtLeast manager),
     (''/part/supplier/search'', AtLeast employee), (''/part/supplier/select'', AtLeast employee),
     (''/part/group/create'', AtLeast manager), (''/part/group/update'', AtLeast manager),
     (''/part/group/search'', AtLeast employee), (''/part/group/select'', AtLeast employee),
     (''/part/create'', AtLeast manager), (''/part/update'', AtLeast manager),
     (''/part/search'', AtLeast employee), (''/part/select'', AtLeast employee),
     (''/vehicle/create'', SomeSession), (''/vehicle/update'', SomeSession), (''/vehicle/delete'', SomeSession),
     (''/vehicle/select'', SomeSession), (''/service/create'', SomeSession),
     (''/service/authorise'', AtLeast manager), (''/service/update'', AtLeast employee),
     (''/service/close'', AtLeast manager), (''/service/part/add'', AtLeast employee),
     (''/service/part/remove'', AtLeast employee), (''/service/part/select'', SomeSession),
     (''/service/search'', SomeSession), (''/service/select'', SomeSession)]"

definition publicPaths :: "string list" where
  "publicPaths = [''/request'', ''/register'', ''/release'', ''/checkSession'', ''/debug/displayTables'', ''/ping'', ''/*'']"

lemma refuses_createUser: "refuses (below (req env) employee) (createUser env b q)"
  unfolding createUser_def
  by (intro refuses_liftE refuses_if refuses_option refuses_respond refuses_verify refuses_gets_any) simp_all

lemma refuses_users:
  "refuses (anonymous (req env)) (getLocalUserData env b q)"
  "refuses (below (req env) employee) (searchUsers env b q)"
  "refuses (below (req env) employee) (selectUser env b q)"
  "refuses (below (req env) employee) (deleteUser env b q)"
  "refuses (below (req env) employee) (updateUser env b q)"
  unfolding getLocalUserData_def searchUsers_def selectUser_def deleteUser_def updateUser_def Let_def
  by (auto intro!: refusing)

lemma refuses_parts:
  "refuses (below (req env) manager) (createSupplier env b q)"
  "refuses (below (req env) manager) (updateSupplier env b q)"
  "refuses (below (req env) employee) (searchSuppliers env b q)"
  "refuses (below (req env) employee) (selectSupplier env b q)"
  "refuses (below (req env) manager) (createPartGroup env b q)"
  "refuses (below (req env) manager) (updatePartGroup env b q)"
  "refuses (below (req env) employee) (searchPartGroups env b q)"
  "refuses (below (req env) employee) (selectPartGroup env b q)"
  "refuses (below (req env) manager) (createPart env b q)"
  "refuses (below (req env) manager) (updatePart env b q)"
  "refuses (below (req env) employee) (searchParts env b q)"
  "refuses (below (req env) employee) (selectPart env b q)"
  unfolding createSupplier_def updateSupplier_def searchSuppliers_def selectSupplier_def createPartGroup_def
    updatePartGroup_def searchPartGroups_def selectPartGroup_def createPart_def updatePart_def searchParts_def
    selectPart_def Let_def
  by (auto intro!: refusing)

lemma refuses_vehicles:
  assumes "select_readonly (api env)"
  shows "refuses (anonymous (req env)) (createVehicle env b q)"
    "refuses (anonymous (req env)) (updateVehicle env b q)"
    "refuses (anonymous (req env)) (deleteVehicle env b q)"
    "refuses (anonymous (req env)) (selectVehicle env b q)"
  unfolding createVehicle_def updateVehicle_def deleteVehicle_def selectVehicle_def vehicleOwner_def
  by (auto simp: isSelect_def vehicle_texts intro!: refusing assms)

lemma refuses_services:
  assumes "select_readonly (api env)"
  shows "refuses (anonymous (req env)) (createRequest env b q)"
    "refuses (below (req env) manager) (authoriseRequest env b q)"
    "refuses (below (req env) employee) (updateService env b q)"
    "refuses (below (req env) manager) (closeService env b q)"
    "refuses (below (req env) employee) (addPartToService env b q)"
    "refuses (below (req env) employee) (removePartFromService env b q)"
    "refuses (anonymous (req env)) (selectServicePart env b q)"
    "refuses (anonymous (req env)) (searchServices env b q)"
    "refuses (anonymous (req env)) (selectService env b q)"
  unfolding createRequest_def authoriseRequest_def updateService_def closeService_def addPartToService_def
    removePartFromService_def selectServicePart_def searchServices_def selectService_def employeeOrNamedUser_def Let_def
  by (auto simp: isSelect_def service_texts intro!: refusing assms)

lemma net_refuses:
  assumes "select_readonly (api env)" "(m, p, h) \<in> set net" "map_of policy p = Some need"
  shows "refuses (lacks need (req env)) (h env events)"
proof -
  note services = refuses_services [OF assms(1)] refuses_vehicles [OF assms(1)]
  have l: "lacks (AtLeast l) rq = below rq l" "lacks SomeSession rq = anonymous rq" for l rq
    by (simp_all add: fun_eq_iff)
  show ?thesis
    using assms(2,3) unfolding net_def set_simps
    by (elim insertE emptyE Pair_inject)
      (auto simp: policy_def l intro!: refuses_wrapped refuses_createUser refuses_users refuses_parts services)
qed

section \<open>Where sessions come from\<close>

text \<open>
  The form that a request has handed to a handler: none without a body, and otherwise what the pieces of
  a body that was received completely, while the request existed, say together. A form has credentials
  when it has a user name and a password that are not empty.
\<close>

definition submitted :: "('db, 'st) env \<Rightarrow> body_event list \<Rightarrow> queryBase \<Rightarrow> bool" where
  "submitted env events b \<longleftrightarrow>
     (if contentLength (req env) = 0 then b = Map.empty
      else \<exists>chunks final. events = upload chunks final True \<and>
        parseURLValues (unescape env) (concat (map fst chunks) @ final) = Inr b)"

definition credentials :: "queryBase \<Rightarrow> string \<Rightarrow> string \<Rightarrow> bool" where
  "credentials b u p \<longleftrightarrow> b ''username'' = Some u \<and> u \<noteq> [] \<and> b ''password'' = Some p \<and> p \<noteq> []"

text \<open>The database says that the user name and the transformed password belong to exactly one user, with the number
  and the level of the session.\<close>

definition vouches :: "('db, 'st) env \<Rightarrow> 'db \<Rightarrow> string \<Rightarrow> string \<Rightarrow> session \<Rightarrow> bool" where
  "vouches env db u p s \<longleftrightarrow> (\<exists>code rows db' idText permText perm.
     query (api env) ''SELECT ID, PERMISSIONS FROM USERS WHERE USERNAME = :USR AND PASSWORD = :PWD''
       (iter env [('':USR'', u), ('':PWD'', hash p)]) db = (Inr (code, rows), db') \<and>
     isOK code \<and> rowCount rows = Inr 1 \<and>
     cell rows 0 0 = Inr idText \<and> from_chars 64 idText = Some (userID s) \<and>
     cell rows 0 1 = Inr permText \<and> from_chars 32 permText = Some perm \<and> sessionLevel s = authLevel_cast perm)"

text \<open>
  A visit: the path of the entry that was called, the environment with the request, what arrived of its body,
  and the database it found. It opens the session \<open>n\<close> as \<open>s\<close> when it logs in, directly or after a
  registration, with credentials that the database vouches for at that moment; and it closes the session \<open>n\<close>
  when it carries that number and logs out, or submits credentials for a new session.
\<close>

record ('db, 'st) visit =
  visitPath :: string
  visitEnv :: "('db, 'st) env"
  visitBody :: "body_event list"
  visitDatabase :: 'db

definition opens :: "('db, 'st) visit \<Rightarrow> nat \<Rightarrow> session \<Rightarrow> bool" where
  "opens v n s \<longleftrightarrow> n \<in> range (draws (visitEnv v)) \<and>
     (\<exists>b u p. submitted (visitEnv v) (visitBody v) b \<and> credentials b u p \<and>
       (visitPath v = ''/request'' \<and> vouches (visitEnv v) (visitDatabase v) u p s \<or>
        visitPath v = ''/register'' \<and> (\<exists>outcome db.
          query (api (visitEnv v)) ''INSERT INTO USERS (ID, USERNAME, PASSWORD, PERMISSIONS) VALUES (NULL, :USR, :PAS, 1);''
            (iter (visitEnv v) [('':USR'', u), ('':PAS'', p)]) (visitDatabase v) = (Inr outcome, db) \<and>
          vouches (visitEnv v) db u p s)))"

definition closes :: "('db, 'st) visit \<Rightarrow> nat \<Rightarrow> bool" where
  "closes v n \<longleftrightarrow> getSessionID (req (visitEnv v)) = Some n \<and>
     (visitPath v = ''/release'' \<or> visitPath v \<in> {''/request'', ''/register''} \<and>
        (\<exists>b u p. submitted (visitEnv v) (visitBody v) b \<and> credentials b u p))"

lemma released_iff: "released rq table n = Some s \<longleftrightarrow> table n = Some s \<and> getSessionID rq \<noteq> Some n"
  by (auto simp: released_def split: option.splits if_splits)

lemma released_le: "released rq table n = Some s \<Longrightarrow> table n = Some s"
  by (simp add: released_iff)

lemma loginRow_vouches:
  assumes "loginQuery env u p db = (Inr res, db')" "loginRow res uid perm"
  shows "vouches env db u p \<lparr>sessionLevel = authLevel_cast perm, userID = uid\<rparr>"
  using assms by (cases res) (auto simp: vouches_def loginQuery_def loginRow_def)

lemma credentials_contained:
  "credentials b u p \<Longrightarrow> containsAll b [''username'', ''password''] False \<and> anyEmpty b [''username'', ''password''] = Inr False"
  by (simp add: credentials_def hasElement_def getElement_def)

text \<open>What a login leaves in the session table.\<close>

lemma request_table:
  assumes "credentials b u p" "request env b w = (r, w')" "sessions w' n = Some s"
  shows "sessions w n = Some s \<and> getSessionID (req env) \<noteq> Some n \<or>
    n \<in> range (draws env) \<and> vouches env (database w) u p s"
proof -
  from request_sessions [OF assms(2)] credentials_contained [OF assms(1)]
  consider "sessions w' = released (req env) (sessions w)"
    | u' p' res db uid perm val where "b ''username'' = Some u'" "b ''password'' = Some p'"
      "loginQuery env u' p' (database w) = (Inr res, db)" "loginRow res uid perm" "val \<in> range (draws env)"
      "sessions w' = (released (req env) (sessions w))(val \<mapsto> \<lparr>sessionLevel = authLevel_cast perm, userID = uid\<rparr>)"
    by blast
  then show ?thesis
  proof cases
    case 1
    with assms(3) show ?thesis by (simp add: released_iff)
  next
    case 2
    with assms(1) have "vouches env (database w) u p \<lparr>sessionLevel = authLevel_cast perm, userID = uid\<rparr>"
      using loginRow_vouches [OF 2(3,4)] by (simp add: credentials_def)
    with 2(5,6) assms(3) show ?thesis by (cases "n = val") (auto simp: released_iff)
  qed
qed

lemma authenticate_table:
  assumes "authenticate env b q w = (r, w')" "sessions w' n = Some s"
  shows "sessions w n = Some s \<and> \<not> (getSessionID (req env) = Some n \<and> (\<exists>u p. credentials b u p)) \<or>
    n \<in> range (draws env) \<and> (\<exists>u p. credentials b u p \<and> vouches env (database w) u p s)"
proof (cases "\<exists>u p. credentials b u p")
  case True
  then obtain u p where c: "credentials b u p" by blast
  obtain x w1 where rq: "request env b w = (x, w1)" by fastforce
  have "sessions w' = sessions w1"
    using assms(1) rq credentials_contained [OF c]
    by (cases x) (auto simp: authenticate_def bind_def liftE_def emit_run seq_def returnP_def split: if_splits)
  with request_table [OF c rq] assms(2) c show ?thesis by metis
next
  case False
  then have "(if \<not> containsAll b [''username'', ''password''] False then Inr True
      else anyEmpty b [''username'', ''password'']) = (Inr True :: fault + bool)"
    by (auto simp: credentials_def hasElement_def getElement_def split: option.splits)
  with assms False show ?thesis by (auto simp: authenticate_def bind_def liftE_def respond_run simp del: containsAll.simps anyEmpty.simps)
qed

lemma register_table:
  assumes "registerUser env b q w = (r, w')" "sessions w' n = Some s"
  shows "sessions w n = Some s \<and> \<not> (r = Inr () \<and> getSessionID (req env) = Some n \<and> (\<exists>u p. credentials b u p)) \<or>
    n \<in> range (draws env) \<and> (\<exists>u p outcome db. credentials b u p \<and>
      query (api env) registerSQL (iter env [('':USR'', u), ('':PAS'', p)]) (database w) = (Inr outcome, db) \<and> vouches env db u p s)"
proof (cases "containsAll b [''username'', ''password''] False")
  case False
  with assms credentials_contained show ?thesis by (auto simp: registerUser_def respond_run simp del: containsAll.simps)
next
  case True
  then obtain u p where up: "b ''username'' = Some u" "b ''password'' = Some p"
    by (auto simp: containsAll_iff hasElement_def split: option.splits)
  obtain x db where q: "query (api env) registerSQL (iter env [('':USR'', u), ('':PAS'', p)]) (database w) = (x, db)" by fastforce
  have d: "dbCall env registerSQL [('':USR'', getElement b ''username''), ('':PAS'', getElement b ''password'')] w = (x, w\<lparr>database := db\<rparr>)"
    using up q by (simp add: dbCall_def getElement_def dbQuery_def)
  show ?thesis
  proof (cases x)
    case (Inl e)
    with assms True d show ?thesis by (auto simp: registerUser_def bind_def simp del: containsAll.simps)
  next
    case (Inr y)
    obtain c res where y: "y = (c, res)" by (cases y)
    obtain w1 where w1: "authenticate env b q w1 = (r, w')" "database w1 = db" "sessions w1 = sessions w"
      using assms(1) True d Inr y up
      by (cases "isOK c") (auto simp: registerUser_def bind_Inr getElement_def cout_run seq_def simp del: containsAll.simps)
    from authenticate_table [OF w1(1) assms(2)] show ?thesis
      using w1(2,3) q Inr up by (auto simp: credentials_def)
  qed
qed

text \<open>What can arrive of a body: pieces, and then the last piece or the end of the connection, or nothing yet.\<close>

definition arrival :: "body_event list \<Rightarrow> bool" where
  "arrival events \<longleftrightarrow> (\<exists>chunks. events = map (\<lambda>(c, l). Data c False l) chunks \<or>
     events = map (\<lambda>(c, l). Data c False l) chunks @ [Aborted] \<or> (\<exists>final live. events = upload chunks final live))"

lemma upload_inject: "upload chunks final live = upload chunks' final' live' \<longleftrightarrow> chunks = chunks' \<and> final = final' \<and> live = live'"
proof -
  have "inj (\<lambda>(c, l). Data c False l)" by (auto intro: injI)
  then show ?thesis by (auto simp: upload_def inj_map_eq_map)
qed

lemma upload_complete:
  "upload chunks' final live \<noteq> map (\<lambda>(c, l). Data c False l) chunks"
  "upload chunks' final live \<noteq> map (\<lambda>(c, l). Data c False l) chunks @ [Aborted]"
proof -
  have "Data final True live \<in> set (upload chunks' final live)" by (simp add: upload_def)
  moreover have "Data final True live \<notin> set (map (\<lambda>(c, l). Data c False l) chunks @ [Aborted])" by auto
  ultimately show "upload chunks' final live \<noteq> map (\<lambda>(c, l). Data c False l) chunks"
    "upload chunks' final live \<noteq> map (\<lambda>(c, l). Data c False l) chunks @ [Aborted]"
    by (metis Un_iff set_append)+
qed

lemma submitted_unique: "submitted env events b \<Longrightarrow> submitted env events b' \<Longrightarrow> b = b'"
  by (auto simp: submitted_def upload_inject split: if_splits)

lemma onData_incomplete:
  "onData env h q buffer (map (\<lambda>(c, l). Data c False l) chunks) = returnP ()"
  "onData env h q buffer (map (\<lambda>(c, l). Data c False l) chunks @ [Aborted]) = respond INTERNALERROR"
  by (induction chunks arbitrary: buffer) auto

text \<open>A wrapped handler runs on the form that was submitted, or not at all.\<close>

lemma wrapped_run:
  assumes "arrival events" "wrapped h env events w = (r, w')"
  obtains b q where "submitted env events b" "h env b q w = (r, w')"
  | "sessions w' = sessions w" "r = Inr () \<longrightarrow> \<not> (\<exists>b. submitted env events b)"
proof -
  have run: "HttpCallWrapper env h events w = (r, w')" using assms(2) by (simp add: wrapped_def)
  show thesis
  proof (cases "parseURLValues (unescape env) (getQuery (req env))")
    case (Inl e)
    with run that(2) show thesis by (auto simp: HttpCallWrapper_def bind_def liftE_def)
  next
    case (Inr q)
    note run = run [unfolded HttpCallWrapper_def Inr bind_liftE_run]
    show thesis
    proof (cases "contentLength (req env) = 0 \<or> contentLength (req env) > max_size env")
      case True
      with run that show thesis by (auto simp: submitted_def liftE_def split: if_splits)
    next
      case False
      then have on: "onData env h q [] events w = (r, w')" and len: "contentLength (req env) \<noteq> 0" using run by auto
      from assms(1) consider chunks where "events = map (\<lambda>(c, l). Data c False l) chunks \<or>
          events = map (\<lambda>(c, l). Data c False l) chunks @ [Aborted]" | chunks final live where "events = upload chunks final live"
        by (auto simp: arrival_def)
      then show thesis
      proof cases
        case 1
        then have "\<not> submitted env events b" for b using len upload_complete by (auto simp: submitted_def)
        moreover have "sessions w' = sessions w" using 1 on by (auto simp: onData_incomplete returnP_def respond_run)
        ultimately show thesis using that(2) by blast
      next
        case 2
        show thesis
          using on len that
          by (cases "parseURLValues (unescape env) (concat (map fst chunks) @ final)"; cases live)
            (auto simp: 2 onData_upload bind_def liftE_def submitted_def upload_inject)
      qed
    qed
  qed
qed

lemma session_routes:
  assumes "(m, p, h) \<in> set net" "p \<in> {''/request'', ''/register'', ''/release''}"
  shows "p = ''/request'' \<and> h = wrapped authenticate \<or> p = ''/register'' \<and> h = wrapped registerUser \<or>
    p = ''/release'' \<and> h = direct deauthenticate"
  using assms unfolding net_def set_simps by (elim insertE emptyE Pair_inject) simp_all

lemma deauthenticate_table: "deauthenticate env w = (r, w') \<Longrightarrow> sessions w' = released (req env) (sessions w)"
  by (auto simp: deauthenticate_def release_run released_def bind_def emit_run seq_def returnP_def split: option.splits if_splits)

lemma keeps_checkSession: "keeps sessions (checkSession env)"
  unfolding keeps_def checkSession_def
  by (auto simp: hasSession_def release_def getSessionAuthLevel_def valueOf_def bind_def liftE_def emit_run gets_def
      split: option.split sum.split)

lemmas handler_keeps = createUser.handler_keeps_sessions
  getLocalUserData.handler_keeps_sessions searchUsers.handler_keeps_sessions selectUser.handler_keeps_sessions
  deleteUser.handler_keeps_sessions updateUser.handler_keeps_sessions createSupplier.handler_keeps_sessions
  updateSupplier.handler_keeps_sessions searchSuppliers.handler_keeps_sessions selectSupplier.handler_keeps_sessions
  createPartGroup.handler_keeps_sessions updatePartGroup.handler_keeps_sessions
  searchPartGroups.handler_keeps_sessions selectPartGroup.handler_keeps_sessions createPart.handler_keeps_sessions
  updatePart.handler_keeps_sessions searchParts.handler_keeps_sessions selectPart.handler_keeps_sessions
  createVehicle.handler_keeps_sessions updateVehicle.handler_keeps_sessions deleteVehicle.handler_keeps_sessions
  selectVehicle.handler_keeps_sessions createRequest.handler_keeps_sessions authoriseRequest.handler_keeps_sessions
  updateService.handler_keeps_sessions closeService.handler_keeps_sessions addPartToService.handler_keeps_sessions
  removePartFromService.handler_keeps_sessions selectServicePart.handler_keeps_sessions
  searchServices.handler_keeps_sessions selectService.handler_keeps_sessions

lemma direct_keeps:
  "keeps sessions (direct checkSession env events)" "keeps sessions (direct debugDisplayTables env events)"
  "keeps sessions (direct ping env events)" "keeps sessions (direct badRequest env events)"
  unfolding direct_def debugDisplayTables_def ping_def badRequest_def
  by (auto intro!: frame keeps_checkSession)

lemma net_keeps_sessions:
  assumes "(m, p, h) \<in> set net" "p \<notin> set [''/request'', ''/register'', ''/release'']"
  shows "keeps sessions (h env events)"
  using assms unfolding net_def set_simps
  by (elim insertE emptyE Pair_inject) (simp_all add: keeps_wrapped handler_keeps direct_keeps)

lemma net_table:
  fixes w :: "'db server" and env :: "('db, 'st) env"
  assumes net: "(m, p, h) \<in> set net" and arr: "arrival events" and run: "h env events w = (r, w')" and n: "sessions w' n = Some s"
  defines "v \<equiv> \<lparr>visitPath = p, visitEnv = env, visitBody = events, visitDatabase = database w\<rparr>"
  shows "sessions w n = Some s \<and> (r = Inr () \<longrightarrow> \<not> closes v n) \<or> opens v n s"
proof (cases "p \<in> {''/request'', ''/register'', ''/release''}")
  case False
  then have "sessions w' = sessions w" using keepsD [OF net_keeps_sessions [OF net] run] by simp
  with n False show ?thesis by (auto simp: closes_def v_def)
next
  case True
  from session_routes [OF net True] consider "p = ''/request''" "h = wrapped authenticate"
    | "p = ''/register''" "h = wrapped registerUser" | "p = ''/release''" "h = direct deauthenticate" by blast
  then show ?thesis
  proof cases
    case 1
    from run have "wrapped authenticate env events w = (r, w')" by (simp add: 1)
    with arr show ?thesis
    proof (cases rule: wrapped_run)
      case (1 b q)
      from authenticate_table [OF 1(2) n] 1(1) \<open>p = _\<close> show ?thesis
        by (auto simp: opens_def closes_def v_def dest: submitted_unique)
    qed (use n \<open>p = _\<close> in \<open>auto simp: closes_def v_def\<close>)
  next
    case 2
    from run have "wrapped registerUser env events w = (r, w')" by (simp add: 2)
    with arr show ?thesis
    proof (cases rule: wrapped_run)
      case (1 b q)
      from register_table [OF 1(2) n] 1(1) \<open>p = _\<close> show ?thesis
        by (auto simp: opens_def closes_def v_def registerSQL_def dest: submitted_unique)
    qed (use n \<open>p = _\<close> in \<open>auto simp: closes_def v_def\<close>)
  next
    case 3
    then have "sessions w' = released (req env) (sessions w)" using run deauthenticate_table by (simp add: direct_def)
    with n 3 show ?thesis by (auto simp: closes_def v_def released_iff)
  qed
qed

section \<open>Histories\<close>

text \<open>
  The states between two requests, with the visits that led to them. The server starts with the console;
  then any route may be called with any request, anything of its body may arrive, and the random numbers are any
  below \<open>2 ^ 64\<close>. A fault ends the process, since no exception is caught, so that only calls that
  return lead on.
\<close>

inductive history :: "('db, 'st) sqlite3 \<Rightarrow> ('db, 'st) visit list \<Rightarrow> 'db server \<Rightarrow> bool" for sql where
  start: "api env = sql \<Longrightarrow> main env host True input w0 = (Inr True, w) \<Longrightarrow> history sql [] w"
| serve: "history sql vs w \<Longrightarrow> (m, p, h) \<in> set net \<Longrightarrow> api env = sql \<Longrightarrow> (\<And>i. draws env i < 2 ^ 64) \<Longrightarrow> arrival events \<Longrightarrow>
    h env events (w\<lparr>reply := []\<rparr>) = (Inr (), w') \<Longrightarrow>
    history sql (vs @ [\<lparr>visitPath = p, visitEnv = env, visitBody = events, visitDatabase = database w\<rparr>]) w'"

lemma opens_user: "opens v n s \<Longrightarrow> userID s < 2 ^ 64"
  by (auto simp: opens_def vouches_def dest: from_chars_bound)

lemma keeps_console:
  "keeps sessions (printResult r)" "keeps sessions (execLines env ls)" "keeps sessions (load host args)"
  "keeps sessions (displayTables env args)" "keeps sessions (displayRows env args)" "keeps sessions (autoexec env host args)"
proof -
  show r: "keeps sessions (printResult r)" for r :: SQLResult
    unfolding printResult_def by (auto intro!: frame)
  show e: "keeps sessions (execLines env ls)" for ls :: "string list"
    by (induction env ls rule: execLines.induct) (auto intro!: frame r)
  show "keeps sessions (load host args)" unfolding load_def by (auto intro!: frame keeps_modify)
  show "keeps sessions (displayTables env args)" unfolding displayTables_def by (auto intro!: frame r)
  show "keeps sessions (displayRows env args)" unfolding displayRows_def by (auto intro!: frame r)
  show "keeps sessions (autoexec env host args)" unfolding autoexec_def by (auto intro!: frame e)
qed

lemma keeps_command: "map_of (generateControlSequences env host) name = Some c \<Longrightarrow> keeps sessions (c args)"
  by (auto simp: generateControlSequences_def keeps_console split: if_splits)

lemma keeps_db_loop: "keeps sessions (db_loop env host input)"
proof (induction input)
  case (Cons line rest)
  then show ?case
    by (auto simp: keeps_command intro!: frame keeps_console split: list.split prod.split option.split)
qed (simp add: keeps_liftE)

lemma main_no_sessions:
  assumes "main env host True input w0 = (Inr x, w)"
  shows "sessions w = Map.empty"
proof -
  obtain w1 w2 w3 c r where "db_loop env host input w1 = (Inr (), w2)" "sessions w1 = Map.empty"
    "dbQuery env adminSQL [('':HAS'', hash ''ADMIN'')] w2 = (Inr (c, r), w3)" "sessions w = sessions w3"
    using assms by (fastforce simp: main_def seq_def cout_run returnP_def dest!: bind_returns split: if_splits)
  then show ?thesis
    using keepsD [OF keeps_db_loop] keepsD [OF keeps_dbQuery(1)] by metis
qed

lemma history_sessions:
  assumes "history sql vs w" "sessions w n = Some s"
  shows "n < 2 ^ 64 \<and> (\<exists>before v later. vs = before @ v # later \<and> opens v n s \<and> list_all (\<lambda>u. \<not> closes u n) later)"
  using assms
proof (induction rule: history.induct)
  case (start env host input w0 w)
  then show ?case using main_no_sessions [of env host input w0 True w] by simp
next
  case (serve vs w m p h env events w')
  let ?v = "\<lparr>visitPath = p, visitEnv = env, visitBody = events, visitDatabase = database w\<rparr>"
  from net_table [OF serve.hyps(2,5,6) serve.prems]
  consider "sessions w n = Some s" "\<not> closes ?v n" | "opens ?v n s" by auto
  then show ?case
  proof cases
    case 1
    then obtain before v later where "vs = before @ v # later" "opens v n s" "list_all (\<lambda>u. \<not> closes u n) later" "n < 2 ^ 64"
      using serve.IH by blast
    with 1(2) show ?thesis by (intro conjI exI [of _ before] exI [of _ v] exI [of _ "later @ [?v]"]) simp_all
  next
    case 2
    then have "n < 2 ^ 64" using serve.hyps(4) by (auto simp: opens_def)
    with 2 show ?thesis by (intro conjI exI [of _ vs] exI [of _ ?v] exI [of _ "[]"]) simp_all
  qed
qed

section \<open>A sample login\<close>

definition entry_env :: "(script_log, table_stmt) env" where
  "entry_env = (sample_env (\<lambda>_. [[''5'', ''2'']]) [])\<lparr>req := sample_request [] ''23''\<rparr>"

definition entry_body :: "body_event list" where
  "entry_body = upload [(''username=bob&pass'', True)] ''word=x'' True"

lemma sample_arrival: "arrival entry_body"
  by (auto simp: arrival_def entry_body_def)

lemma entry_form: "parseURLValues Some ''username=bob&password=x'' = Inr [''username'' \<mapsto> ''bob'', ''password'' \<mapsto> ''x'']"
  by (simp add: parseURLValues_def parseURLLoop.simps plusToSpace_def)

lemma sample_login:
  assumes "sessions w = Map.empty"
  shows "\<exists>w' val. wrapped authenticate entry_env entry_body w = (Inr (), w') \<and>
    sessions w' val = Some \<lparr>sessionLevel = authLevel_cast 2, userID = 5\<rparr>"
proof -
  let ?b = "[''username'' \<mapsto> ''bob'', ''password'' \<mapsto> ''x'']"
  have released_none: "released (req entry_env) (sessions w) n = None" for n
    using assms by (simp add: released_def split: option.split)
  have env: "contentLength (req entry_env) = 23" "max_size entry_env = 2 ^ 62" "unescape entry_env = Some" "getQuery (req entry_env) = []"
    by (simp_all add: entry_env_def contentLength_def from_chars_def is_digit_def num_val_def digit_val_def)
  have "wrapped authenticate entry_env entry_body w = authenticate entry_env ?b Map.empty w"
    using entry_form by (simp add: wrapped_def HttpCallWrapper_def entry_body_def onData_upload env parseURLValues_def [of _ "[]"] parseURLLoop.simps)
  moreover have "\<exists>db'. loginQuery entry_env ''bob'' ''x'' (database w) = (Inr (\<lparr>errorCode = SQLITE_OK\<rparr>,
      \<lparr>colCount = 2, cells = [''5'', ''2''], colNames = [''COLUMN'', ''COLUMN'']\<rparr>), db')"
    by (simp add: entry_env_def loginQuery_def query_scripted script_width_def isSelect_def)
  moreover have "loginRow (\<lparr>errorCode = SQLITE_OK\<rparr>, \<lparr>colCount = 2, cells = [''5'', ''2''], colNames = [''COLUMN'', ''COLUMN'']\<rparr>) 5 2"
    by (simp add: loginRow_def isOK_def rowCount_def cell_def from_chars_def num_val_def digit_val_def is_digit_def)
  ultimately show ?thesis
    using authenticate_granted [of ?b "''bob''" "''x''" entry_env w _ _ 5 2 0 Map.empty] released_none
    by simp blast
qed

section \<open>Properties\<close>

text \<open>C21. Every request is answered exactly once. For every entry of the route table and every request
  whose body, if it has one, arrives completely: when the call returns, exactly one of the calls it
  made on the response ends it, and that is the last one.\<close>

theorem every_request_answered_once:
  assumes "(m, p, h) \<in> set net" and "delivered env events" and "h env events w = (Inr (), w')"
  shows "\<exists>cs c. reply w' = reply w @ cs @ [c] \<and> list_all (\<lambda>c. \<not> is_end c) cs \<and> is_end c"
  using net_answers [OF assms(1,2)] assms(3) unfolding answers_def by blast

theorem every_request_answered_once_witness:
  "\<exists>cs c. [End []] = [] @ cs @ [c] \<and> list_all (\<lambda>c. \<not> is_end c) cs \<and> is_end c"
proof -
  let ?env = "sample_env (\<lambda>_. []) []"
  let ?w = "sample_server Map.empty"
  let ?w' = "?w\<lparr>console := ''Unknown user pinged server.\<newline>'', reply := [End []]\<rparr>"
  have "\<exists>cs c. reply ?w' = reply ?w @ cs @ [c] \<and> list_all (\<lambda>c. \<not> is_end c) cs \<and> is_end c"
  proof (rule every_request_answered_once)
    show "(''any'', ''/ping'', direct ping) \<in> set net" by (simp add: net_def)
    show "delivered ?env []" by (simp add: delivered_def contentLength_def)
    show "direct ping ?env [] ?w = (Inr (), ?w')"
      by (simp add: direct_def ping_def hasSession_def getSessionID_no_cookie emit_run)
  qed
  then show ?thesis by simp
qed

text \<open>C1. Requests without permission are refused. Every entry of the route table that is not public has
  a need, a permission level or a known session. A request that lacks it leaves the database and the
  session table as they are, whatever its body and its query are and however the call ends, and
  the calls it causes on the response carry nothing but status codes. Queries are assumed to follow
  the documentation of SQLite, by which a \<^verbatim>\<open>SELECT\<close> changes nothing.\<close>

theorem unauthorised_refused:
  assumes "select_readonly (api env)" and "(m, p, h) \<in> set net" and "p \<notin> set publicPaths"
  shows "\<exists>need. map_of policy p = Some need \<and> (lacks need (req env) (sessions w) \<longrightarrow>
    database (snd (h env events w)) = database w \<and> sessions (snd (h env events w)) = sessions w \<and>
    (\<exists>cs. reply (snd (h env events w)) = reply w @ cs \<and> list_all status_only cs))"
proof -
  have "map_of policy p \<noteq> None"
    using assms(2,3) unfolding net_def set_simps
    by (elim insertE emptyE Pair_inject) (simp_all add: policy_def publicPaths_def)
  then obtain need where "map_of policy p = Some need" by blast
  with net_refuses [OF assms(1,2) this, of events] show ?thesis by (auto simp: refuses_def)
qed

theorem unauthorised_refused_witness:
  "database (snd (wrapped deleteVehicle ((sample_env (\<lambda>_. [[''4'']]) [])\<lparr>req := sample_request [] ''4''\<rparr>)
      (upload [] ''ID=7'' True) (sample_server Map.empty))) = []"
proof -
  let ?env = "(sample_env (\<lambda>_. [[''4'']]) [])\<lparr>req := sample_request [] ''4''\<rparr>"
  have "select_readonly (api ?env)"
    by (simp add: scripted_select_readonly script_width_def)
  moreover have "(''post'', ''/vehicle/delete'', wrapped deleteVehicle) \<in> set net" by (simp add: net_def)
  moreover have "''/vehicle/delete'' \<notin> set publicPaths" by (simp add: publicPaths_def)
  ultimately obtain need where "map_of policy ''/vehicle/delete'' = Some need"
    "lacks need (req ?env) (sessions (sample_server Map.empty)) \<longrightarrow>
      database (snd (wrapped deleteVehicle ?env (upload [] ''ID=7'' True) (sample_server Map.empty)))
        = database (sample_server Map.empty)"
    using unauthorised_refused by blast
  then show ?thesis by (simp add: policy_def anonymous_def getSessionID_no_cookie)
qed

text \<open>C22. Sessions come from logins only. No route other than \<^verbatim>\<open>/request\<close>, \<^verbatim>\<open>/register\<close> and \<^verbatim>\<open>/release\<close>
  changes the session table. Whatever route is called and whatever arrives of the body, an entry of the table
  afterwards was there before, or the call opened it: the path is \<^verbatim>\<open>/request\<close> or \<^verbatim>\<open>/register\<close>, its number is one of
  those drawn, the form submitted has a user name and a password, and for that name and the transformed password the
  database, as the call found it or as the registration of that name and password left it, returned
  exactly one row, with the user number and the level of the entry. An entry that stays when the call returns is
  not one that the call had to close: a logout, or a form with credentials, ends the session it carries.\<close>

theorem sessions_from_logins:
  assumes "(m, p, h) \<in> set net" and "h env events w = (r, w')"
  shows "(p \<notin> set [''/request'', ''/register'', ''/release''] \<longrightarrow> sessions w' = sessions w) \<and>
    (arrival events \<longrightarrow> (\<forall>n s. sessions w' n = Some s \<longrightarrow>
       sessions w n = Some s \<and> (r = Inr () \<longrightarrow> \<not> closes \<lparr>visitPath = p, visitEnv = env, visitBody = events, visitDatabase = database w\<rparr> n) \<or>
       opens \<lparr>visitPath = p, visitEnv = env, visitBody = events, visitDatabase = database w\<rparr> n s))"
  using net_table [OF assms(1) _ assms(2)] keepsD [OF net_keeps_sessions [OF assms(1)] assms(2)] by blast

theorem sessions_from_logins_witness:
  "\<exists>w' val. wrapped authenticate entry_env entry_body (sample_server Map.empty) = (Inr (), w') \<and>
     sessions w' val = Some \<lparr>sessionLevel = authLevel_cast 2, userID = 5\<rparr> \<and>
     opens \<lparr>visitPath = ''/request'', visitEnv = entry_env, visitBody = entry_body, visitDatabase = []\<rparr> val \<lparr>sessionLevel = authLevel_cast 2, userID = 5\<rparr>"
proof -
  obtain w' val where run: "wrapped authenticate entry_env entry_body (sample_server Map.empty) = (Inr (), w')"
    "sessions w' val = Some \<lparr>sessionLevel = authLevel_cast 2, userID = 5\<rparr>"
    using sample_login [of "sample_server Map.empty"] by auto
  have "(''post'', ''/request'', wrapped authenticate) \<in> set net" by (simp add: net_def)
  from sessions_from_logins [OF this run(1)] sample_arrival run show ?thesis
    by (intro exI [of _ w'] exI [of _ val]) auto
qed

text \<open>C2. The invariant of the session table. After any history of requests, served with any bodies and any
  random numbers, every session has a number and a user number below \<open>2 ^ 64\<close>, and it goes back to a visit of
  that history which opened it: a login, or a registration followed by a login, with a form whose user
  name and password belong, by the database of that moment, to exactly one row with the user number and the level of
  the session. Since then nobody has logged out, or sent credentials again, with the number of the session.\<close>

theorem session_invariant:
  assumes "history sql vs w" and "sessions w n = Some s"
  shows "n < 2 ^ 64 \<and> userID s < 2 ^ 64 \<and>
    (\<exists>before v later. vs = before @ v # later \<and> opens v n s \<and> list_all (\<lambda>u. \<not> closes u n) later)"
  using history_sessions [OF assms] opens_user by blast

theorem session_invariant_witness:
  "\<exists>vs w val. history (scripted (\<lambda>_. [[''5'', ''2'']])) vs w \<and>
     sessions w val = Some \<lparr>sessionLevel = authLevel_cast 2, userID = 5\<rparr> \<and> val < 2 ^ 64 \<and>
     (\<exists>before v later. vs = before @ v # later \<and> opens v val \<lparr>sessionLevel = authLevel_cast 2, userID = 5\<rparr> \<and>
        list_all (\<lambda>u. \<not> closes u val) later)"
proof -
  let ?answer = "\<lambda>_. [[''5'', ''2'']]"
  have "\<exists>w0. main (sample_env ?answer []) \<lparr>readFile = (\<lambda>_. None), sqlite3_open = (\<lambda>_. ([], True))\<rparr> True
     [[BACKSLASH, BACKSLASH]] (sample_server Map.empty) = (Inr True, w0)"
    by (simp add: main_def adminSQL_def seq_def bind_def modify_def cout_run dbQuery_def query_scripted script_width_def
        isSelect_def isOK_def returnP_def)
  then obtain w0 where "main (sample_env ?answer []) \<lparr>readFile = (\<lambda>_. None), sqlite3_open = (\<lambda>_. ([], True))\<rparr> True
     [[BACKSLASH, BACKSLASH]] (sample_server Map.empty) = (Inr True, w0)" by blast
  note start = history.start [OF refl this, unfolded sample_env_simps] main_no_sessions [OF this]
  obtain w val where run: "wrapped authenticate entry_env entry_body (w0\<lparr>reply := []\<rparr>) = (Inr (), w)"
    "sessions w val = Some \<lparr>sessionLevel = authLevel_cast 2, userID = 5\<rparr>"
    using sample_login [of "w0\<lparr>reply := []\<rparr>"] start(2) by auto
  have entry: "(''post'', ''/request'', wrapped authenticate) \<in> set net" "api entry_env = scripted ?answer" "\<And>i. draws entry_env i < 2 ^ 64"
    by (simp_all add: net_def entry_env_def)
  note h = history.serve [OF start(1) entry sample_arrival run(1)]
  note inv = session_invariant [OF h run(2)]
  show ?thesis
    by (rule exI, rule exI [of _ w], rule exI [of _ val], intro conjI, rule h, rule run(2), rule conjunct1 [OF inv])
      (rule conjunct2 [OF conjunct2 [OF inv]])
qed

end
