(* ===== verification/Template.thy ===== *)
theory Template
  imports Response Query "HOL-Library.Sublist"
begin

text \<open>
  The template language HTMT of the translator (\<^verbatim>\<open>Translator/src/Source.cpp\<close>, lines 12 to 493): the
  search for the closing tag, conditions, the parser and the application of a template to a
  response. The sources name enumerators \<^verbatim>\<open>and\<close> and \<^verbatim>\<open>or\<close>, which only Microsoft's compiler accepts;
  accordingly a \<^verbatim>\<open>long\<close> has 32 bits.
\<close>

section \<open>Searching\<close>

text \<open>\<^verbatim>\<open>std::string_view::find\<close>; \<open>None\<close> is \<^verbatim>\<open>npos\<close>.\<close>

fun find_pos :: "string \<Rightarrow> string \<Rightarrow> nat option" where
  "find_pos pat [] = (if pat = [] then Some 0 else None)"
| "find_pos pat (c # cs) = (if prefix pat (c # cs) then Some 0 else map_option Suc (find_pos pat cs))"

text \<open>\<^verbatim>\<open>strncmp(&*it, pat, min(pat.size(), end - it)) == 0\<close>: at the end of the range a beginning of the
  pattern is enough.\<close>

definition matchHere :: "string \<Rightarrow> string \<Rightarrow> bool" where
  "matchHere pat s \<longleftrightarrow> take (min (length pat) (length s)) s = take (min (length pat) (length s)) pat"

text \<open>
  The loop of \<^verbatim>\<open>tagSearch\<close> on the text from the iterator to the end; the number counts what has been
  passed. After an opening tag the iterator moves over the tag and, by the increment of the loop, over
  one more character; beyond the end its behaviour is undefined. The depth starts at the largest
  \<^verbatim>\<open>size_t\<close>, so that the first opening tag wraps it to zero.
\<close>

function tagSearchLoop :: "string \<Rightarrow> string \<Rightarrow> 64 word \<Rightarrow> string \<Rightarrow> nat \<Rightarrow> fault + nat" where
  "tagSearchLoop pre post depth s pos =
     (case s of
        [] \<Rightarrow> Inr pos
      | c # cs \<Rightarrow>
          if c = hd pre \<and> matchHere pre s then
            if length s < length pre + 1 then Inl Undefined_behaviour
            else tagSearchLoop pre post (depth + 1) (drop (length pre + 1) s) (pos + length pre + 1)
          else if c = hd post \<and> matchHere post s then
            if depth = 0 then
              if length s < length post then Inl Undefined_behaviour else Inr (pos + length post)
            else tagSearchLoop pre post (depth - 1) cs (pos + 1)
          else tagSearchLoop pre post depth cs (pos + 1))"
  by pat_completeness auto
termination
  by (relation "measure (\<lambda>(_, _, _, s, _). length s)") auto

declare tagSearchLoop.simps [simp del]

definition tagSearch :: "string \<Rightarrow> string \<Rightarrow> string \<Rightarrow> fault + nat" where
  "tagSearch pre post s =
     (if \<not> matchHere pre s then Inl Assertion_failed else tagSearchLoop pre post (- 1) s 0)"

section \<open>Conditions\<close>

datatype condition = equal_cond | notEqual | always

record subCondition =
  action :: condition
  cond_constant :: string
  cond_variable :: string

datatype conjunction = and_conj | or_conj

record translationCondition =
  conditions :: "subCondition list"
  conjunctions :: "conjunction list"

definition isEqual :: "subCondition \<Rightarrow> responseWrapper \<Rightarrow> bool" where
  "isEqual c data =
     (case search data (cond_variable c) of
        None \<Rightarrow> False
      | Some (Objects _) \<Rightarrow> False
      | Some (Strings vs) \<Rightarrow> length vs = 1 \<and> hd vs = cond_constant c)"

definition checkSub :: "subCondition \<Rightarrow> responseWrapper \<Rightarrow> bool" where
  "checkSub c data =
     (case action c of always \<Rightarrow> True | equal_cond \<Rightarrow> isEqual c data | notEqual \<Rightarrow> \<not> isEqual c data)"

fun applyConjunction :: "bool \<Rightarrow> conjunction \<Rightarrow> bool \<Rightarrow> bool" where
  "applyConjunction left and_conj right = (left \<and> right)"
| "applyConjunction left or_conj right = (left \<or> right)"

definition parseSubCondition :: "string \<Rightarrow> subCondition" where
  "parseSubCondition source =
     (case split_at CHR ''='' source of
        (var, Some const) \<Rightarrow> \<lparr>action = equal_cond, cond_constant = const, cond_variable = var\<rparr>
      | (_, None) \<Rightarrow>
          (case split_at CHR ''!'' source of
             (var, Some const) \<Rightarrow> \<lparr>action = notEqual, cond_constant = const, cond_variable = var\<rparr>
           | (_, None) \<Rightarrow> \<lparr>action = always, cond_constant = [], cond_variable = []\<rparr>))"

text \<open>The conditions from the left; a missing conjunction is a read outside the vector.\<close>

fun checkRest :: "bool \<Rightarrow> subCondition list \<Rightarrow> conjunction list \<Rightarrow> responseWrapper \<Rightarrow> fault + bool" where
  "checkRest current [] js data = Inr current"
| "checkRest current (c # cs) (j # js) data = checkRest (applyConjunction current j (checkSub c data)) cs js data"
| "checkRest current (c # cs) [] data = Inl Undefined_behaviour"

definition checkCondition :: "translationCondition \<Rightarrow> responseWrapper \<Rightarrow> fault + bool" where
  "checkCondition c data =
     (case conditions c of
        [] \<Rightarrow> Inr True
      | s # ss \<Rightarrow> checkRest (checkSub s data) ss (conjunctions c) data)"

text \<open>The nearest of the two divisors: the text before it, which one it is, and the text behind it.\<close>

fun splitDivisor :: "string \<Rightarrow> string \<times> (conjunction \<times> string) option" where
  "splitDivisor [] = ([], None)"
| "splitDivisor (c # cs) =
     (if c = CHR ''&'' then ([], Some (and_conj, cs))
      else if c = CHR ''|'' then ([], Some (or_conj, cs))
      else (case splitDivisor cs of (a, b) \<Rightarrow> (c # a, b)))"

lemma splitDivisor_length: "splitDivisor s = (a, Some (j, rest)) \<Longrightarrow> length rest < length s"
  by (induction s arbitrary: a) (auto split: if_splits prod.splits)

function conditionLoop :: "string \<Rightarrow> translationCondition" where
  "conditionLoop source =
     (case splitDivisor source of
        (contents, None) \<Rightarrow> \<lparr>conditions = [parseSubCondition contents], conjunctions = []\<rparr>
      | (contents, Some (j, rest)) \<Rightarrow>
          (let c = conditionLoop rest
           in \<lparr>conditions = parseSubCondition contents # conditions c, conjunctions = j # conjunctions c\<rparr>))"
  by pat_completeness auto
termination
  by (relation "measure length") (auto dest: splitDivisor_length [OF sym])

declare conditionLoop.simps [simp del]

text \<open>\<^verbatim>\<open>translationCondition::parse\<close> with its closing assertion.\<close>

definition parseCondition :: "string \<Rightarrow> fault + translationCondition" where
  "parseCondition source =
     (let ret = conditionLoop source
      in if length (conditions ret) = length (conjunctions ret) + 1 then Inr ret else Inl Assertion_failed)"

section \<open>Templates\<close>

text \<open>\<open>matchType\<close> joins the members \<^verbatim>\<open>match\<close> and \<^verbatim>\<open>tag\<close> of a translation, which are always set together.\<close>

datatype matchType = Always | Tag string | Code int | Condition translationCondition

datatype translationValue = Access string | HTML string | SubTranslation translation | QueryValue string
and translation = Translation (tmatch: matchType) (tvalues: "translationValue list")

text \<open>\<^verbatim>\<open>std::stol\<close>: white space, a sign, digits; whatever follows is ignored. The code passes a pointer to the
  name, so that the text it reads goes on behind the name; it goes on with \<^verbatim>\<open>>\<close>, where reading a number
  stops, and the name decides the result.\<close>

definition stol :: "string \<Rightarrow> fault + int" where
  "stol s =
     (let t = dropWhile isspace s;
          neg = (t \<noteq> [] \<and> hd t = CHR ''-'');
          ds = takeWhile is_digit (if t \<noteq> [] \<and> hd t \<in> set ''+-'' then tl t else t);
          v = (if neg then - int (num_val ds) else int (num_val ds))
      in if ds = [] then Inl Invalid_argument
         else if - (2 ^ 31) \<le> v \<and> v < 2 ^ 31 then Inr v else Inl Out_of_range)"

text \<open>\<^verbatim>\<open>parseSubHTML\<close>: text without tag pairs. The name of a value starts one character behind the tag.\<close>

definition valueTags :: "string list" where
  "valueTags = [''<HTMTVAL'', ''<HTMTQUERY'']"

definition nearer :: "nat option \<Rightarrow> nat option \<Rightarrow> bool" where
  "nearer a b = (case a of None \<Rightarrow> False | Some i \<Rightarrow> (case b of None \<Rightarrow> True | Some j \<Rightarrow> i < j))"

function parseSubHTML :: "string \<Rightarrow> fault + translationValue list" where
  "parseSubHTML html =
     (if html = [] then Inr []
      else
        (let v = find_pos (valueTags ! 0) html;
             q = find_pos (valueTags ! 1) html;
             tagType = (if nearer q v then 1 else 0);
             fpos = (if nearer q v then q else v)
         in case fpos of
              None \<Rightarrow> Inr [HTML html]
            | Some k \<Rightarrow>
                (let text = take k html;
                     from = drop (k + length (valueTags ! tagType) + 1) html
                 in if length html \<le> k + length (valueTags ! tagType) + 1 then Inl Undefined_behaviour
                    else (case split_at CHR ''>'' from of (name, after) \<Rightarrow>
                      bindE (parseSubHTML (case after of None \<Rightarrow> [] | Some rest \<Rightarrow> rest)) (\<lambda>vs.
                      Inr ((if text \<noteq> [] then [HTML text] else []) @
                           (if tagType = 0 then Access name else QueryValue name) # vs))))))"
  by pat_completeness auto
termination
  by (relation "measure length") (auto dest!: length_split_at [OF sym] split: option.splits)

declare parseSubHTML.simps [simp del]

text \<open>The three kinds of tag pairs.\<close>

definition tagOpens :: "string list" where
  "tagOpens = [''<HTMT:'', ''<HTMTCODE:'', ''<HTMTCOND:'']"

definition tagCloses :: "string list" where
  "tagCloses = [''</HTMT>'', ''</HTMTCODE>'', ''</HTMTCOND>'']"

definition findNextSet :: "string \<Rightarrow> string list \<Rightarrow> nat option list" where
  "findNextSet source strings = map (\<lambda>s. find_pos s source) strings"

text \<open>\<^verbatim>\<open>std::min_element\<close>: the first index with the smallest position.\<close>

definition min_element :: "nat option list \<Rightarrow> nat" where
  "min_element found = foldl (\<lambda>m i. if nearer (found ! i) (found ! m) then i else m) 0 [1..<length found]"

definition matchOf :: "nat \<Rightarrow> string \<Rightarrow> fault + matchType" where
  "matchOf tagIndex contents =
     (if tagIndex = 0 then Inr (if contents = [] then Always else Tag contents)
      else if tagIndex = 1 then bindE (stol contents) (\<lambda>n. Inr (Code n))
      else bindE (parseCondition contents) (\<lambda>c. Inr (Condition c)))"

text \<open>
  \<^verbatim>\<open>translation::parse\<close>, as the list of values of the result; the text from \<^verbatim>\<open>left\<close> on is the argument. A
  tag without \<^verbatim>\<open>>\<close>, and a pair whose end leaves no room for the closing tag, make the view of the
  inner text leave the source.
\<close>

function parseTemplate :: "string \<Rightarrow> fault + translationValue list" where
  "parseTemplate source =
     (let found = findNextSet source tagOpens;
          i = min_element found
      in case found ! i of
           None \<Rightarrow> parseSubHTML source
         | Some k \<Rightarrow>
             bindE (if k \<noteq> 0 then parseSubHTML (take k source) else Inr []) (\<lambda>before.
             let tail = drop k source; open_len = length (tagOpens ! i); close_len = length (tagCloses ! i)
             in case split_at CHR ''>'' (drop open_len tail) of
                  (contents, None) \<Rightarrow> Inl Undefined_behaviour
                | (contents, Some inner) \<Rightarrow>
                    bindE (tagSearch (tagOpens ! i) (tagCloses ! i) tail) (\<lambda>e.
                    if e < open_len + length contents + 1 + close_len then Inl Undefined_behaviour
                    else
                      bindE (parseTemplate (take (e - (open_len + length contents + 1) - close_len) inner)) (\<lambda>vs.
                      bindE (matchOf i contents) (\<lambda>m.
                      bindE (parseTemplate (drop e tail)) (\<lambda>rest.
                      Inr (before @ SubTranslation (Translation m vs) # rest)))))))"
  by pat_completeness auto
termination
  by (relation "measure length") (auto dest!: length_split_at [OF sym])

declare parseTemplate.simps [simp del]

definition parse :: "string \<Rightarrow> fault + translation" where
  "parse source = bindE (parseTemplate source) (\<lambda>vs. Inr (Translation Always vs))"

section \<open>Applying a template\<close>

text \<open>The text written so far, and what was printed on standard output.\<close>

record page =
  source_text :: string
  page_log :: string

definition append_text :: "string \<Rightarrow> (page, unit) prog" where
  "append_text x = modify (\<lambda>p. p\<lparr>source_text := source_text p @ x\<rparr>)"

definition warn :: "string \<Rightarrow> (page, unit) prog" where
  "warn x = modify (\<lambda>p. p\<lparr>page_log := page_log p @ x\<rparr>)"

text \<open>\<^verbatim>\<open>translation::matches\<close>\<close>

fun matches :: "matchType \<Rightarrow> responseWrapper \<Rightarrow> int \<Rightarrow> fault + bool" where
  "matches (Code n) data httpCode = Inr (httpCode = n)"
| "matches (Condition c) data httpCode = checkCondition c data"
| "matches (Tag _) data httpCode = Inr True"
| "matches Always data httpCode = Inr True"

text \<open>A loop over the elements of a container.\<close>

definition eachP :: "('a \<Rightarrow> ('s, unit) prog) \<Rightarrow> 'a list \<Rightarrow> ('s, unit) prog" where
  "eachP f xs = foldr (\<lambda>x k. seq (f x) k) xs (returnP ())"

text \<open>
  \<open>applyValue\<close> is \<^verbatim>\<open>translationValue::apply\<close>, \<open>applyTranslation\<close> is \<^verbatim>\<open>translation::apply\<close>, and
  \<open>applyValues\<close> its loop over the values.
\<close>

fun applyValue :: "translationValue \<Rightarrow> responseWrapper \<Rightarrow> int \<Rightarrow> queryBase \<Rightarrow> (page, unit) prog"
and applyTranslation :: "translation \<Rightarrow> responseWrapper \<Rightarrow> int \<Rightarrow> queryBase \<Rightarrow> (page, unit) prog"
and applyValues :: "translationValue list \<Rightarrow> responseWrapper \<Rightarrow> int \<Rightarrow> queryBase \<Rightarrow> (page, unit) prog"
where
  "applyValue (Access name) data httpCode q =
     (case search data name of
        None \<Rightarrow> warn (''Warning: Value '' @ [QUOTE] @ name @ [QUOTE] @ '' was not present in reponse.\<newline>'')
      | Some (Objects _) \<Rightarrow> liftE (Inl Bad_variant_access)
      | Some (Strings vs) \<Rightarrow>
          if length vs = 1 then append_text (hd vs) else liftE (Inl Assertion_failed))"
| "applyValue (HTML html) data httpCode q = append_text html"
| "applyValue (SubTranslation t) data httpCode q = applyTranslation t data httpCode q"
| "applyValue (QueryValue name) data httpCode q =
     (if hasElement q name False then bind (liftE (getElement q name)) append_text
      else warn (''Warning: Query element '' @ name @ '' was not present in request.\<newline>''))"
| "applyTranslation (Translation m vs) data httpCode q =
     (case m of
        Always \<Rightarrow> applyValues vs data httpCode q
      | _ \<Rightarrow>
          bind (liftE (matches m data httpCode)) (\<lambda>b.
            if b then
              (case m of
                 Tag name \<Rightarrow>
                   (case search data name of
                      None \<Rightarrow> returnP ()
                    | Some (Strings _) \<Rightarrow> liftE (Inl Assertion_failed)
                    | Some (Objects os) \<Rightarrow> eachP (\<lambda>i. applyValues vs i httpCode q) os)
               | _ \<Rightarrow> applyValues vs data httpCode q)
            else returnP ()))"
| "applyValues [] data httpCode q = returnP ()"
| "applyValues (v # vs) data httpCode q =
     seq (applyValue v data httpCode q) (applyValues vs data httpCode q)"

text \<open>\<^verbatim>\<open>translation::apply\<close> on an empty text.\<close>

definition applyTo :: "translation \<Rightarrow> responseWrapper \<Rightarrow> int \<Rightarrow> queryBase \<Rightarrow> (fault + string) \<times> string" where
  "applyTo t data httpCode q =
     (case applyTranslation t data httpCode q \<lparr>source_text = [], page_log = []\<rparr> of
        (r, p) \<Rightarrow> (bindE r (\<lambda>_. Inr (source_text p)), page_log p))"

end
