(* ===== verification/Rendering.thy ===== *)
theory Rendering
  imports Template
begin

text \<open>
  What a template means (\<^verbatim>\<open>Translator/src/Source.cpp\<close>, lines 84 to 235 and 341 to 493). \<open>renderValues\<close>
  is the page as a plain text: a section is its body once for every scope it selects. The theory
  shows that applying a template produces exactly that text when every name it reads has the shape
  the code asserts, and an assertion or a variant error otherwise; that a parsed template never makes
  the code read outside a vector; and how conditions are evaluated.
\<close>

section \<open>Conditions\<close>

definition holds :: "translationCondition \<Rightarrow> responseWrapper \<Rightarrow> bool" where
  "holds c data =
     (case conditions c of
        [] \<Rightarrow> True
      | s # ss \<Rightarrow>
          foldl (\<lambda>b (j, s). applyConjunction b j (checkSub s data)) (checkSub s data) (zip (conjunctions c) ss))"

definition balanced :: "translationCondition \<Rightarrow> bool" where
  "balanced c \<longleftrightarrow> length (conditions c) \<le> Suc (length (conjunctions c))"

lemma checkRest_fold:
  "checkRest b ss js data =
     (if length ss \<le> length js
      then Inr (foldl (\<lambda>b (j, s). applyConjunction b j (checkSub s data)) b (zip js ss))
      else Inl Undefined_behaviour)"
  by (induction b ss js data rule: checkRest.induct) auto

lemma checkCondition_holds:
  "checkCondition c data = (if balanced c then Inr (holds c data) else Inl Undefined_behaviour)"
  by (auto simp: checkCondition_def balanced_def holds_def checkRest_fold split: list.splits)

lemma conditionLoop_lengths:
  "length (conditions (conditionLoop s)) = Suc (length (conjunctions (conditionLoop s)))"
proof (induction s rule: conditionLoop.induct)
  case (1 s)
  then show ?case
    by (subst (1 2) conditionLoop.simps) (auto simp: Let_def split: prod.splits option.splits)
qed

lemma parseCondition_loop: "parseCondition s = Inr (conditionLoop s)"
  by (simp add: parseCondition_def Let_def conditionLoop_lengths)

lemma balanced_conditionLoop: "balanced (conditionLoop s)"
  by (simp add: balanced_def conditionLoop_lengths)

fun divisor :: "conjunction \<Rightarrow> char" where
  "divisor and_conj = CHR ''&''"
| "divisor or_conj = CHR ''|''"

lemma splitDivisor_none:
  "CHR ''&'' \<notin> set s \<Longrightarrow> CHR ''|'' \<notin> set s \<Longrightarrow> splitDivisor s = (s, None)"
  by (induction s) auto

lemma splitDivisor_extend:
  "splitDivisor (s @ divisor j # t) =
     (case splitDivisor s of
        (a, None) \<Rightarrow> (a, Some (j, t))
      | (a, Some (i, rest)) \<Rightarrow> (a, Some (i, rest @ divisor j # t)))"
  by (induction s) (cases j, auto split: prod.splits option.splits)+

lemma conditionLoop_extend:
  assumes "CHR ''&'' \<notin> set t" "CHR ''|'' \<notin> set t"
  shows "conditionLoop (s @ divisor j # t) =
    \<lparr>conditions = conditions (conditionLoop s) @ [parseSubCondition t],
     conjunctions = conjunctions (conditionLoop s) @ [j]\<rparr>"
proof (induction s rule: conditionLoop.induct)
  case (1 s)
  have t: "conditionLoop t = \<lparr>conditions = [parseSubCondition t], conjunctions = []\<rparr>"
    using assms by (subst conditionLoop.simps) (simp add: splitDivisor_none)
  obtain a r where s: "splitDivisor s = (a, r)" by fastforce
  show ?case
  proof (cases r)
    case None
    with s t show ?thesis
      by (simp add: conditionLoop.simps [of s] conditionLoop.simps [of "s @ _"] splitDivisor_extend)
  next
    case (Some p)
    then obtain i rest where p: "r = Some (i, rest)" by (cases p) auto
    with s 1 show ?thesis
      by (simp add: conditionLoop.simps [of s] conditionLoop.simps [of "s @ _"] splitDivisor_extend Let_def)
  qed
qed

text \<open>Conditions are evaluated from the left and without precedence: whatever condition \<open>s\<close> is written
  first, appending \<^verbatim>\<open>&\<close> or \<^verbatim>\<open>|\<close> and one more comparison \<open>t\<close> combines the value of all of \<open>s\<close> with
  that comparison. Every text parses, without failing the assertion, and its evaluation always
  returns.\<close>

theorem condition_left_to_right:
  assumes "CHR ''&'' \<notin> set t" "CHR ''|'' \<notin> set t"
  shows "\<exists>b. bindE (parseCondition s) (\<lambda>c. checkCondition c data) = Inr b \<and>
    bindE (parseCondition (s @ divisor j # t)) (\<lambda>c. checkCondition c data)
      = Inr (applyConjunction b j (checkSub (parseSubCondition t) data))"
proof (intro exI conjI)
  let ?c = "conditionLoop s"
  obtain x xs where c: "conditions ?c = x # xs" "length xs = length (conjunctions ?c)"
    using conditionLoop_lengths [of s] by (cases "conditions ?c") auto
  show "bindE (parseCondition s) (\<lambda>c. checkCondition c data) = Inr (holds ?c data)"
    by (simp add: parseCondition_loop checkCondition_holds balanced_conditionLoop)
  show "bindE (parseCondition (s @ divisor j # t)) (\<lambda>c. checkCondition c data)
    = Inr (applyConjunction (holds ?c data) j (checkSub (parseSubCondition t) data))"
    using c balanced_conditionLoop [of "s @ divisor j # t"]
    by (simp add: parseCondition_loop checkCondition_holds conditionLoop_extend [OF assms] holds_def)
qed

definition sample_user :: responseWrapper where
  "sample_user = ResponseWrapper [(''A'', Strings [''1'']), (''B'', Strings [''2''])] [False, False]"

lemmas sample_user_simps = sample_user_def search_def checkSub_def isEqual_def parseSubCondition_def

theorem condition_left_to_right_witness:
  "bindE (parseCondition (''A=1|B=2'' @ divisor and_conj # ''C=3'')) (\<lambda>c. checkCondition c sample_user) = Inr False"
  using condition_left_to_right [of "''C=3''" "''A=1|B=2''" sample_user and_conj]
  by (auto simp: sample_user_simps)

section \<open>The page as a text\<close>

text \<open>The scopes of a section: what its body is applied to, in order.\<close>

fun scopes :: "matchType \<Rightarrow> responseWrapper \<Rightarrow> int \<Rightarrow> responseWrapper list" where
  "scopes Always data code = [data]"
| "scopes (Tag name) data code = (case search data name of Some (Objects os) \<Rightarrow> os | _ \<Rightarrow> [])"
| "scopes (Code n) data code = (if code = n then [data] else [])"
| "scopes (Condition c) data code = (if holds c data then [data] else [])"

fun renderValue :: "translationValue \<Rightarrow> responseWrapper \<Rightarrow> int \<Rightarrow> queryBase \<Rightarrow> string"
and renderSection :: "translation \<Rightarrow> responseWrapper \<Rightarrow> int \<Rightarrow> queryBase \<Rightarrow> string"
and renderValues :: "translationValue list \<Rightarrow> responseWrapper \<Rightarrow> int \<Rightarrow> queryBase \<Rightarrow> string"
where
  "renderValue (Access name) data code q = (case search data name of Some (Strings [v]) \<Rightarrow> v | _ \<Rightarrow> [])"
| "renderValue (HTML html) data code q = html"
| "renderValue (SubTranslation t) data code q = renderSection t data code q"
| "renderValue (QueryValue name) data code q = (case q name of Some v \<Rightarrow> v | None \<Rightarrow> [])"
| "renderSection (Translation m vs) data code q =
     concat (map (\<lambda>d. renderValues vs d code q) (scopes m data code))"
| "renderValues [] data code q = []"
| "renderValues (v # vs) data code q = renderValue v data code q @ renderValues vs data code q"

text \<open>A name that is read has exactly one string, the name of a section has objects, wherever the
  section is entered.\<close>

fun wellShaped :: "matchType \<Rightarrow> responseWrapper \<Rightarrow> bool" where
  "wellShaped (Tag name) data = (case search data name of Some (Strings _) \<Rightarrow> False | _ \<Rightarrow> True)"
| "wellShaped (Condition c) data = balanced c"
| "wellShaped _ data = True"

fun fitsValue :: "translationValue \<Rightarrow> responseWrapper \<Rightarrow> int \<Rightarrow> bool"
and fitsSection :: "translation \<Rightarrow> responseWrapper \<Rightarrow> int \<Rightarrow> bool"
and fitsValues :: "translationValue list \<Rightarrow> responseWrapper \<Rightarrow> int \<Rightarrow> bool"
where
  "fitsValue (Access name) data code =
     (case search data name of None \<Rightarrow> True | Some (Strings vs) \<Rightarrow> length vs = 1 | Some (Objects _) \<Rightarrow> False)"
| "fitsValue (HTML html) data code = True"
| "fitsValue (SubTranslation t) data code = fitsSection t data code"
| "fitsValue (QueryValue name) data code = True"
| "fitsSection (Translation m vs) data code =
     (wellShaped m data \<and> list_all (\<lambda>d. fitsValues vs d code) (scopes m data code))"
| "fitsValues [] data code = True"
| "fitsValues (v # vs) data code = (fitsValue v data code \<and> fitsValues vs data code)"

text \<open>\<open>writes c x m\<close>: if \<open>c\<close>, then \<open>m\<close> appends \<open>x\<close> to the text; otherwise it stops with a fault.\<close>

definition writes :: "bool \<Rightarrow> string \<Rightarrow> (page, unit) prog \<Rightarrow> bool" where
  "writes c x m \<longleftrightarrow>
     (\<forall>p. \<exists>r p'. m p = (r, p') \<and> (if c then r = Inr () \<and> source_text p' = source_text p @ x else \<exists>e. r = Inl e))"

named_theorems writing \<open>rules for what a program writes\<close>

lemma writes_append [writing]: "writes True x (append_text x)"
  by (simp add: writes_def append_text_def modify_def)

lemma writes_warn [writing]: "writes True [] (warn x)"
  by (simp add: writes_def warn_def modify_def)

lemma writes_return [writing]: "writes True [] (returnP ())"
  by (simp add: writes_def returnP_def)

lemma writes_fault [writing]: "writes False x (liftE (Inl e))"
  by (simp add: writes_def liftE_def)

lemma writes_seq [writing]:
  assumes "writes a x m" "writes b y k"
  shows "writes (a \<and> b) (x @ y) (seq m k)"
  unfolding writes_def
proof
  fix p
  obtain r p1 where m: "m p = (r, p1)" by fastforce
  moreover obtain r' p2 where k: "k p1 = (r', p2)" by fastforce
  ultimately show "\<exists>r p'. seq m k p = (r, p') \<and>
      (if a \<and> b then r = Inr () \<and> source_text p' = source_text p @ x @ y else \<exists>e. r = Inl e)"
    using assms [unfolded writes_def, rule_format, of p] assms(2) [unfolded writes_def, rule_format, of p1]
    by (cases r) (auto simp: seq_def bind_def split: if_splits)
qed

lemma bind_liftE: "bind (liftE r) k = (case r of Inl e \<Rightarrow> liftE (Inl e) | Inr x \<Rightarrow> k x)"
  by (rule ext) (auto simp: liftE_def bind_def split: sum.split)

lemma writes_each:
  "(\<And>d. d \<in> set ds \<Longrightarrow> writes (P d) (x d) (f d)) \<Longrightarrow> writes (list_all P ds) (concat (map x ds)) (eachP f ds)"
  by (induction ds) (auto simp: eachP_def intro: writes_seq writes_return)

lemma writes_section:
  assumes "\<And>d. d \<in> set (scopes m data code) \<Longrightarrow>
    writes (fitsValues vs d code) (renderValues vs d code q) (applyValues vs d code q)"
  shows "writes (fitsSection (Translation m vs) data code) (renderSection (Translation m vs) data code q)
    (applyTranslation (Translation m vs) data code q)"
proof (cases m)
  case (Tag name)
  have "writes (list_all (\<lambda>d. fitsValues vs d code) os) (concat (map (\<lambda>d. renderValues vs d code q) os))
      (eachP (\<lambda>i. applyValues vs i code q) os)" if "search data name = Some (Objects os)" for os
    using assms that by (intro writes_each) (simp add: Tag)
  then show ?thesis
    by (auto simp: Tag writing bind_liftE split: option.split elementContainer.split)
next
  case (Condition c)
  show ?thesis
    using assms by (auto simp: Condition writing bind_liftE checkCondition_holds)
next
  case (Code n)
  show ?thesis using assms by (auto simp: Code writing bind_liftE)
qed (use assms in auto)

lemma apply_writes:
  "writes (fitsValue v data code) (renderValue v data code q) (applyValue v data code q)"
  "writes (fitsSection t data code) (renderSection t data code q) (applyTranslation t data code q)"
  "writes (fitsValues vs data code) (renderValues vs data code q) (applyValues vs data code q)"
proof (induction v data code q and t data code q and vs data code q
    rule: renderValue_renderSection_renderValues.induct)
  case (1 name data code q)
  then show ?case
    by (auto simp: writing length_Suc_conv split: option.split elementContainer.split)
next
  case (4 name data code q)
  then show ?case
    by (auto simp: writing hasElement_def getElement_def bind_liftE split: option.split)
next
  case (5 m vs data code q)
  then show ?case by (rule writes_section)
qed (auto simp: writing)

lemma page_text_iff:
  "fst (applyTo t data httpCode q) = Inr page \<longleftrightarrow>
     fitsSection t data httpCode \<and> page = renderSection t data httpCode q"
proof -
  let ?p = "\<lparr>source_text = [], page_log = []\<rparr>"
  obtain r p' where "applyTranslation t data httpCode q ?p = (r, p')"
    "if fitsSection t data httpCode then r = Inr () \<and> source_text p' = source_text ?p @ renderSection t data httpCode q
     else \<exists>e. r = Inl e"
    using apply_writes(2) [of t data httpCode q] unfolding writes_def by blast
  then show ?thesis
    by (auto simp: applyTo_def split: if_splits)
qed

subsection \<open>The interface of the page wrappers\<close>

text \<open>What a page wrapper relies on when it hands a template and a response to the renderer: \<open>produce\<close>
  gives a page exactly for the data that fit the template, and it is the one the template means.\<close>

locale page_source =
  fixes produce :: "'t \<Rightarrow> 'd \<Rightarrow> int \<Rightarrow> queryBase \<Rightarrow> (fault + string) \<times> string"
    and meaning :: "'t \<Rightarrow> 'd \<Rightarrow> int \<Rightarrow> queryBase \<Rightarrow> string"
    and fits :: "'t \<Rightarrow> 'd \<Rightarrow> int \<Rightarrow> bool"
  assumes page_iff: "fst (produce t d code q) = Inr page \<longleftrightarrow> fits t d code \<and> page = meaning t d code q"
begin

lemma produced: "fits t d code \<Longrightarrow> \<exists>out. produce t d code q = (Inr (meaning t d code q), out)"
  using page_iff [of t d code q "meaning t d code q"] by (metis prod.collapse)

lemma no_page: "\<not> fits t d code \<Longrightarrow> \<exists>e out. produce t d code q = (Inl e, out)"
  using page_iff [of t d code q] by (metis obj_sumE prod.collapse)

end

interpretation templates: page_source applyTo renderSection fitsSection
  by unfold_locales (rule page_text_iff)

text \<open>C11. Applying a template returns a page exactly when every name it reads has the shape the code
  asserts, and the page is then the text of the template: raw HTML as it is, each value and query
  element by its text (nothing for one that is missing), the body of a section once for every object
  of its collection, in order, or once if its code or condition matches, or not at all.\<close>

theorem page_text:
  "fst (applyTo t data httpCode q) = Inr page \<longleftrightarrow>
     fitsSection t data httpCode \<and> page = renderSection t data httpCode q"
  by (rule templates.page_iff)

section \<open>Parsed templates\<close>

text \<open>What the parser guarantees of its result.\<close>

fun typedMatch :: "matchType \<Rightarrow> bool" where
  "typedMatch Always = True"
| "typedMatch (Tag name) = (name \<noteq> [] \<and> CHR ''>'' \<notin> set name)"
| "typedMatch (Code n) = (- (2 ^ 31) \<le> n \<and> n < 2 ^ 31)"
| "typedMatch (Condition c) = (length (conditions c) = length (conjunctions c) + 1)"

fun typedValue :: "translationValue \<Rightarrow> bool"
and typedTranslation :: "translation \<Rightarrow> bool"
and typedValues :: "translationValue list \<Rightarrow> bool"
where
  "typedValue (Access name) = (CHR ''>'' \<notin> set name)"
| "typedValue (HTML html) = (html \<noteq> [])"
| "typedValue (SubTranslation t) = typedTranslation t"
| "typedValue (QueryValue name) = (CHR ''>'' \<notin> set name)"
| "typedTranslation (Translation m vs) = (typedMatch m \<and> typedValues vs)"
| "typedValues [] = True"
| "typedValues (v # vs) = (typedValue v \<and> typedValues vs)"

lemma typedValues_append [simp]: "typedValues (a @ b) \<longleftrightarrow> typedValues a \<and> typedValues b"
  by (induction a) auto

lemma split_at_before: "split_at c xs = (a, r) \<Longrightarrow> c \<notin> set a"
  by (cases r) (auto dest: split_at_None split_at_Some)

lemma typed_matchOf: "matchOf i contents = Inr m \<Longrightarrow> CHR ''>'' \<notin> set contents \<Longrightarrow> typedMatch m"
  by (auto simp: matchOf_def stol_def Let_def parseCondition_def bindE_eq_Inr split: if_splits)

lemma typed_parseSubHTML: "parseSubHTML html = Inr vs \<Longrightarrow> typedValues vs"
proof (induction html arbitrary: vs rule: parseSubHTML.induct)
  case (1 html)
  show ?case
    using 1(2) 1(1) [OF _ refl refl refl refl]
    by (subst (asm) parseSubHTML.simps)
      (auto simp: Let_def bindE_eq_Inr split: if_splits option.splits prod.splits dest: split_at_before)
qed

lemma typed_parseTemplate: "parseTemplate source = Inr vs \<Longrightarrow> typedValues vs"
proof (induction source arbitrary: vs rule: parseTemplate.induct)
  case (1 source)
  note IH = 1(1,2) [OF refl refl _ _ refl refl refl]
  define i where "i = min_element (findNextSet source tagOpens)"
  show ?case
  proof (cases "findNextSet source tagOpens ! i")
    case None
    then show ?thesis
      using 1(3) by (subst (asm) parseTemplate.simps) (simp add: Let_def i_def typed_parseSubHTML)
  next
    case (Some k)
    obtain contents r where c: "split_at CHR ''>'' (drop (length (tagOpens ! i)) (drop k source)) = (contents, r)"
      by fastforce
    show ?thesis
      using 1(3) IH [unfolded i_def [symmetric], OF Some] Some c split_at_before [OF c]
      by (subst (asm) parseTemplate.simps)
        (auto simp: Let_def i_def [symmetric] bindE_eq_Inr typed_parseSubHTML
          split: if_splits option.splits prod.splits dest: typed_matchOf)
  qed
qed

definition sound :: "(page, unit) prog \<Rightarrow> bool" where
  "sound m \<longleftrightarrow> (\<forall>p. case fst (m p) of Inr _ \<Rightarrow> True | Inl e \<Rightarrow> e \<in> {Assertion_failed, Bad_variant_access})"

named_theorems sounds \<open>rules for the faults of a program\<close>

lemma sound_basic [sounds]:
  "sound (append_text x)" "sound (warn x)" "sound (returnP ())"
  "sound (liftE (Inl Assertion_failed))" "sound (liftE (Inl Bad_variant_access))"
  by (simp_all add: sound_def append_text_def warn_def modify_def returnP_def liftE_def)

lemma sound_seq [sounds]: "sound m \<Longrightarrow> sound k \<Longrightarrow> sound (seq m k)"
  by (auto simp: sound_def seq_def bind_def split: prod.splits sum.splits) (metis fst_conv sum.sel(1))+

lemma sound_each [sounds]: "(\<And>d. sound (f d)) \<Longrightarrow> sound (eachP f ds)"
  by (induction ds) (auto simp: eachP_def sounds)

lemma apply_sound:
  "typedValue v \<Longrightarrow> sound (applyValue v data code q)"
  "typedTranslation t \<Longrightarrow> sound (applyTranslation t data code q)"
  "typedValues vs \<Longrightarrow> sound (applyValues vs data code q)"
proof (induction v and t and vs arbitrary: data and data and data
    rule: typedValue_typedTranslation_typedValues.induct)
  case (1 name)
  then show ?case by (auto simp: sounds split: option.split elementContainer.split)
next
  case (4 name)
  then show ?case
    by (auto simp: sounds hasElement_def getElement_def bind_liftE split: option.split)
next
  case (5 m vs)
  then show ?case
    by (auto simp: sounds bind_liftE checkCondition_holds balanced_def
        split: matchType.split option.split elementContainer.split)
qed (auto simp: sounds)

text \<open>C23. A template that parses is well-typed: section names are not empty, codes fit a 32-bit \<^verbatim>\<open>long\<close>,
  every condition has one conjunction fewer than comparisons. Applying it to any response can
  therefore fail only in the two ways that depend on the shape of the response, and never reads
  outside a container.\<close>

theorem parsed_template_typed:
  assumes "parse source = Inr t"
  shows "typedTranslation t \<and>
    (case fst (applyTo t data httpCode q) of
       Inr page \<Rightarrow> True
     | Inl e \<Rightarrow> e \<in> {Assertion_failed, Bad_variant_access})"
proof
  show t: "typedTranslation t"
    using assms by (auto simp: parse_def bindE_eq_Inr dest: typed_parseTemplate)
  obtain r p' where "applyTranslation t data httpCode q \<lparr>source_text = [], page_log = []\<rparr> = (r, p')"
    by fastforce
  with apply_sound(2) [OF t, of data httpCode q]
  show "case fst (applyTo t data httpCode q) of Inr page \<Rightarrow> True | Inl e \<Rightarrow> e \<in> {Assertion_failed, Bad_variant_access}"
    by (cases r) (auto simp: applyTo_def sound_def dest!: spec [of _ "\<lparr>source_text = [], page_log = []\<rparr>"])
qed

lemma sample_parse:
  "parse ''<HTMT:Users><HTMTVAL:ID></HTMT>'' =
     Inr (Translation Always [SubTranslation (Translation (Tag ''Users'') [Access ''ID''])])"
  by code_simp

theorem parsed_template_typed_witness:
  "typedTranslation (Translation Always [SubTranslation (Translation (Tag ''Users'') [Access ''ID''])]) \<and>
   (case fst (applyTo (Translation Always [SubTranslation (Translation (Tag ''Users'') [Access ''ID''])])
          (ResponseWrapper [(''Users'', Strings [''1''])] [False]) 200 Map.empty) of
      Inr page \<Rightarrow> True
    | Inl e \<Rightarrow> e \<in> {Assertion_failed, Bad_variant_access})"
  by (rule parsed_template_typed [OF sample_parse])

section \<open>Text without tags\<close>

lemma find_pos_sublist: "find_pos p s \<noteq> None \<Longrightarrow> sublist p s"
  by (induction s) (auto split: if_splits intro: prefix_imp_sublist sublist_Cons_right [THEN iffD2])

lemma no_tags:
  assumes "\<not> sublist ''<HTMT'' html" "prefix ''<HTMT'' p"
  shows "find_pos p html = None"
  using assms find_pos_sublist [of p html] sublist_order.order_trans prefix_imp_sublist by blast

text \<open>A page without HTMT tags is delivered as it is, whatever the server answers.\<close>

theorem plain_page_unchanged:
  assumes "\<not> sublist ''<HTMT'' html"
  shows "bindE (parse html) (\<lambda>t. fst (applyTo t data httpCode q)) = Inr html"
proof -
  have f: "find_pos p html = None" if "p \<in> set (tagOpens @ valueTags)" for p
    using that assms by (intro no_tags) (auto simp: tagOpens_def valueTags_def)
  have "findNextSet html tagOpens ! min_element (findNextSet html tagOpens) = None"
    using f by (simp add: findNextSet_def tagOpens_def min_element_def nearer_def upt_rec)
  moreover have "parseSubHTML html = Inr (if html = [] then [] else [HTML html])"
    using f by (subst parseSubHTML.simps) (simp add: Let_def valueTags_def nearer_def)
  ultimately have "parse html = Inr (Translation Always (if html = [] then [] else [HTML html]))"
    unfolding parse_def by (subst parseTemplate.simps) (simp add: Let_def)
  then show ?thesis
    by (simp add: applyTo_def seq_def append_text_def returnP_def)
qed

theorem plain_page_unchanged_witness:
  "bindE (parse ''<p>hello</p>'') (\<lambda>t. fst (applyTo t sample_user 404 Map.empty)) = Inr ''<p>hello</p>''"
  by (rule plain_page_unchanged) (simp add: sublist_Cons_right)

end
