(* ===== verification/Translator.thy ===== *)
theory Translator
  imports Rendering Network Console
begin

text \<open>
  The translator: the HTTP client wrapper (\<^verbatim>\<open>Translator/include/Curl.h\<close>), the plain relay
  (\<^verbatim>\<open>Translator/include/Forwarding.h\<close>), and the page wrappers, the link file and \<^verbatim>\<open>main\<close>
  (\<^verbatim>\<open>Translator/src/Source.cpp\<close>, lines 495 to 726). libcurl is a parameter: a transfer is the options
  set on the handle, and performing it on the outside world yields the calls of the two callbacks and
  the status code. uWebSockets is modelled as for the server.
\<close>

section \<open>Transfers\<close>

text \<open>The options set on a handle: \<^verbatim>\<open>CURLOPT_URL\<close>, \<^verbatim>\<open>CURLOPT_COOKIE\<close>, and the body of a POST. The response
  time is recorded by the sources and never read.\<close>

record transfer =
  opt_url :: string
  opt_cookie :: string
  opt_post :: "string option"

record exchange =
  header_calls :: "string list"
  write_calls :: "string list"
  http_code :: int

record APIResponse =
  api_headers :: "(string \<times> string) list"
  api_response :: string
  response_code :: int

definition emptyAPI :: APIResponse where
  "emptyAPI = \<lparr>api_headers = [], api_response = [], response_code = 0\<rparr>"

text \<open>The state of the translator while it serves a request, and what it does not change.\<close>

record 'n relay =
  outside :: 'n
  relay_log :: string
  answer :: "res_call list"

record 'n relay_env =
  curl_easy_perform :: "transfer \<Rightarrow> 'n \<Rightarrow> exchange \<times> 'n"
  curl_unescape :: "string \<Rightarrow> string option"
  string_max :: nat

definition reply_call :: "res_call \<Rightarrow> ('n relay, unit) prog" where
  "reply_call c = modify (\<lambda>w. w\<lparr>answer := answer w @ [c]\<rparr>)"

definition allowedHeaders :: "string list" where
  "allowedHeaders = [''Set-Cookie'', ''cookie'']"

text \<open>
  \<^verbatim>\<open>APIResponse::writeHeaders\<close> on one header line. The first assertion is an assignment: it overwrites the
  character behind the colon with a blank, outside the buffer if the colon is its last character, and
  succeeds. The second assertion then looks at the changed buffer.
\<close>

definition writeHeaders :: "string \<Rightarrow> (string \<times> string) list \<Rightarrow> fault + (string \<times> string) list" where
  "writeHeaders buffer data =
     (case split_at CHR '':'' buffer of (name, after) \<Rightarrow>
        if name \<notin> set allowedHeaders then Inr data
        else (case after of
          None \<Rightarrow> Inr data
        | Some [] \<Rightarrow> Inl Undefined_behaviour
        | Some (_ # rest) \<Rightarrow>
            (let buffer = name @ '': '' @ rest
             in if last buffer = CHR 0x0A \<and> buffer ! (length buffer - 2) = CHR 0x0D
                then Inr (data @ [(name, take (length rest - 2) rest)])
                else Inl Assertion_failed)))"

text \<open>\<^verbatim>\<open>requestWrapper::dataWrite\<close>\<close>

definition dataWrite :: "string \<Rightarrow> string \<Rightarrow> string" where
  "dataWrite chunk data = data @ chunk"

fun headerLoop :: "string list \<Rightarrow> (string \<times> string) list \<Rightarrow> fault + (string \<times> string) list" where
  "headerLoop [] data = Inr data"
| "headerLoop (b # bs) data = bindE (writeHeaders b data) (headerLoop bs)"

text \<open>\<^verbatim>\<open>requestWrapper::perform\<close> on a response that may hold data of an earlier transfer already.\<close>

definition perform ::
  "'n relay_env \<Rightarrow> transfer \<Rightarrow> APIResponse \<Rightarrow> ('n relay, APIResponse) prog" where
  "perform env t response =
     bind (\<lambda>w. case curl_easy_perform env t (outside w) of (x, n) \<Rightarrow> (Inr x, w\<lparr>outside := n\<rparr>)) (\<lambda>x.
     bind (liftE (headerLoop (header_calls x) (api_headers response))) (\<lambda>hs.
     returnP \<lparr>api_headers = hs, api_response = fold dataWrite (write_calls x) (api_response response),
              response_code = http_code x\<rparr>))"

definition post ::
  "'n relay_env \<Rightarrow> transfer \<Rightarrow> string \<Rightarrow> APIResponse \<Rightarrow> ('n relay, APIResponse) prog" where
  "post env t data = perform env (t\<lparr>opt_post := Some data\<rparr>)"

definition get_request :: "'n relay_env \<Rightarrow> transfer \<Rightarrow> APIResponse \<Rightarrow> ('n relay, APIResponse) prog" where
  "get_request env t = perform env (t\<lparr>opt_post := None\<rparr>)"

text \<open>The constructor \<^verbatim>\<open>requestWrapper(URL)\<close>, \<^verbatim>\<open>setCookies\<close>, and \<^verbatim>\<open>retarget\<close>, which the program does not call.\<close>

definition requestWrapper :: "string \<Rightarrow> transfer" where
  "requestWrapper url = \<lparr>opt_url = url, opt_cookie = [], opt_post = None\<rparr>"

definition setCookies :: "string \<Rightarrow> transfer \<Rightarrow> transfer" where
  "setCookies values t = t\<lparr>opt_cookie := values\<rparr>"

definition retarget :: "string \<Rightarrow> transfer \<Rightarrow> transfer" where
  "retarget url t = t\<lparr>opt_url := url\<rparr>"

section \<open>Collecting the body of a POST\<close>

text \<open>
  \<^verbatim>\<open>extractPostBody\<close>, which both files contain with the same text. The callback keeps the handle and the
  response it captured, so the response is threaded through the events. It is also handed the pointer to
  the request, which may dangle by then; the first argument says whether the request still exists.
\<close>

fun postEvents ::
  "(bool \<Rightarrow> string \<Rightarrow> APIResponse \<Rightarrow> ('n relay, APIResponse) prog) \<Rightarrow> APIResponse \<Rightarrow> string \<Rightarrow> body_event list
     \<Rightarrow> ('n relay, unit) prog" where
  "postEvents callback resp buffer [] = returnP ()"
| "postEvents callback resp buffer (Data chunk final live # events) =
     (let buffer = buffer @ chunk
      in if final then bind (callback live buffer resp) (\<lambda>resp. postEvents callback resp buffer events)
         else postEvents callback resp buffer events)"
| "postEvents callback resp buffer (Aborted # events) =
     seq (reply_call (WriteStatus ''500''))
    (seq (reply_call (End [])) (postEvents callback resp buffer events))"

definition extractPostBody ::
  "'n relay_env \<Rightarrow> http_request \<Rightarrow> (bool \<Rightarrow> string \<Rightarrow> APIResponse \<Rightarrow> ('n relay, APIResponse) prog)
     \<Rightarrow> body_event list \<Rightarrow> ('n relay, unit) prog" where
  "extractPostBody env rq callback events =
     (if contentLength rq = 0 then bind (callback True [] emptyAPI) (\<lambda>_. returnP ())
      else if contentLength rq > string_max env then liftE (Inl Length_error)
      else postEvents callback emptyAPI [] events)"

section \<open>The plain relay\<close>

definition writeBack :: "APIResponse \<Rightarrow> ('n relay, unit) prog" where
  "writeBack API =
     seq (reply_call (WriteStatus (int_to_string (response_code API))))
    (seq (eachP (\<lambda>(name, val). reply_call (WriteHeader name val)) (api_headers API))
    (bind (liftE (fromData (api_response API))) (\<lambda>resw.
     case resw of
       Some r \<Rightarrow> bind (liftE (toDataString True r)) (\<lambda>str. reply_call (End str))
     | None \<Rightarrow> reply_call (End (api_response API)))))"

text \<open>This callback is given the pointer to the request but does not use it.\<close>

definition forwardPost_plain ::
  "'n relay_env \<Rightarrow> transfer \<Rightarrow> http_request \<Rightarrow> body_event list \<Rightarrow> ('n relay, unit) prog" where
  "forwardPost_plain env curl rq events =
     extractPostBody env rq (\<lambda>live body resp.
       bind (post env curl body resp) (\<lambda>resp. seq (writeBack resp) (returnP resp))) events"

definition forward :: "'n relay_env \<Rightarrow> http_request \<Rightarrow> body_event list \<Rightarrow> ('n relay, unit) prog" where
  "forward env rq events =
     (let url = ''localhost:9001'' @ getUrl rq @ getQuery rq;
          request = setCookies (getHeader rq ''cookie'') (requestWrapper url)
      in if getMethod rq = ''post'' then forwardPost_plain env request rq events
         else bind (get_request env request emptyAPI) writeBack)"

section \<open>Pages\<close>

text \<open>\<^verbatim>\<open>forwardingWrapper::applyTranslation\<close>\<close>

definition sendTranslation :: "APIResponse \<Rightarrow> translation \<Rightarrow> queryBase \<Rightarrow> ('n relay, unit) prog" where
  "sendTranslation API tran q =
     seq (reply_call (WriteStatus (int_to_string (response_code API))))
    (seq (eachP (\<lambda>(name, val). reply_call (WriteHeader name val)) (api_headers API))
    (bind (liftE (fromData (api_response API))) (\<lambda>resw.
     case resw of
       Some r \<Rightarrow>
         bind (\<lambda>w. case applyTo tran r (response_code API) q of (page, out) \<Rightarrow> (page, w\<lparr>relay_log := relay_log w @ out\<rparr>))
           (\<lambda>page. reply_call (TryEnd page))
     | None \<Rightarrow> reply_call (TryEnd (api_response API)))))"

text \<open>The class keeps a private copy of \<^verbatim>\<open>extractPostBody\<close>, with the same text.\<close>

definition wrapperPostBody ::
  "'n relay_env \<Rightarrow> http_request \<Rightarrow> (bool \<Rightarrow> string \<Rightarrow> APIResponse \<Rightarrow> ('n relay, APIResponse) prog)
     \<Rightarrow> body_event list \<Rightarrow> ('n relay, unit) prog" where
  "wrapperPostBody env rq callback events =
     (if contentLength rq = 0 then bind (callback True [] emptyAPI) (\<lambda>_. returnP ())
      else if contentLength rq > string_max env then liftE (Inl Length_error)
      else postEvents callback emptyAPI [] events)"

text \<open>The query is evaluated before the transfer: the order of the arguments of the call is the
  compiler's. It is read from the request when the body is complete, which is undefined if the request has
  ended by then.\<close>

definition forwardPost ::
  "'n relay_env \<Rightarrow> transfer \<Rightarrow> translation \<Rightarrow> http_request \<Rightarrow> body_event list \<Rightarrow> ('n relay, unit) prog" where
  "forwardPost env curl tran rq events =
     wrapperPostBody env rq (\<lambda>live body resp.
       bind (liftE (if live then parseURLValues (curl_unescape env) (getQuery rq) else Inl Undefined_behaviour)) (\<lambda>q.
       bind (post env curl body resp) (\<lambda>resp. seq (sendTranslation resp tran q) (returnP resp)))) events"

datatype webpageWrapper =
    ForwardingWrapper (page_data: translation) (destination: string)
  | StaticWrapper (static_data: string)

definition pageURL :: "string \<Rightarrow> http_request \<Rightarrow> string" where
  "pageURL dest rq = ''localhost:9001'' @ dest @ (if getQuery rq \<noteq> [] then ''?'' @ getQuery rq else [])"

fun applyPage ::
  "'n relay_env \<Rightarrow> webpageWrapper \<Rightarrow> http_request \<Rightarrow> body_event list \<Rightarrow> ('n relay, unit) prog" where
  "applyPage env (ForwardingWrapper tran dest) rq events =
     (let request = setCookies (getHeader rq ''cookie'') (requestWrapper (pageURL dest rq))
      in if getMethod rq = ''post'' then forwardPost env request tran rq events
         else
           bind (liftE (parseURLValues (curl_unescape env) (getQuery rq))) (\<lambda>q.
           bind (get_request env request emptyAPI) (\<lambda>resp. sendTranslation resp tran q)))"
| "applyPage env (StaticWrapper page) rq events = reply_call (TryEnd page)"

section \<open>The link file\<close>

definition readEntireFile :: "(string \<Rightarrow> string option) \<Rightarrow> string \<Rightarrow> string" where
  "readEntireFile files name = (case files name of None \<Rightarrow> [] | Some contents \<Rightarrow> contents)"

definition forwardingWrapper ::
  "(string \<Rightarrow> string option) \<Rightarrow> string \<Rightarrow> string \<Rightarrow> fault + webpageWrapper" where
  "forwardingWrapper files path dest =
     bindE (parse (readEntireFile files path)) (\<lambda>t. Inr (ForwardingWrapper t dest))"

definition staticWrapper :: "(string \<Rightarrow> string option) \<Rightarrow> string \<Rightarrow> webpageWrapper" where
  "staticWrapper files path = StaticWrapper (readEntireFile files path)"

text \<open>What is registered with the application: the method, the path and the page.\<close>

record linker =
  links :: "(string \<times> string \<times> webpageWrapper) list"
  link_log :: string

definition say :: "string \<Rightarrow> (linker, unit) prog" where
  "say s = modify (\<lambda>l. l\<lparr>link_log := link_log l @ s\<rparr>)"

definition register :: "char \<Rightarrow> string \<Rightarrow> webpageWrapper \<Rightarrow> (linker, unit) prog" where
  "register c path page =
     modify (\<lambda>l. l\<lparr>links := links l @ [(if c = CHR ''P'' then ''post'' else ''get'', path, page)]\<rparr>)"

definition quote :: "string \<Rightarrow> string" where
  "quote s = [QUOTE] @ s @ [QUOTE]"

definition invalidEntry :: "string \<Rightarrow> (linker, bool) prog" where
  "invalidEntry line = seq (say (''Invalid linkfile entry '' @ quote line @ ''.\<newline>'')) (returnP False)"

text \<open>One line of the file; the result says whether to go on.\<close>

definition linkLine :: "(string \<Rightarrow> string option) \<Rightarrow> string \<Rightarrow> (linker, bool) prog" where
  "linkLine files line =
     (if line = [] \<or> hd line = CHR ''#'' then returnP True
      else if length line < 4 \<or> (line ! 0 \<noteq> CHR ''P'' \<and> line ! 0 \<noteq> CHR ''G'') \<or>
              (line ! 1 \<noteq> CHR ''S'' \<and> line ! 1 \<noteq> CHR ''F'') \<or> line ! 2 \<noteq> CHR '':''
      then invalidEntry line
      else case split_at CHR '':'' (drop 4 line) of
        (_, None) \<Rightarrow> invalidEntry line
      | (before, Some after) \<Rightarrow>
          (let webDirectory = line ! 3 # before
           in if line ! 1 = CHR ''S'' then
                seq (say (''Linked page '' @ quote webDirectory @ '' to local page '' @ quote after @ ''.\<newline>''))
               (seq (register (line ! 0) webDirectory (staticWrapper files after)) (returnP True))
              else
                (case split_at CHR '':'' after of (fileDirectory, rest) \<Rightarrow>
                   (let target = (case rest of None \<Rightarrow> webDirectory | Some t \<Rightarrow> t)
                    in seq (say (''Linked page '' @ quote webDirectory @ '' to local page '' @ quote fileDirectory @
                              '' which forwards to '' @ quote target @ ''.\<newline>''))
                      (bind (liftE (forwardingWrapper files fileDirectory target)) (\<lambda>page.
                       seq (register (line ! 0) webDirectory page) (returnP True)))))))"

fun linkLoop :: "(string \<Rightarrow> string option) \<Rightarrow> string list \<Rightarrow> (linker, bool) prog" where
  "linkLoop files [] = returnP True"
| "linkLoop files (line # rest) =
     bind (linkLine files line) (\<lambda>ok. if ok then linkLoop files rest else returnP False)"

definition linkPages :: "(string \<Rightarrow> string option) \<Rightarrow> string \<Rightarrow> (linker, bool) prog" where
  "linkPages files linkFile =
     (case files linkFile of
        None \<Rightarrow> seq (say ''Unable to find link file.\<newline>'') (returnP False)
      | Some contents \<Rightarrow> linkLoop files (fileLines contents))"

text \<open>\<^verbatim>\<open>main\<close> up to \<^verbatim>\<open>app.run()\<close>: the result of \<^verbatim>\<open>linkPages\<close> is not looked at. Every other path is answered by the
  default handler.\<close>

definition badTranslation :: "('n relay, unit) prog" where
  "badTranslation = reply_call (End ''Bad translation.'')"

definition translator_main :: "(string \<Rightarrow> string option) \<Rightarrow> (linker, unit) prog" where
  "translator_main files =
     seq (linkPages files ''../Pages/Link.txt'') (say ''Linking complete.\<newline>'')"

section \<open>Header lines\<close>

text \<open>The lines of an HTTP response as libcurl hands them to the callback: the status line, the header
  fields, an empty line.\<close>

abbreviation CRLF :: string where "CRLF \<equiv> [CHR 0x0D, CHR 0x0A]"

fun headerLine :: "string \<times> string \<Rightarrow> string" where
  "headerLine (name, val) = name @ '': '' @ val @ CRLF"

definition wireLines :: "string \<Rightarrow> (string \<times> string) list \<Rightarrow> string list" where
  "wireLines status hs = [status @ CRLF] @ map headerLine hs @ [CRLF]"

definition fieldsOK :: "(string \<times> string) list \<Rightarrow> bool" where
  "fieldsOK hs \<longleftrightarrow> list_all (\<lambda>(name, _). CHR '':'' \<notin> set name) hs"

abbreviation relayed :: "(string \<times> string) list \<Rightarrow> (string \<times> string) list" where
  "relayed hs \<equiv> filter (\<lambda>(name, _). name \<in> {''Set-Cookie'', ''cookie''}) hs"

lemma writeHeaders_line:
  assumes "CHR '':'' \<notin> set name"
  shows "writeHeaders (headerLine (name, val)) data =
    Inr (if name \<in> {''Set-Cookie'', ''cookie''} then data @ [(name, val)] else data)"
  using assms by (simp add: writeHeaders_def allowedHeaders_def Let_def nth_append)

lemma writeHeaders_other: "CHR '':'' \<notin> set line \<Longrightarrow> writeHeaders line data = Inr data"
  by (simp add: writeHeaders_def split_at_notin)

lemma headerLoop_append: "headerLoop (a @ b) data = bindE (headerLoop a data) (headerLoop b)"
  by (induction a arbitrary: data) (auto simp: bindE_assoc intro: bindE_cong)

lemma headerLoop_fields: "fieldsOK hs \<Longrightarrow> headerLoop (map headerLine hs) data = Inr (data @ relayed hs)"
proof (induction hs arbitrary: data)
  case (Cons h hs)
  obtain name val where h: "h = (name, val)" by (cases h)
  with Cons show ?case
    by (simp add: fieldsOK_def writeHeaders_line del: headerLine.simps)
qed simp

lemma headerLoop_wire:
  assumes "fieldsOK hs" "CHR '':'' \<notin> set status"
  shows "headerLoop (wireLines status hs) data = Inr (data @ relayed hs)"
  using assms by (simp add: wireLines_def writeHeaders_other headerLoop_append headerLoop_fields)

text \<open>Of the header fields of the server's response exactly the cookie fields are kept, with their
  values unchanged and in their order; the status line and all other fields are dropped.\<close>

theorem cookie_headers_kept:
  assumes "fieldsOK hs" "CHR '':'' \<notin> set status"
  shows "headerLoop (wireLines status hs) [] =
    Inr (filter (\<lambda>(name, _). name \<in> {''Set-Cookie'', ''cookie''}) hs)"
  using headerLoop_wire [OF assms] by simp

theorem cookie_headers_kept_witness:
  "headerLoop (wireLines ''HTTP/1.1 200 OK'' [(''Date'', ''today''), (''Set-Cookie'', ''auth=7'')]) []
     = Inr [(''Set-Cookie'', ''auth=7'')]"
  using cookie_headers_kept [of "[(''Date'', ''today''), (''Set-Cookie'', ''auth=7'')]" "''HTTP/1.1 200 OK''"]
  by (simp add: fieldsOK_def)

text \<open>The assertion that the colon is followed by a blank is written as an assignment: it destroys a
  field that is empty, so that a response with an empty cookie field stops the translator, and it
  accepts (and drops) any other character in the place of the blank.\<close>

theorem empty_cookie_field_aborts:
  "writeHeaders (''Set-Cookie:'' @ CRLF) data = Inl Assertion_failed \<and>
   writeHeaders (''Set-Cookie:'' @ c # val @ CRLF) data = Inr (data @ [(''Set-Cookie'', val)]) \<and>
   writeHeaders ''Set-Cookie:'' data = Inl Undefined_behaviour"
  by (simp_all add: writeHeaders_def allowedHeaders_def Let_def nth_append)

section \<open>Serving a page\<close>

text \<open>\<open>delivers env t n status hs body code n'\<close>: performing the transfer on the outside world \<open>n\<close> gives a response
  with these lines, this body in whatever pieces, and this code.\<close>

definition delivers ::
  "'n relay_env \<Rightarrow> transfer \<Rightarrow> 'n \<Rightarrow> (string \<times> string) list \<Rightarrow> string \<Rightarrow> int \<Rightarrow> 'n \<Rightarrow> bool" where
  "delivers env t n hs body code n' \<longleftrightarrow>
     (case curl_easy_perform env t n of (x, m) \<Rightarrow>
        m = n' \<and> (\<exists>status. CHR '':'' \<notin> set status \<and> header_calls x = wireLines status hs) \<and> fieldsOK hs \<and>
        concat (write_calls x) = body \<and> http_code x = code)"

lemma fold_dataWrite: "fold dataWrite chunks data = data @ concat chunks"
  by (induction chunks arbitrary: data) (simp_all add: dataWrite_def)

lemma perform_delivers:
  assumes "delivers env t (outside w) hs body code n'"
  shows "perform env t resp w =
    (Inr \<lparr>api_headers = api_headers resp @ relayed hs, api_response = api_response resp @ body, response_code = code\<rparr>,
     w\<lparr>outside := n'\<rparr>)"
proof -
  obtain x where "curl_easy_perform env t (outside w) = (x, n')" "concat (write_calls x) = body" "http_code x = code"
    "headerLoop (header_calls x) (api_headers resp) = Inr (api_headers resp @ relayed hs)"
    using assms headerLoop_wire by (auto simp: delivers_def split: prod.splits)
  then show ?thesis
    by (simp add: perform_def bind_def returnP_def liftE_def fold_dataWrite)
qed

lemma reply_run: "reply_call c w = (Inr (), w\<lparr>answer := answer w @ [c]\<rparr>)"
  by (simp add: reply_call_def modify_def)

lemma reply_headers:
  "eachP (\<lambda>(name, val). reply_call (WriteHeader name val)) hs w =
     (Inr (), w\<lparr>answer := answer w @ map (\<lambda>(name, val). WriteHeader name val) hs\<rparr>)"
  by (induction hs arbitrary: w) (auto simp: eachP_def seq_def bind_def reply_run returnP_def)

lemma sendTranslation_page:
  assumes "fromData (api_response API) = Inr (Some r)" "fitsSection tran r (response_code API)"
  shows "\<exists>out. sendTranslation API tran q w =
    (Inr (), w\<lparr>relay_log := relay_log w @ out,
               answer := answer w @ [WriteStatus (int_to_string (response_code API))] @
                 map (\<lambda>(name, val). WriteHeader name val) (api_headers API) @
                 [TryEnd (renderSection tran r (response_code API) q)]\<rparr>)"
proof -
  obtain out where "applyTo tran r (response_code API) q = (Inr (renderSection tran r (response_code API) q), out)"
    using templates.produced [OF assms(2)] by blast
  then have "sendTranslation API tran q w =
    (Inr (), w\<lparr>relay_log := relay_log w @ out,
               answer := answer w @ [WriteStatus (int_to_string (response_code API))] @
                 map (\<lambda>(name, val). WriteHeader name val) (api_headers API) @
                 [TryEnd (renderSection tran r (response_code API) q)]\<rparr>)"
    by (simp add: sendTranslation_def seq_def bind_def reply_headers liftE_def assms(1) reply_run)
  then show ?thesis by blast
qed

text \<open>The answer that a browser gets for a page.\<close>

abbreviation page_answer ::
  "translation \<Rightarrow> (string \<times> string) list \<Rightarrow> int \<Rightarrow> responseWrapper \<Rightarrow> queryBase \<Rightarrow> res_call list" where
  "page_answer tran hs code r q \<equiv>
     [WriteStatus (int_to_string code)] @ map (\<lambda>(name, val). WriteHeader name val) (relayed hs) @
     [TryEnd (renderSection tran r code q)]"

lemma sent_page:
  assumes "delivers env t (outside w) hs body code n'" "fromData body = Inr (Some r)" "fitsSection tran r code"
  shows "\<exists>w'. bind (perform env t emptyAPI) (\<lambda>resp. sendTranslation resp tran q) w = (Inr (), w') \<and>
    answer w' = answer w @ page_answer tran hs code r q \<and> outside w' = n'"
proof -
  let ?api = "\<lparr>api_headers = relayed hs, api_response = body, response_code = code\<rparr>"
  have p: "perform env t emptyAPI w = (Inr ?api, w\<lparr>outside := n'\<rparr>)"
    using perform_delivers [OF assms(1), of emptyAPI] by (simp add: emptyAPI_def)
  obtain out where "sendTranslation ?api tran q (w\<lparr>outside := n'\<rparr>) =
    (Inr (), w\<lparr>outside := n', relay_log := relay_log w @ out, answer := answer w @ page_answer tran hs code r q\<rparr>)"
    using sendTranslation_page [of ?api r tran q "w\<lparr>outside := n'\<rparr>"] assms(2,3) by auto
  then show ?thesis by (simp add: bind_def p)
qed

lemma postEvents_upload:
  "postEvents cb resp buffer (upload chunks final live) =
     bind (cb live (buffer @ concat (map fst chunks) @ final) resp) (\<lambda>_. returnP ())"
  by (induction chunks arbitrary: buffer) (auto simp: upload_def Let_def)

text \<open>How a request comes in: anything but a POST, a POST without a body, or an upload in pieces, the last of
  which arrives before the request has ended; the last argument is the body that the translator sends on.\<close>

definition incoming :: "'n relay_env \<Rightarrow> http_request \<Rightarrow> body_event list \<Rightarrow> string option \<Rightarrow> bool" where
  "incoming env rq events body \<longleftrightarrow>
     (if getMethod rq = ''post'' then
        (if contentLength rq = 0 then body = Some []
         else contentLength rq \<le> string_max env \<and>
           (\<exists>chunks final. events = upload chunks final True \<and> body = Some (concat (map fst chunks) @ final)))
      else body = None)"

definition outgoing :: "string \<Rightarrow> http_request \<Rightarrow> string option \<Rightarrow> transfer" where
  "outgoing dest rq body =
     \<lparr>opt_url = ''localhost:9001'' @ dest @ (if getQuery rq = [] then [] else ''?'' @ getQuery rq),
      opt_cookie = getHeader rq ''cookie'', opt_post = body\<rparr>"

lemma applyPage_incoming:
  assumes "incoming env rq events body" "parseURLValues (curl_unescape env) (getQuery rq) = Inr q"
  shows "applyPage env (ForwardingWrapper tran dest) rq events w =
    bind (perform env (outgoing dest rq body) emptyAPI) (\<lambda>resp. sendTranslation resp tran q) w"
proof -
  let ?t = "setCookies (getHeader rq ''cookie'') (requestWrapper (pageURL dest rq))"
  have t: "?t\<lparr>opt_post := b\<rparr> = outgoing dest rq b" for b
    by (simp add: setCookies_def requestWrapper_def outgoing_def pageURL_def)
  have drop: "bind (bind (perform env t resp) (\<lambda>resp. seq (sendTranslation resp tran q) (returnP resp))) (\<lambda>_. returnP ()) w
    = bind (perform env t resp) (\<lambda>resp. sendTranslation resp tran q) w" for t resp
    by (auto simp: bind_def seq_def returnP_def split: prod.splits sum.splits)
  show ?thesis
    using assms
    by (auto simp: incoming_def forwardPost_def wrapperPostBody_def postEvents_upload post_def get_request_def
        bind_liftE t drop split: if_splits)
qed

text \<open>The other uploads: when the last piece comes after the end of the request, the query string is read from
  an object that no longer exists.\<close>

theorem late_upload_undefined:
  assumes "getMethod rq = ''post''" and "contentLength rq \<noteq> 0" and "contentLength rq \<le> string_max env"
  shows "applyPage env (ForwardingWrapper tran dest) rq (upload chunks final False) w = (Inl Undefined_behaviour, w)"
  using assms by (simp add: forwardPost_def wrapperPostBody_def postEvents_upload bind_def liftE_def)


text \<open>The sample: a server that answers every request in the same way.\<close>

definition sample_relay :: "unit relay_env" where
  "sample_relay = \<lparr>curl_easy_perform = (\<lambda>t n.
       (\<lparr>header_calls = wireLines ''HTTP/1.1 200 OK'' [(''Date'', ''today''), (''Set-Cookie'', ''auth=7'')],
         write_calls = [''{A:1,'', ''B:2}''], http_code = 200\<rparr>, ())),
     curl_unescape = Some, string_max = 2 ^ 62\<rparr>"

definition sample_visit :: http_request where
  "sample_visit = \<lparr>getMethod = ''post'', getUrl = ''/users'', getQuery = ''q=x'',
     getHeader = (\<lambda>n. if n = ''content-length'' then ''5'' else [])\<rparr>"

lemma sample_response:
  "printable sample_user" "toDataString False sample_user = Inr ''{A:1,B:2}''" "norm sample_user = sample_user"
  by code_simp+


section \<open>Reading the link file\<close>

text \<open>The lines a link file is written with: method (\<open>True\<close> for POST), path, file, and for a forwarding page
  optionally the server's path.\<close>

datatype link_entry =
    BlankLine
  | Remark string
  | StaticLink bool string string
  | ForwardLink bool string string "string option"

fun methodLetter :: "bool \<Rightarrow> char" where
  "methodLetter True = CHR ''P''"
| "methodLetter False = CHR ''G''"

fun entryText :: "link_entry \<Rightarrow> string" where
  "entryText BlankLine = []"
| "entryText (Remark r) = CHR ''#'' # r"
| "entryText (StaticLink b dir file) = methodLetter b # ''S:'' @ dir @ '':'' @ file"
| "entryText (ForwardLink b dir file target) =
     methodLetter b # ''F:'' @ dir @ '':'' @ file @ (case target of None \<Rightarrow> [] | Some t \<Rightarrow> '':'' @ t)"

definition siteText :: "link_entry list \<Rightarrow> string" where
  "siteText es = concat (map (\<lambda>e. entryText e @ ''\<newline>'') es)"

fun entryOK :: "link_entry \<Rightarrow> bool" where
  "entryOK (StaticLink b dir file) = (dir \<noteq> [] \<and> CHR '':'' \<notin> set (tl dir))"
| "entryOK (ForwardLink b dir file target) = (dir \<noteq> [] \<and> CHR '':'' \<notin> set (tl dir) \<and> CHR '':'' \<notin> set file)"
| "entryOK _ = True"

definition siteOK :: "link_entry list \<Rightarrow> bool" where
  "siteOK es \<longleftrightarrow> list_all (\<lambda>e. entryOK e \<and> CHR ''\<newline>'' \<notin> set (entryText e)) es"

abbreviation methodName :: "bool \<Rightarrow> string" where
  "methodName b \<equiv> (if b then ''post'' else ''get'')"

text \<open>The pages the entries stand for.\<close>

fun entryPages :: "(string \<Rightarrow> string option) \<Rightarrow> link_entry \<Rightarrow> fault + (string \<times> string \<times> webpageWrapper) list" where
  "entryPages files (StaticLink b dir file) = Inr [(methodName b, dir, StaticWrapper (readEntireFile files file))]"
| "entryPages files (ForwardLink b dir file target) =
     bindE (parse (readEntireFile files file)) (\<lambda>t.
       Inr [(methodName b, dir, ForwardingWrapper t (case target of None \<Rightarrow> dir | Some d \<Rightarrow> d))])"
| "entryPages files _ = Inr []"

fun sitePages :: "(string \<Rightarrow> string option) \<Rightarrow> link_entry list \<Rightarrow> fault + (string \<times> string \<times> webpageWrapper) list" where
  "sitePages files [] = Inr []"
| "sitePages files (e # es) =
     bindE (entryPages files e) (\<lambda>ps. bindE (sitePages files es) (\<lambda>qs. Inr (ps @ qs)))"

lemma fileLines_site: "siteOK es \<Longrightarrow> fileLines (siteText es) = map entryText es"
proof (induction es)
  case (Cons e es)
  then show ?case
    by (subst fileLines.simps) (simp add: siteOK_def siteText_def)
qed (simp add: siteText_def fileLines.simps)

lemma linker_run:
  "say x l = (Inr (), l\<lparr>link_log := link_log l @ x\<rparr>)"
  "register c path page l = (Inr (), l\<lparr>links := links l @ [(methodName (c = CHR ''P''), path, page)]\<rparr>)"
  by (simp_all add: say_def register_def modify_def)

lemma linkLine_entry:
  assumes "entryOK e" "entryPages files e = Inr ps"
  shows "\<exists>l'. linkLine files (entryText e) l = (Inr True, l') \<and> links l' = links l @ ps"
proof (cases e)
  case (StaticLink b dir fl)
  then obtain c d where "dir = c # d" "CHR '':'' \<notin> set d" using assms(1) by (cases dir) auto
  with StaticLink assms(2) show ?thesis
    by (cases b) (auto simp: linkLine_def Let_def seq_def bind_def linker_run returnP_def staticWrapper_def)
next
  case (ForwardLink b dir fl target)
  then obtain c d where d: "dir = c # d" "CHR '':'' \<notin> set d" "CHR '':'' \<notin> set fl"
    using assms(1) by (cases dir) auto
  moreover obtain t where "parse (readEntireFile files fl) = Inr t"
    using assms(2) ForwardLink by (auto simp: bindE_eq_Inr)
  ultimately show ?thesis
    using ForwardLink assms(2)
    by (cases b; cases target)
      (auto simp: linkLine_def Let_def seq_def bind_def linker_run returnP_def liftE_def forwardingWrapper_def split_at_notin)
qed (use assms in \<open>auto simp: linkLine_def returnP_def\<close>)

lemma linkLoop_entries:
  "list_all entryOK es \<Longrightarrow> sitePages files es = Inr ps \<Longrightarrow>
   \<exists>l'. linkLoop files (map entryText es) l = (Inr True, l') \<and> links l' = links l @ ps"
proof (induction es arbitrary: l ps)
  case (Cons e es)
  then obtain p q where pq: "entryPages files e = Inr p" "sitePages files es = Inr q" "ps = p @ q"
    by (auto simp: bindE_eq_Inr)
  obtain l1 where l1: "linkLine files (entryText e) l = (Inr True, l1)" "links l1 = links l @ p"
    using linkLine_entry [of e files p l] Cons.prems pq by auto
  then show ?case
    using Cons.IH [of q l1] Cons.prems pq by (auto simp: bind_def)
qed (simp add: returnP_def)

text \<open>C32. A link file written for a list of pages registers exactly those pages, in their order and with the
  method, path, contents and destination each entry names; blank lines and remarks register nothing,
  a forwarding page without a destination forwards to its own path.\<close>

theorem link_file_registers:
  assumes "siteOK es" and "files linkFile = Some (siteText es)" and "sitePages files es = Inr ps"
  shows "\<exists>l'. linkPages files linkFile l = (Inr True, l') \<and> links l' = links l @ ps"
proof -
  have "list_all entryOK es" using assms(1) by (auto simp: siteOK_def list_all_iff)
  with assms show ?thesis
    by (simp add: linkPages_def fileLines_site linkLoop_entries)
qed

definition sample_site :: "link_entry list" where
  "sample_site = [Remark '' pages'', StaticLink False ''/'' ''Home.html'', BlankLine,
     ForwardLink True ''/login'' ''Login.htmt'' (Some ''/auth''), ForwardLink False ''/user'' ''User.htmt'' None]"

definition sample_files :: "string \<Rightarrow> string option" where
  "sample_files = [''Link.txt'' \<mapsto> siteText sample_site, ''Home.html'' \<mapsto> ''<h1>'',
     ''Login.htmt'' \<mapsto> ''hello'', ''User.htmt'' \<mapsto> ''me'']"

lemma sample_pages:
  "sitePages sample_files sample_site = Inr
     [(''get'', ''/'', StaticWrapper ''<h1>''),
      (''post'', ''/login'', ForwardingWrapper (Translation Always [HTML ''hello'']) ''/auth''),
      (''get'', ''/user'', ForwardingWrapper (Translation Always [HTML ''me'']) ''/user'')]"
proof -
  have "parse ''hello'' = Inr (Translation Always [HTML ''hello''])" "parse ''me'' = Inr (Translation Always [HTML ''me''])"
    by code_simp+
  then show ?thesis by (simp add: sample_site_def sample_files_def readEntireFile_def)
qed

theorem link_file_registers_witness:
  "\<exists>l'. linkPages sample_files ''Link.txt'' \<lparr>links = [], link_log = []\<rparr> = (Inr True, l') \<and> links l' =
     [(''get'', ''/'', StaticWrapper ''<h1>''),
      (''post'', ''/login'', ForwardingWrapper (Translation Always [HTML ''hello'']) ''/auth''),
      (''get'', ''/user'', ForwardingWrapper (Translation Always [HTML ''me'']) ''/user'')]"
proof -
  have "siteOK sample_site" by (simp add: siteOK_def sample_site_def)
  moreover have "sample_files ''Link.txt'' = Some (siteText sample_site)" by (simp add: sample_files_def)
  ultimately show ?thesis
    using link_file_registers [OF _ _ sample_pages, of "''Link.txt''" "\<lparr>links = [], link_log = []\<rparr>"] by simp
qed

section \<open>The plain relay\<close>

text \<open>The plain relay leaves out the question mark between path and query, so that the request it sends
  differs from the one that a page with the same path sends, whenever there is a query.\<close>

theorem plain_relay_url:
  assumes "getMethod rq \<noteq> ''post''" "getQuery rq \<noteq> []"
  shows "forward env rq events = bind (perform env
      \<lparr>opt_url = ''localhost:9001'' @ getUrl rq @ getQuery rq, opt_cookie = getHeader rq ''cookie'', opt_post = None\<rparr>
      emptyAPI) writeBack \<and>
    opt_url (outgoing (getUrl rq) rq None) \<noteq> ''localhost:9001'' @ getUrl rq @ getQuery rq"
  using assms by (simp add: forward_def get_request_def setCookies_def requestWrapper_def outgoing_def)

theorem plain_relay_url_witness:
  "opt_url (outgoing ''/a'' (sample_visit\<lparr>getMethod := ''get'', getUrl := ''/a''\<rparr>) None) \<noteq> ''localhost:9001/aq=x''"
  using plain_relay_url [of "sample_visit\<lparr>getMethod := ''get'', getUrl := ''/a''\<rparr>" sample_relay "[]"]
  by (simp add: sample_visit_def)

end
