(* ===== verification/TemplateText.thy ===== *)
theory TemplateText
  imports Rendering
begin

text \<open>
  The written form of a template and the proof that the parser of \<^verbatim>\<open>Translator/src/Source.cpp\<close> reads it
  back. \<open>printValues\<close> is the text of a template, \<open>wfValues\<close> says which templates have one: names
  without angle brackets, raw HTML that contains neither \<^verbatim>\<open><HTMT\<close> nor \<^verbatim>\<open></HTMT\<close>, conditions whose
  parts contain no operator of their own. The search for the closing tag is followed through nested
  sections of every kind, its depth kept at the width of \<^verbatim>\<open>size_t\<close>.
\<close>

section \<open>Writing a template\<close>

definition printSub :: "subCondition \<Rightarrow> string" where
  "printSub c =
     (case action c of
        equal_cond \<Rightarrow> cond_variable c @ ''='' @ cond_constant c
      | notEqual \<Rightarrow> cond_variable c @ ''!'' @ cond_constant c
      | always \<Rightarrow> [])"

fun printConds :: "subCondition list \<Rightarrow> conjunction list \<Rightarrow> string" where
  "printConds [] js = []"
| "printConds (c # cs) [] = printSub c"
| "printConds (c # cs) (j # js) = printSub c @ divisor j # printConds cs js"

definition wfSub :: "subCondition \<Rightarrow> bool" where
  "wfSub c \<longleftrightarrow>
     list_all (\<lambda>x. x \<notin> set ''&|<>='') (cond_variable c) \<and> list_all (\<lambda>x. x \<notin> set ''&|<>'') (cond_constant c) \<and>
     (action c = notEqual \<longrightarrow> CHR ''!'' \<notin> set (cond_variable c) \<and> CHR ''='' \<notin> set (cond_constant c)) \<and>
     (action c = always \<longrightarrow> cond_variable c = [] \<and> cond_constant c = [])"

definition wfCond :: "translationCondition \<Rightarrow> bool" where
  "wfCond c \<longleftrightarrow> length (conditions c) = Suc (length (conjunctions c)) \<and> list_all wfSub (conditions c)"

lemma parseSub_print:
  assumes "wfSub c"
  shows "parseSubCondition (printSub c) = c"
proof -
  obtain a k v where c: "c = \<lparr>action = a, cond_constant = k, cond_variable = v\<rparr>" by (cases c)
  from assms have w: "CHR ''='' \<notin> set v" "a = notEqual \<Longrightarrow> CHR ''!'' \<notin> set v \<and> CHR ''='' \<notin> set k"
    "a = always \<Longrightarrow> v = [] \<and> k = []"
    by (auto simp: wfSub_def list_all_iff c)
  then show ?thesis
    using split_at_notin [of "CHR ''=''" "v @ CHR ''!'' # k"]
    by (cases a) (simp_all add: c printSub_def parseSubCondition_def)
qed

lemma printSub_chars: "wfSub c \<Longrightarrow> x \<in> set ''&|<>'' \<Longrightarrow> x \<notin> set (printSub c)"
  by (auto simp: wfSub_def list_all_iff printSub_def split: condition.splits)

lemma printSub_divisors: "wfSub c \<Longrightarrow> CHR ''&'' \<notin> set (printSub c) \<and> CHR ''|'' \<notin> set (printSub c)"
  by (simp add: printSub_chars)

lemma conditionLoop_print:
  "length cs = Suc (length js) \<Longrightarrow> list_all wfSub cs \<Longrightarrow>
   conditionLoop (printConds cs js) = \<lparr>conditions = cs, conjunctions = js\<rparr>"
proof (induction cs js rule: printConds.induct)
  case (2 c cs)
  then show ?case
    by (subst conditionLoop.simps) (simp add: splitDivisor_none printSub_divisors parseSub_print)
next
  case (3 c cs j js)
  then have "splitDivisor (printConds (c # cs) (j # js)) = (printSub c, Some (j, printConds cs js))"
    by (simp add: splitDivisor_extend splitDivisor_none printSub_divisors)
  then show ?case
    using 3 by (subst conditionLoop.simps) (simp add: parseSub_print)
qed simp

lemma printConds_chars:
  assumes "x \<in> set ''<>''"
  shows "list_all wfSub cs \<Longrightarrow> x \<notin> set (printConds cs js)"
proof (induction cs js rule: printConds.induct)
  case (3 c cs j js)
  then show ?case
    using printSub_chars [of c x] assms by (cases j) auto
qed (use assms printSub_chars in auto)


fun kindOf :: "matchType \<Rightarrow> nat" where
  "kindOf Always = 0"
| "kindOf (Tag _) = 0"
| "kindOf (Code _) = 1"
| "kindOf (Condition _) = 2"

fun headOf :: "matchType \<Rightarrow> string" where
  "headOf Always = []"
| "headOf (Tag name) = name"
| "headOf (Code n) = int_to_string n"
| "headOf (Condition c) = printConds (conditions c) (conjunctions c)"

fun printValue :: "translationValue \<Rightarrow> string"
and printTranslation :: "translation \<Rightarrow> string"
and printValues :: "translationValue list \<Rightarrow> string"
where
  "printValue (Access name) = ''<HTMTVAL:'' @ name @ ''>''"
| "printValue (HTML html) = html"
| "printValue (SubTranslation t) = printTranslation t"
| "printValue (QueryValue name) = ''<HTMTQUERY:'' @ name @ ''>''"
| "printTranslation (Translation m vs) =
     tagOpens ! kindOf m @ headOf m @ ''>'' @ printValues vs @ tagCloses ! kindOf m"
| "printValues [] = []"
| "printValues (v # vs) = printValue v @ printValues vs"

definition plain :: "string \<Rightarrow> bool" where
  "plain name \<longleftrightarrow> CHR ''<'' \<notin> set name \<and> CHR ''>'' \<notin> set name"

definition cleanHTML :: "string \<Rightarrow> bool" where
  "cleanHTML html \<longleftrightarrow> \<not> sublist ''<HTMT'' html \<and> \<not> sublist ''</HTMT'' html"

fun wfMatch :: "matchType \<Rightarrow> bool" where
  "wfMatch Always = True"
| "wfMatch (Tag name) = (name \<noteq> [] \<and> plain name)"
| "wfMatch (Code n) = (- (2 ^ 31) \<le> n \<and> n < 2 ^ 31)"
| "wfMatch (Condition c) = wfCond c"

fun isHTML :: "translationValue \<Rightarrow> bool" where
  "isHTML (HTML _) = True"
| "isHTML _ = False"

fun wfValue :: "translationValue \<Rightarrow> bool"
and wfTranslation :: "translation \<Rightarrow> bool"
and wfValues :: "translationValue list \<Rightarrow> bool"
where
  "wfValue (Access name) = plain name"
| "wfValue (HTML html) = (html \<noteq> [] \<and> cleanHTML html)"
| "wfValue (SubTranslation t) = wfTranslation t"
| "wfValue (QueryValue name) = plain name"
| "wfTranslation (Translation m vs) = (wfMatch m \<and> wfValues vs)"
| "wfValues [] = True"
| "wfValues (v # vs) = (wfValue v \<and> wfValues vs \<and> \<not> (isHTML v \<and> vs \<noteq> [] \<and> isHTML (hd vs)))"

lemma wfValues_append: "wfValues (a @ b) \<Longrightarrow> wfValues a \<and> wfValues b"
  by (induction a) (auto simp: hd_append split: if_splits)

lemma printValues_append [simp]: "printValues (a @ b) = printValues a @ printValues b"
  by (induction a) auto

subsection \<open>Numbers\<close>

lemma to_string_head:
  "dropWhile isspace (to_string m) = to_string m" "hd (to_string m) \<noteq> CHR ''+''" "hd (to_string m) \<noteq> CHR ''-''"
proof -
  obtain d ds where d: "to_string m = d # ds" by (cases "to_string m") auto
  then have "is_digit d" using to_string_digits [of d m] by simp
  then show "dropWhile isspace (to_string m) = to_string m" "hd (to_string m) \<noteq> CHR ''+''" "hd (to_string m) \<noteq> CHR ''-''"
    by (auto simp: d is_digit_def isspace_def)
qed

lemma stol_to_string:
  assumes "- (2 ^ 31) \<le> n" "n < 2 ^ 31"
  shows "stol (int_to_string n) = Inr n"
proof -
  have tw: "takeWhile is_digit (to_string m) = to_string m" for m
    using takeWhile_to_string [of "[]" m] by simp
  show ?thesis
    using assms by (cases "n < 0") (simp_all add: stol_def int_to_string_def Let_def isspace_def tw to_string_head)
qed

lemma int_to_string_plain: "plain (int_to_string n)"
proof -
  have "is_digit c \<or> c = CHR ''-''" if "c \<in> set (int_to_string n)" for c
    using that by (auto simp: int_to_string_def dest: to_string_digits split: if_splits)
  then show ?thesis by (fastforce simp: plain_def is_digit_def)
qed

lemma headOf_plain: "wfMatch m \<Longrightarrow> plain (headOf m)"
  using int_to_string_plain by (cases m) (auto simp: wfCond_def plain_def dest: printConds_chars [rotated])

lemma matchOf_headOf: "wfMatch m \<Longrightarrow> matchOf (kindOf m) (headOf m) = Inr m"
  by (cases m) (auto simp: matchOf_def stol_to_string wfCond_def parseCondition_def conditionLoop_print)

subsection \<open>Texts in which a pattern does not start\<close>

fun quiet :: "string \<Rightarrow> string \<Rightarrow> string \<Rightarrow> bool" where
  "quiet p [] y = True"
| "quiet p (c # x) y = (\<not> prefix p (c # x @ y) \<and> quiet p x y)"

lemma quiet_append [simp]: "quiet p (a @ b) y \<longleftrightarrow> quiet p a (b @ y) \<and> quiet p b y"
  by (induction a) auto

lemma find_pos_quiet: "quiet p x y \<Longrightarrow> find_pos p (x @ y) = map_option ((+) (length x)) (find_pos p y)"
  by (induction x) (cases "find_pos p y"; auto)+

lemma find_pos_prefix: "prefix p s \<Longrightarrow> find_pos p s = Some 0"
  by (cases s) auto

lemma quiet_plain: "CHR ''<'' \<notin> set x \<Longrightarrow> quiet (CHR ''<'' # p) x y"
  by (induction x) auto

lemma matchHere_prefix: "length p \<le> length s \<Longrightarrow> matchHere p s \<longleftrightarrow> prefix p s"
  by (auto simp: matchHere_def min_def prefix_def) (metis append_take_drop_id)

lemma scan_quiet:
  assumes "length p \<le> length y" "length q \<le> length y"
  shows "quiet p x y \<Longrightarrow> quiet q x y \<Longrightarrow> tagSearchLoop p q d (x @ y) pos = tagSearchLoop p q d y (pos + length x)"
proof (induction x arbitrary: pos)
  case (Cons c x)
  then have "\<not> matchHere p (c # x @ y)" "\<not> matchHere q (c # x @ y)"
    using assms by (simp_all add: matchHere_prefix)
  with Cons show ?case by (simp add: tagSearchLoop.simps [of p q d "c # x @ y"])
qed simp

lemma quiet_clean:
  assumes "cleanHTML h" "y = [] \<or> hd y = CHR ''<''" "CHR ''<'' \<notin> set p"
    and "prefix ''HTMT'' p \<or> prefix ''/HTMT'' p"
  shows "quiet (CHR ''<'' # p) h y"
  using assms(1)
proof (induction h)
  case (Cons c h)
  then have "cleanHTML h" by (auto simp: cleanHTML_def sublist_Cons_right)
  moreover have "\<not> prefix (CHR ''<'' # p) (c # h @ y)"
  proof
    assume a: "prefix (CHR ''<'' # p) (c # h @ y)"
    then have "prefix p (h @ y)" by simp
    then have "prefix p h"
      using assms(2,3) by (cases y) (auto simp: prefix_append prefix_Cons)
    with a assms(4) have "prefix ''<HTMT'' (c # h) \<or> prefix ''</HTMT'' (c # h)"
      by (auto intro: prefix_order.trans)
    with Cons.prems show False by (auto simp: cleanHTML_def)
  qed
  ultimately show ?case using Cons.IH by simp
qed simp


text \<open>What follows a piece of raw HTML in a written template begins with a tag.\<close>

definition tagNext :: "string \<Rightarrow> bool" where
  "tagNext y \<longleftrightarrow> y = [] \<or> hd y = CHR ''<''"

lemmas tag_texts = tagOpens_def tagCloses_def valueTags_def

lemma kindOf_less: "kindOf m < 3"
  by (cases m) simp_all

lemma less_3_cases: "i < 3 \<Longrightarrow> i = 0 \<or> i = 1 \<or> i = (2::nat)"
  by auto

lemma tagNext_tags [simp]: "i < 3 \<Longrightarrow> tagNext (tagOpens ! i @ x)" "i < 3 \<Longrightarrow> tagNext (tagCloses ! i @ x)"
  by (auto simp: tagNext_def tag_texts dest!: less_3_cases)

lemma tagNext_printValue: "\<not> isHTML v \<Longrightarrow> tagNext (printValue v @ y)"
proof (cases v)
  case (SubTranslation t)
  then show ?thesis by (cases t) (simp add: kindOf_less)
qed (auto simp: tagNext_def)

lemma tagNext_printValues:
  "tagNext y \<Longrightarrow> vs = [] \<or> \<not> isHTML (hd vs) \<Longrightarrow> tagNext (printValues vs @ y)"
  by (cases vs) (auto simp: tagNext_printValue)

lemma quiet_tags:
  assumes "cleanHTML h" "tagNext y"
  shows "i < 3 \<Longrightarrow> quiet (tagOpens ! i) h y" "i < 3 \<Longrightarrow> quiet (tagCloses ! i) h y"
    "i < 2 \<Longrightarrow> quiet (valueTags ! i) h y"
  using assms
  by (auto simp: tag_texts tagNext_def numeral_3_eq_3 less_Suc_eq numeral_2_eq_2 intro!: quiet_clean)

lemma quiet_names:
  assumes "CHR ''<'' \<notin> set n" "i < 3"
  shows "quiet (tagOpens ! i) (''<HTMTVAL:'' @ n @ ''>'') y" "quiet (tagCloses ! i) (''<HTMTVAL:'' @ n @ ''>'') y"
    "quiet (tagOpens ! i) (''<HTMTQUERY:'' @ n @ ''>'') y" "quiet (tagCloses ! i) (''<HTMTQUERY:'' @ n @ ''>'') y"
  using assms quiet_plain [of "n @ ''>''"] by (auto simp: tag_texts dest!: less_3_cases)

lemma quiet_others:
  assumes "i < 3" "j < 3" "i \<noteq> j" "CHR ''<'' \<notin> set h"
  shows "quiet (tagOpens ! i) (tagOpens ! j @ h @ ''>'') y" "quiet (tagCloses ! i) (tagOpens ! j @ h @ ''>'') y"
    "quiet (tagOpens ! i) (tagCloses ! j) y" "quiet (tagCloses ! i) (tagCloses ! j) y"
  using assms quiet_plain [of "h @ ''>''"] by (auto simp: tag_texts dest!: less_3_cases)

lemma lengths_le: "i < 3 \<Longrightarrow> length (tagOpens ! i) \<le> length (tagCloses ! i)"
  by (auto simp: tag_texts dest!: less_3_cases)

text \<open>The two tags themselves.\<close>

lemma scan_open:
  assumes "i < 3" "CHR ''<'' \<notin> set h" "length (tagCloses ! i) \<le> length y"
  shows "tagSearchLoop (tagOpens ! i) (tagCloses ! i) d (tagOpens ! i @ h @ ''>'' @ y) pos
    = tagSearchLoop (tagOpens ! i) (tagCloses ! i) (d + 1) y (pos + length (tagOpens ! i @ h @ ''>''))"
proof -
  define P Q where "P = tagOpens ! i" and "Q = tagCloses ! i"
  obtain p q where p: "P = CHR ''<'' # p" and q: "Q = CHR ''<'' # q" "CHR ''<'' \<notin> set q"
    using assms(1) by (auto simp: P_def Q_def tag_texts dest!: less_3_cases)
  have "tagSearchLoop P Q d (P @ h @ ''>'' @ y) pos
    = tagSearchLoop P Q (d + 1) (tl (h @ ''>'') @ y) (pos + length P + 1)"
    by (cases h) (simp_all add: p tagSearchLoop.simps [of _ _ d] matchHere_prefix)
  also have "\<dots> = tagSearchLoop P Q (d + 1) y (pos + length P + 1 + length (tl (h @ ''>'')))"
  proof (rule scan_quiet)
    have n: "CHR ''<'' \<notin> set (tl (h @ ''>''))" using assms(2) by (cases h) auto
    show "quiet P (tl (h @ ''>'')) y" "quiet Q (tl (h @ ''>'')) y"
      unfolding p q by (rule quiet_plain [OF n])+
  qed (use assms lengths_le [of i] in \<open>auto simp: P_def Q_def\<close>)
  finally show ?thesis by (simp add: P_def Q_def add.assoc)
qed

lemma scan_close:
  assumes "i < 3" "d \<noteq> 0" "length (tagCloses ! i) \<le> length y"
  shows "tagSearchLoop (tagOpens ! i) (tagCloses ! i) d (tagCloses ! i @ y) pos
    = tagSearchLoop (tagOpens ! i) (tagCloses ! i) (d - 1) y (pos + length (tagCloses ! i))"
proof -
  define P Q where "P = tagOpens ! i" and "Q = tagCloses ! i"
  obtain p q where p: "P = CHR ''<'' # p" and q: "Q = CHR ''<'' # q" "CHR ''<'' \<notin> set q"
    and np: "\<not> prefix P (Q @ y)"
    using assms(1) by (auto simp: P_def Q_def tag_texts dest!: less_3_cases)
  have l: "length P \<le> length y" "length Q \<le> length y"
    using assms lengths_le [of i] by (auto simp: P_def Q_def)
  then have "tagSearchLoop P Q d (Q @ y) pos = tagSearchLoop P Q (d - 1) (q @ y) (pos + 1)"
    using np assms(2) by (simp add: q tagSearchLoop.simps [of _ _ d] matchHere_prefix)
  also have "\<dots> = tagSearchLoop P Q (d - 1) y (pos + 1 + length q)"
    using l quiet_plain [OF q(2)] by (intro scan_quiet) (auto simp: p q)
  finally show ?thesis by (simp add: P_def Q_def [symmetric] q)
qed

lemma scan_final:
  assumes "i < 3"
  shows "tagSearchLoop (tagOpens ! i) (tagCloses ! i) 0 (tagCloses ! i @ y) pos = Inr (pos + length (tagCloses ! i))"
  using assms by (auto simp: tag_texts tagSearchLoop.simps [of _ _ 0] matchHere_prefix dest!: less_3_cases)


text \<open>The search passes over a written template and comes back to the depth it had.\<close>

abbreviation scan :: "nat \<Rightarrow> 64 word \<Rightarrow> string \<Rightarrow> nat \<Rightarrow> fault + nat" where
  "scan i \<equiv> tagSearchLoop (tagOpens ! i) (tagCloses ! i)"

definition crosses :: "nat \<Rightarrow> string \<Rightarrow> string \<Rightarrow> bool" where
  "crosses i x y \<longleftrightarrow>
     (\<forall>d pos. unat d + length x < 2 ^ 64 \<longrightarrow> scan i d (x @ y) pos = scan i d y (pos + length x))"

lemma crosses_quiet:
  assumes "i < 3" "length (tagCloses ! i) \<le> length y" "quiet (tagOpens ! i) x y" "quiet (tagCloses ! i) x y"
  shows "crosses i x y"
  unfolding crosses_def using assms lengths_le [of i] by (auto intro!: scan_quiet)

lemma crosses_append: "crosses i x (x' @ y) \<Longrightarrow> crosses i x' y \<Longrightarrow> crosses i (x @ x') y"
  by (simp add: crosses_def add.assoc)

lemma crosses_section:
  assumes "i < 3" "CHR ''<'' \<notin> set h" "length (tagCloses ! i) \<le> length y" "crosses i body (tagCloses ! i @ y)"
  shows "crosses i (tagOpens ! i @ h @ ''>'' @ body @ tagCloses ! i) y"
  unfolding crosses_def
proof (intro allI impI)
  fix d :: "64 word" and pos
  let ?n = "length (tagOpens ! i @ h @ ''>'')"
  assume b: "unat d + length (tagOpens ! i @ h @ ''>'' @ body @ tagCloses ! i) < 2 ^ 64"
  then have d: "unat (d + 1) = unat d + 1"
    by (simp add: unat_word_ariths)
  then have nz: "d + 1 \<noteq> 0"
    by (metis Suc_eq_plus1 nat.simps(3) unat_0)
  have "scan i d (tagOpens ! i @ h @ ''>'' @ body @ tagCloses ! i @ y) pos
    = scan i (d + 1) (body @ tagCloses ! i @ y) (pos + ?n)"
    using assms by (intro scan_open) auto
  also have "\<dots> = scan i (d + 1) (tagCloses ! i @ y) (pos + ?n + length body)"
    using assms(4) b d by (auto simp: crosses_def)
  also have "\<dots> = scan i d y (pos + ?n + length body + length (tagCloses ! i))"
    using scan_close [OF assms(1) nz assms(3)] by simp
  finally show "scan i d ((tagOpens ! i @ h @ ''>'' @ body @ tagCloses ! i) @ y) pos
    = scan i d y (pos + length (tagOpens ! i @ h @ ''>'' @ body @ tagCloses ! i))"
    by (simp add: add.assoc)
qed

lemma crosses_other_section:
  assumes "i < 3" "j < 3" "i \<noteq> j" "CHR ''<'' \<notin> set h" "length (tagCloses ! i) \<le> length y"
    and "crosses i body (tagCloses ! j @ y)"
  shows "crosses i (tagOpens ! j @ h @ ''>'' @ body @ tagCloses ! j) y"
proof -
  have "crosses i (tagCloses ! j) y"
    using assms by (intro crosses_quiet quiet_others) auto
  then have "crosses i (body @ tagCloses ! j) y"
    using assms(6) by (rule crosses_append [rotated])
  moreover have "crosses i (tagOpens ! j @ h @ ''>'') ((body @ tagCloses ! j) @ y)"
    using assms by (intro crosses_quiet quiet_others) auto
  ultimately have "crosses i ((tagOpens ! j @ h @ ''>'') @ body @ tagCloses ! j) y"
    by (rule crosses_append [rotated])
  then show ?thesis by simp
qed

lemma crosses_print:
  assumes "i < 3"
  shows "wfValue v \<Longrightarrow> (isHTML v \<Longrightarrow> tagNext y) \<Longrightarrow> length (tagCloses ! i) \<le> length y \<Longrightarrow> crosses i (printValue v) y"
    and "wfTranslation t \<Longrightarrow> length (tagCloses ! i) \<le> length y \<Longrightarrow> crosses i (printTranslation t) y"
    and "wfValues vs \<Longrightarrow> tagNext y \<Longrightarrow> length (tagCloses ! i) \<le> length y \<Longrightarrow> crosses i (printValues vs) y"
proof (induction v and t and vs arbitrary: y and y and y rule: printValue_printTranslation_printValues.induct)
  case (1 name)
  then show ?case using assms quiet_names [of name i]
    by (simp only: printValue.simps) (intro crosses_quiet; simp add: plain_def)
next
  case (2 html)
  then show ?case using assms quiet_tags [of html y i] by (intro crosses_quiet) auto
next
  case (4 name)
  then show ?case using assms quiet_names [of name i]
    by (simp only: printValue.simps) (intro crosses_quiet; simp add: plain_def)
next
  case (5 m vs)
  then have "crosses i (printValues vs) (tagCloses ! kindOf m @ y)" "CHR ''<'' \<notin> set (headOf m)"
    using headOf_plain [of m] by (auto simp: plain_def kindOf_less)
  then show ?case
    using crosses_section [of i "headOf m" y "printValues vs"] 5(3) kindOf_less [of m] assms
      crosses_other_section [of i "kindOf m" "headOf m" y "printValues vs"]
    by (cases "i = kindOf m") auto
next
  case (7 v vs)
  have "crosses i (printValue v) (printValues vs @ y)"
    using 7 by (intro 7(1)) (auto intro!: tagNext_printValues)
  moreover have "crosses i (printValues vs) y"
    using 7 by (intro 7(2)) auto
  ultimately show ?case by (simp add: crosses_append)
qed (auto simp: crosses_def)

lemma tagSearch_section:
  assumes "i < 3" "CHR ''<'' \<notin> set h" "wfValues vs" "length (printValues vs) < 2 ^ 64"
  shows "tagSearch (tagOpens ! i) (tagCloses ! i) (tagOpens ! i @ h @ ''>'' @ printValues vs @ tagCloses ! i @ y)
    = Inr (length (tagOpens ! i @ h @ ''>'' @ printValues vs @ tagCloses ! i))"
proof -
  have "crosses i (printValues vs) (tagCloses ! i @ y)"
    using assms by (intro crosses_print) auto
  with assms(4) have "scan i 0 (printValues vs @ tagCloses ! i @ y) n = scan i 0 (tagCloses ! i @ y) (n + length (printValues vs))" for n
    by (simp add: crosses_def)
  then show ?thesis
    using assms(1,2) scan_open [of i h "printValues vs @ tagCloses ! i @ y" "- 1" 0]
    by (simp add: tagSearch_def matchHere_prefix scan_final add.assoc)
qed


subsection \<open>Reading a written template\<close>

fun flat :: "translationValue \<Rightarrow> bool" where
  "flat (SubTranslation _) = False"
| "flat _ = True"

lemma find_pos_later:
  assumes "quiet p h s" "s \<noteq> []" "\<not> prefix p s"
  obtains x where "find_pos p (h @ s) = map_option (\<lambda>k. Suc (length h + k)) x"
proof
  show "find_pos p (h @ s) = map_option (\<lambda>k. Suc (length h + k)) (find_pos p (tl s))"
    using assms by (cases s) (simp_all add: find_pos_quiet option.map_comp comp_def)
qed

lemma nearer_later [simp]:
  "\<not> nearer (map_option (\<lambda>k. Suc (n + k)) x) (Some n)" "nearer (Some n) (map_option (\<lambda>k. Suc (n + k)) x)"
  by (cases x; simp add: nearer_def)+

lemma parseSubHTML_step:
  assumes s: "s = h @ valueTags ! i @ c # n @ ''>'' @ rest" and "CHR ''>'' \<notin> set n"
    and "find_pos (valueTags ! i) s = Some (length h)" "i < 2"
    and "nearer (find_pos (valueTags ! 1) s) (find_pos (valueTags ! 0) s) \<longleftrightarrow> i = 1"
  shows "parseSubHTML s = bindE (parseSubHTML rest) (\<lambda>vs.
    Inr ((if h \<noteq> [] then [HTML h] else []) @ (if i = 0 then Access n else QueryValue n) # vs))"
proof -
  let ?l = "length (valueTags ! i)"
  have "s \<noteq> []" "drop (length h + ?l + 1) s = n @ CHR ''>'' # rest" "length h + ?l + 1 < length s" "take (length h) s = h"
    by (simp_all add: s)
  moreover have "i = 0 \<or> i = 1" using assms(4) by auto
  ultimately show ?thesis
    using assms(2,3,5) by (subst parseSubHTML.simps) (auto simp: Let_def)
qed

lemma parseSubHTML_Access:
  assumes "cleanHTML h" "plain n"
  shows "parseSubHTML (h @ ''<HTMTVAL:'' @ n @ ''>'' @ rest) =
    bindE (parseSubHTML rest) (\<lambda>vs. Inr ((if h \<noteq> [] then [HTML h] else []) @ Access n # vs))"
proof -
  let ?y = "''<HTMTVAL:'' @ n @ ''>'' @ rest"
  have q: "quiet (valueTags ! i) h ?y" if "i < 2" for i
    using that assms by (intro quiet_tags) (auto simp: tagNext_def)
  have v: "find_pos (valueTags ! 0) (h @ ?y) = Some (length h)"
    by (simp only: find_pos_quiet [OF q]) (simp add: valueTags_def)
  obtain x where x: "find_pos (valueTags ! 1) (h @ ?y) = map_option (\<lambda>k. Suc (length h + k)) x"
    using q [of 1] by (rule find_pos_later) (simp_all add: valueTags_def)
  show ?thesis
    using parseSubHTML_step [OF _ _ v, of "CHR '':''" n rest] assms(2) unfolding v x
    by (simp add: plain_def valueTags_def)
qed

lemma parseSubHTML_Query:
  assumes "cleanHTML h" "plain n"
  shows "parseSubHTML (h @ ''<HTMTQUERY:'' @ n @ ''>'' @ rest) =
    bindE (parseSubHTML rest) (\<lambda>vs. Inr ((if h \<noteq> [] then [HTML h] else []) @ QueryValue n # vs))"
proof -
  let ?y = "''<HTMTQUERY:'' @ n @ ''>'' @ rest"
  have q: "quiet (valueTags ! i) h ?y" if "i < 2" for i
    using that assms by (intro quiet_tags) (auto simp: tagNext_def)
  have v: "find_pos (valueTags ! 1) (h @ ?y) = Some (length h)"
    by (simp only: find_pos_quiet [OF q]) (simp add: valueTags_def)
  obtain x where x: "find_pos (valueTags ! 0) (h @ ?y) = map_option (\<lambda>k. Suc (length h + k)) x"
    using q [of 0] by (rule find_pos_later) (simp_all add: valueTags_def)
  show ?thesis
    using parseSubHTML_step [OF _ _ v, of "CHR '':''" n rest] assms(2) unfolding v x
    by (simp add: plain_def valueTags_def)
qed

lemma parseSubHTML_text:
  assumes "cleanHTML h" "h \<noteq> []"
  shows "parseSubHTML h = Inr [HTML h]"
proof -
  have "find_pos (valueTags ! i) h = None" if "i < 2" for i
    using that find_pos_quiet [OF quiet_tags(3) [OF assms(1), of "[]" i]]
    by (auto simp: tagNext_def valueTags_def numeral_2_eq_2 less_Suc_eq)
  then show ?thesis
    using assms(2) by (subst parseSubHTML.simps) (simp add: Let_def nearer_def)
qed

lemma parseSubHTML_print: "wfValues vs \<Longrightarrow> list_all flat vs \<Longrightarrow> parseSubHTML (printValues vs) = Inr vs"
proof (induction vs rule: length_induct)
  case (1 vs)
  have step: "parseSubHTML (h @ printValue v @ printValues ws) = Inr ((if h \<noteq> [] then [HTML h] else []) @ v # ws)"
    if "cleanHTML h" "wfValues (v # ws)" "list_all flat (v # ws)" "\<not> isHTML v" "length ws < length vs" for h v ws
    using that 1(1) parseSubHTML_Access [of h _ "printValues ws"] parseSubHTML_Query [of h _ "printValues ws"]
    by (cases v) auto
  show ?case
  proof (cases vs)
    case Nil
    then show ?thesis by (simp add: parseSubHTML.simps)
  next
    case c: (Cons v ws)
    show ?thesis
    proof (cases "isHTML v")
      case False
      with step [of "[]" v ws] 1(2,3) c show ?thesis by (simp add: cleanHTML_def)
    next
      case True
      then obtain h where h: "v = HTML h" by (cases v) auto
      with 1(2,3) c step [of h "hd ws" "tl ws"] show ?thesis
        by (cases ws) (auto simp: parseSubHTML_text)
    qed
  qed
qed

lemma quiet_flat:
  assumes "i < 3" "wfValues vs" "list_all flat vs" "tagNext y"
  shows "quiet (tagOpens ! i) (printValues vs) y"
  using assms(2,3)
proof (induction vs)
  case (Cons v vs)
  have "quiet (tagOpens ! i) (printValue v) (printValues vs @ y)"
  proof (cases v)
    case (HTML h)
    then show ?thesis
      using Cons.prems assms(1,4) by (auto intro!: quiet_tags tagNext_printValues)
  next
    case (Access n)
    then show ?thesis
      using Cons.prems quiet_names(1) [of n i] assms(1) by (auto simp: plain_def)
  next
    case (QueryValue n)
    then show ?thesis
      using Cons.prems quiet_names(3) [of n i] assms(1) by (auto simp: plain_def)
  next
    case (SubTranslation t)
    then show ?thesis using Cons.prems by simp
  qed
  with Cons show ?case by simp
qed simp

lemma min_element_first:
  assumes "length found = 3" "i < 3" "found ! i = Some k" "\<And>j. j < 3 \<Longrightarrow> j \<noteq> i \<Longrightarrow> nearer (Some k) (found ! j) \<and> \<not> nearer (found ! j) (Some k)"
  shows "min_element found = i"
proof -
  have u: "[Suc 0..<3] = [Suc 0, 2]" by (simp add: upt_rec)
  show ?thesis
    using assms(2-4) assms(4) [of 0] assms(4) [of 1] assms(4) [of 2]
    by (auto simp: min_element_def assms(1) u simp del: upt_conv_Cons dest!: less_3_cases)
qed

lemma length_tagOpens: "length tagOpens = 3"
  by (simp add: tagOpens_def)

lemma open_first:
  assumes "i < 3" "\<And>j. j < 3 \<Longrightarrow> quiet (tagOpens ! j) x (tagOpens ! i @ y)"
  shows "min_element (findNextSet (x @ tagOpens ! i @ y) tagOpens) = i"
    and "findNextSet (x @ tagOpens ! i @ y) tagOpens ! i = Some (length x)"
proof -
  let ?s = "x @ tagOpens ! i @ y"
  let ?f = "findNextSet ?s tagOpens"
  have len: "length ?f = 3" and nth: "\<And>j. j < 3 \<Longrightarrow> ?f ! j = find_pos (tagOpens ! j) ?s"
    by (simp_all add: findNextSet_def length_tagOpens)
  show f: "?f ! i = Some (length x)"
    using assms by (simp add: nth find_pos_quiet find_pos_prefix)
  have "nearer (Some (length x)) (?f ! j) \<and> \<not> nearer (?f ! j) (Some (length x))" if j: "j < 3" "j \<noteq> i" for j
  proof -
    have "tagOpens ! i @ y \<noteq> []" "\<not> prefix (tagOpens ! j) (tagOpens ! i @ y)"
      using assms(1) j by (auto simp: tagOpens_def dest!: less_3_cases)
    then obtain z where "find_pos (tagOpens ! j) ?s = map_option (\<lambda>k. Suc (length x + k)) z"
      by (rule find_pos_later [OF assms(2) [OF j(1)]])
    then show ?thesis using j by (simp add: nth)
  qed
  with f show "min_element ?f = i" using min_element_first [OF len assms(1)] by blast
qed

lemma no_open:
  assumes "\<And>j. j < 3 \<Longrightarrow> quiet (tagOpens ! j) x []"
  shows "findNextSet x tagOpens ! min_element (findNextSet x tagOpens) = None"
proof -
  have "find_pos (tagOpens ! j) x = None" if "j < 3" for j
    using find_pos_quiet [OF assms [OF that]] that by (auto simp: tagOpens_def dest!: less_3_cases)
  from this [of 0] this [of 1] this [of 2] show ?thesis
    by (simp add: findNextSet_def tagOpens_def min_element_def nearer_def upt_rec)
qed

lemma parseTemplate_flat:
  "wfValues vs \<Longrightarrow> list_all flat vs \<Longrightarrow> parseTemplate (printValues vs) = Inr vs"
  using no_open [of "printValues vs"] quiet_flat [of _ vs "[]"]
  by (subst parseTemplate.simps) (simp add: Let_def parseSubHTML_print tagNext_def)

lemma parseTemplate_section:
  assumes m: "wfMatch m" and vs: "wfValues vs" and bound: "length (printValues vs) < 2 ^ 64"
    and pre: "wfValues pre" "list_all flat pre"
    and inner: "parseTemplate (printValues vs) = Inr vs" and rest: "parseTemplate y = Inr rest"
  shows "parseTemplate (printValues pre @ printTranslation (Translation m vs) @ y)
    = Inr (pre @ SubTranslation (Translation m vs) # rest)"
proof -
  define i where "i = kindOf m"
  define body where "body = headOf m @ CHR ''>'' # printValues vs @ tagCloses ! i @ y"
  let ?x = "printValues pre" and ?t = "tagOpens ! i @ body"
  let ?n = "length (tagOpens ! i) + length (headOf m) + 1"
  have i: "i < 3" and h: "CHR ''<'' \<notin> set (headOf m)" "CHR ''>'' \<notin> set (headOf m)"
    using headOf_plain [OF m] by (auto simp: i_def kindOf_less plain_def)
  have q: "quiet (tagOpens ! j) ?x ?t" if "j < 3" for j
    using that pre i by (intro quiet_flat) auto
  have whole: "?x @ printTranslation (Translation m vs) @ y = ?x @ ?t"
    by (simp add: body_def i_def)
  have b: "(if length ?x \<noteq> 0 then parseSubHTML (take (length ?x) (?x @ ?t)) else Inr []) = Inr pre"
    using parseSubHTML_print [OF pre] by (auto simp: parseSubHTML.simps)
  have s: "tagSearch (tagOpens ! i) (tagCloses ! i) ?t = Inr (?n + length (printValues vs) + length (tagCloses ! i))"
    using tagSearch_section [OF i h(1) vs bound, of y] by (simp add: body_def add_ac)
  have c: "split_at CHR ''>'' body = (headOf m, Some (printValues vs @ tagCloses ! i @ y))"
    using h(2) by (simp add: body_def)
  have d: "drop (?n + length (printValues vs) + length (tagCloses ! i)) ?t = y"
    by (simp add: body_def)
  have "matchOf i (headOf m) = Inr m" using matchOf_headOf [OF m] by (simp add: i_def)
  then show ?thesis
    unfolding whole
    using open_first [OF i q] b s c d inner rest by (subst parseTemplate.simps) (simp add: Let_def)
qed

lemma first_section:
  "list_all flat vs \<or> (\<exists>pre t rest. vs = pre @ SubTranslation t # rest \<and> list_all flat pre)"
proof (induction vs)
  case (Cons v vs)
  then show ?case
    by (cases "flat v") (auto 4 4 elim: flat.elims intro: exI [of _ "v # _"] exI [of _ "[]"])
qed simp

lemma parseTemplate_print:
  "wfValues vs \<Longrightarrow> length (printValues vs) < 2 ^ 64 \<Longrightarrow> parseTemplate (printValues vs) = Inr vs"
proof (induction "length (printValues vs)" arbitrary: vs rule: less_induct)
  case less
  consider "list_all flat vs" | pre m ws rest where
    "vs = pre @ SubTranslation (Translation m ws) # rest" "list_all flat pre"
    using first_section [of vs] by (metis translation.exhaust)
  then show ?case
  proof cases
    case 1
    with less.prems show ?thesis by (simp add: parseTemplate_flat)
  next
    case 2
    have wf: "wfMatch m" "wfValues ws" "wfValues pre" "wfValues rest"
      using less.prems(1) by (auto simp: 2 dest: wfValues_append)
    have "length (printValues ws) < length (printValues vs)" "length (printValues rest) < length (printValues vs)"
      using kindOf_less [of m] by (auto simp: 2 tagOpens_def dest!: less_3_cases)
    with less wf 2(2) have "parseTemplate (printValues pre @ printTranslation (Translation m ws) @ printValues rest)
      = Inr (pre @ SubTranslation (Translation m ws) # rest)"
      by (intro parseTemplate_section) auto
    then show ?thesis by (simp add: 2)
  qed
qed

section \<open>The round trip\<close>

text \<open>Templates and their texts as an instance of the interface that printers and parsers share.\<close>

definition writable :: "translationValue list \<Rightarrow> bool" where
  "writable vs \<longleftrightarrow> wfValues vs \<and> length (printValues vs) < 2 ^ 64"

interpretation template: text_codec "\<lambda>vs. Inr (printValues vs)"
  "\<lambda>s. bindE (parseTemplate s) (\<lambda>vs. Inr (Some vs))" "\<lambda>vs. vs" writable
  by unfold_locales (simp add: writable_def parseTemplate_print)

text \<open>C10. Parsing the written form of a well-formed template gives the template back: nested sections of
  the same and of different kinds, values, query elements and raw HTML, in their order. The only
  bound is that the text is shorter than the range of \<^verbatim>\<open>size_t\<close>.\<close>

theorem template_roundtrip:
  assumes "wfValues vs" and "length (printValues vs) < 2 ^ 64"
  shows "parse (printValues vs) = Inr (Translation Always vs)"
  using template.parse_print [of vs "printValues vs"] assms
  by (auto simp: parse_def writable_def bindE_eq_Inr)

definition sample_template :: "translationValue list" where
  "sample_template =
     [HTML ''<p>'',
      SubTranslation (Translation (Tag ''Users'')
        [Access ''ID'',
         SubTranslation (Translation (Tag ''Vehicles'') [HTML ''<b>'', Access ''VIN'']),
         SubTranslation (Translation (Condition \<lparr>conditions =
             [\<lparr>action = equal_cond, cond_constant = ''1'', cond_variable = ''Level''\<rparr>,
              \<lparr>action = notEqual, cond_constant = ''x'', cond_variable = ''Name''\<rparr>],
             conjunctions = [or_conj]\<rparr>) [HTML ''staff''])]),
      SubTranslation (Translation (Code 404) [QueryValue ''q'']),
      HTML ''</p>'']"

lemma sample_template_text:
  "printValues sample_template =
     ''<p><HTMT:Users><HTMTVAL:ID><HTMT:Vehicles><b><HTMTVAL:VIN></HTMT>'' @
     ''<HTMTCOND:Level=1|Name!x>staff</HTMTCOND></HTMT><HTMTCODE:404><HTMTQUERY:q></HTMTCODE></p>''"
  by (simp add: sample_template_def tag_texts printSub_def int_to_string_def to_string.simps digit_char_def char_of_def bit_0)

lemma sample_template_wf: "wfValues sample_template"
  by (simp add: sample_template_def plain_def cleanHTML_def wfCond_def wfSub_def sublist_Cons_right)

theorem template_roundtrip_witness:
  "parse (''<p><HTMT:Users><HTMTVAL:ID><HTMT:Vehicles><b><HTMTVAL:VIN></HTMT>'' @
     ''<HTMTCOND:Level=1|Name!x>staff</HTMTCOND></HTMT><HTMTCODE:404><HTMTQUERY:q></HTMTCODE></p>'')
   = Inr (Translation Always sample_template)"
  using template_roundtrip [OF sample_template_wf] by (simp add: sample_template_text)

end
