(* ===== verification/System.thy ===== *)
theory System
  imports Server Translator TemplateText
begin

text \<open>
  The two programs together: a browser talks to the translator, and the translator to the server. What
  lies between them (libcurl, the network, uWebSockets) is a parameter; \<open>carries\<close> says what is relied
  on: the server sees the cookies and the body of the transfer, the body before its request has ended, and
  the fields and the body of its response reach the callbacks of the translator, possibly among further fields.
\<close>

section \<open>What the server has sent\<close>

fun replyField :: "res_call \<Rightarrow> (string \<times> string) list" where
  "replyField (WriteHeader name val) = [(name, val)]"
| "replyField _ = []"

fun replyText :: "res_call \<Rightarrow> string" where
  "replyText (End s) = s"
| "replyText (TryEnd s) = s"
| "replyText _ = []"

definition carries ::
  "'db server relay_env \<Rightarrow> transfer \<Rightarrow> ('db, 'st) env \<Rightarrow> ('db, 'st) handler \<Rightarrow> 'db server \<Rightarrow> int \<Rightarrow> bool" where
  "carries renv t senv h w code \<longleftrightarrow>
     getHeader (req senv) ''cookie'' = opt_cookie t \<and>
     (case opt_post t of
        None \<Rightarrow> False
      | Some form \<Rightarrow>
          0 < contentLength (req senv) \<and> contentLength (req senv) \<le> max_size senv \<and> reply w = [] \<and>
          (case HttpCallWrapper senv h (upload [] form True) w of
             (Inr _, w') \<Rightarrow> \<exists>extra. list_all (\<lambda>(name, _). name \<notin> {''Set-Cookie'', ''cookie''}) extra \<and>
               delivers renv t w (extra @ concat (map replyField (reply w'))) (concat (map replyText (reply w'))) code w'
           | (Inl _, _) \<Rightarrow> True))"

lemma not_end_text: "list_all (\<lambda>c. \<not> is_end c) cs \<Longrightarrow> concat (map replyText cs) = []"
proof (induction cs)
  case (Cons c cs)
  then show ?case by (cases c) auto
qed simp

lemma relayed_extra:
  "list_all (\<lambda>(name, _). name \<notin> {''Set-Cookie'', ''cookie''}) extra \<Longrightarrow> relayed extra = []"
  by (induction extra) auto

text \<open>C7. Logging in through the translator. A login form posted to a page that forwards to the login route,
  in any pieces of which the last one arrives before the request has ended, makes the server open a session; the browser is sent the server's session cookie as
  the last header field, then the page. When the browser sends that cookie back, every page forwards
  it, and the server recognises the user of the login row with exactly the permissions of the row.\<close>

theorem login_through_translator:
  assumes "incoming renv rq events (Some form)" and "parseURLValues (curl_unescape renv) (getQuery rq) = Inr q"
    and "carries renv (outgoing dest rq (Some form)) senv authenticate (outside w) code"
    and "parseURLValues (unescape senv) form = Inr b" and "parseURLValues (unescape senv) (getQuery (req senv)) = Inr sq"
    and "b ''username'' = Some u" "u \<noteq> []" and "b ''password'' = Some p" "p \<noteq> []"
    and "loginQuery senv u p (database (outside w)) = (Inr res, db')" and "loginRow res uid perm"
    and "released (req senv) (sessions (outside w)) (draws senv k) = None" and "\<And>i. draws senv i < 2 ^ 64"
    and "fitsSection tran emptyResponse code"
  shows "\<exists>w' hs val. applyPage renv (ForwardingWrapper tran dest) rq events w = (Inr (), w') \<and>
    answer w' = answer w @ [WriteStatus (int_to_string code)] @ hs @
      [WriteHeader ''Set-Cookie'' (''auth='' @ to_string val), TryEnd (renderSection tran emptyResponse code q)] \<and>
    (\<forall>rq2 dest2 body2 srq l. getHeader rq2 ''cookie'' = ''auth='' @ to_string val \<longrightarrow>
       getHeader srq ''cookie'' = opt_cookie (outgoing dest2 rq2 body2) \<longrightarrow>
       getSessionUser srq (outside w') = Some uid \<and> (verify srq l (outside w') \<longleftrightarrow> l \<le> authLevel_cast perm))"
proof -
  obtain s' cs val where auth: "authenticate senv b sq (outside w) = (Inr (), s')" and val: "val \<in> range (draws senv)"
    and reply: "reply s' = reply (outside w) @ cs @ [WriteHeader ''Set-Cookie'' (''auth='' @ to_string val), End []]"
    and table: "sessions s' val = Some \<lparr>sessionLevel = authLevel_cast perm, userID = uid\<rparr>"
    using authenticate_granted [OF assms(6-12), of sq] by blast
  have texts: "concat (map replyText cs) = []"
    using authenticate.ends_once [OF auth] reply by (auto simp: not_end_text)
  have "val < 2 ^ 64" using val assms(13) by auto
  note seen = session_recognised [OF this table]
  have "HttpCallWrapper senv authenticate (upload [] form True) (outside w) = (Inr (), s')"
    using assms(3-5) auth unfolding HttpCallWrapper_def by (auto simp: carries_def outgoing_def onData_upload)
  then obtain extra where extra: "list_all (\<lambda>(name, _). name \<notin> {''Set-Cookie'', ''cookie''}) extra"
    and d: "delivers renv (outgoing dest rq (Some form)) (outside w)
       (extra @ concat (map replyField cs) @ [(''Set-Cookie'', ''auth='' @ to_string val)]) [] code s'"
    using assms(3) reply texts by (auto simp: carries_def outgoing_def)
  have "fromData [] = Inr (Some emptyResponse)" by (simp add: fromData.simps)
  from sent_page [OF d this assms(14), of q] obtain w' where
    "applyPage renv (ForwardingWrapper tran dest) rq events w = (Inr (), w')" "outside w' = s'"
    "answer w' = answer w @ [WriteStatus (int_to_string code)] @
       map (\<lambda>(name, val). WriteHeader name val) (relayed (concat (map replyField cs))) @
       [WriteHeader ''Set-Cookie'' (''auth='' @ to_string val), TryEnd (renderSection tran emptyResponse code q)]"
    unfolding applyPage_incoming [OF assms(1,2)] using relayed_extra [OF extra] by auto
  then show ?thesis
    using seen by (intro exI [of _ w'] exI [of _ "map (\<lambda>(name, val). WriteHeader name val) (relayed (concat (map replyField cs)))"] exI [of _ val])
      (auto simp: outgoing_def)
qed

text \<open>The sample: a login form in two pieces, and a connection that runs the server's handler and hands
  its reply on with one more field.\<close>

definition login_env :: "(script_log, table_stmt) env" where
  "login_env = (sample_env (\<lambda>_. [[''5'', ''2'']]) [])\<lparr>req := sample_request [] ''23''\<rparr>"

definition login_relay :: "script_log server relay_env" where
  "login_relay = \<lparr>curl_easy_perform = (\<lambda>t w.
       let w' = snd (HttpCallWrapper login_env authenticate (upload [] (case opt_post t of None \<Rightarrow> [] | Some s \<Rightarrow> s) True) w)
       in (\<lparr>header_calls = wireLines ''HTTP/1.1 200 OK'' ((''Date'', ''today'') # concat (map replyField (reply w'))),
            write_calls = map replyText (reply w'), http_code = 200\<rparr>, w')),
     curl_unescape = Some, string_max = 2 ^ 62\<rparr>"

abbreviation login_form :: string where
  "login_form \<equiv> ''username=bob&password=x''"

abbreviation login_page :: "script_log server relay \<Rightarrow> (fault + unit) \<times> script_log server relay" where
  "login_page \<equiv> applyPage login_relay (ForwardingWrapper (Translation Always [HTML ''hi'']) ''/request'')
     (sample_request [] ''23''\<lparr>getMethod := ''post''\<rparr>) (upload [(''username=bob&'', True)] ''password=x'' True)"

abbreviation before_login :: "script_log server relay" where
  "before_login \<equiv> \<lparr>outside = sample_server Map.empty, relay_log = [], answer = []\<rparr>"

lemma login_env_simps:
  "api login_env = scripted (\<lambda>_. [[''5'', ''2'']])" "iter login_env ps = ps" "draws login_env i = i mod 2 ^ 64"
  "unescape login_env = Some" "max_size login_env = 2 ^ 62" "req login_env = sample_request [] ''23''"
  by (simp_all add: login_env_def)

lemma sample_length: "contentLength (sample_request [] ''23'') = 23"
  by (simp add: contentLength_def sample_request_def sample_numbers)

lemma sample_no_session: "getSessionID (sample_request [] n) = None"
  by (simp add: getSessionID_def getCookies_def sample_request_def cookieLoop.simps)

lemma login_form_parsed:
  "parseURLValues Some login_form = Inr [''username'' \<mapsto> ''bob'', ''password'' \<mapsto> ''x'']"
  by (simp add: parseURLValues_def parseURLLoop.simps plusToSpace_def)

lemma login_query:
  "loginQuery login_env u p db = (Inr (\<lparr>errorCode = SQLITE_OK\<rparr>, \<lparr>colCount = 2, cells = [''5'', ''2''],
      colNames = [''COLUMN'', ''COLUMN'']\<rparr>), db)"
  by (simp add: loginQuery_def login_env_simps query_scripted script_width_def isSelect_def)

lemma login_row:
  "loginRow (\<lparr>errorCode = SQLITE_OK\<rparr>, \<lparr>colCount = 2, cells = [''5'', ''2''],
      colNames = [''COLUMN'', ''COLUMN'']\<rparr>) 5 2"
  by (simp add: loginRow_def isOK_def rowCount_def cell_def sample_numbers)

lemma login_run:
  "\<exists>w'. HttpCallWrapper login_env authenticate (upload [] login_form True) (sample_server Map.empty) = (Inr (), w') \<and>
     reply w' = [WriteHeader ''Set-Cookie'' (''auth='' @ to_string 0), End []]"
proof -
  have "pickID (\<lambda>i. i mod 18446744073709551616) Map.empty 0 = Some 0"
    by (subst pickID.simps) simp
  then have "\<exists>w'. authenticate login_env [''username'' \<mapsto> ''bob'', ''password'' \<mapsto> ''x''] q (sample_server Map.empty) = (Inr (), w') \<and>
    reply w' = [WriteHeader ''Set-Cookie'' (''auth='' @ to_string 0), End []]" for q
    by (simp add: login_env_def authenticate_def request_def hasElement_def getElement_def query_scripted
        script_width_def isSelect_def sample_numbers sample_no_session hasSession_def sample_server_def dbQuery_def
        bind_def rowCount_def cell_def isOK_def seq_def gets_def liftE_def returnP_def modify_def emit_def
        setCookie_def cout_def sample_env_def authCookie_def)
  then show ?thesis
    unfolding HttpCallWrapper_def
    by (simp add: login_env_simps sample_length onData_upload login_form_parsed)
      (simp add: sample_request_def parseURLValues_def parseURLLoop.simps)
qed

lemma login_carried:
  "carries login_relay (outgoing ''/request'' (sample_request [] ''23''\<lparr>getMethod := ''post''\<rparr>) (Some login_form))
     login_env authenticate (sample_server Map.empty) 200"
proof -
  obtain w' where w': "HttpCallWrapper login_env authenticate (upload [] login_form True) (sample_server Map.empty) = (Inr (), w')"
    "reply w' = [WriteHeader ''Set-Cookie'' (''auth='' @ to_string 0), End []]"
    using login_run by blast
  have "delivers login_relay (outgoing ''/request'' (sample_request [] ''23''\<lparr>getMethod := ''post''\<rparr>) (Some login_form))
      (sample_server Map.empty) ([(''Date'', ''today'')] @ concat (map replyField (reply w')))
      (concat (map replyText (reply w'))) 200 w'"
    using w' by (auto simp: delivers_def login_relay_def outgoing_def fieldsOK_def intro!: exI [of _ "''HTTP/1.1 200 OK''"])
  with w'(1) show ?thesis
    by (auto simp: carries_def outgoing_def login_env_simps contentLength_def sample_numbers sample_request_def sample_server_def
        intro!: exI [of _ "[(''Date'', ''today'')]"])
qed

theorem login_through_translator_witness:
  "\<exists>w' hs val. login_page before_login = (Inr (), w') \<and>
    answer w' = answer before_login @ [WriteStatus (int_to_string 200)] @ hs @
      [WriteHeader ''Set-Cookie'' (''auth='' @ to_string val),
       TryEnd (renderSection (Translation Always [HTML ''hi'']) emptyResponse 200 Map.empty)] \<and>
    (\<forall>rq2 dest2 body2 srq l. getHeader rq2 ''cookie'' = ''auth='' @ to_string val \<longrightarrow>
       getHeader srq ''cookie'' = opt_cookie (outgoing dest2 rq2 body2) \<longrightarrow>
       getSessionUser srq (outside w') = Some 5 \<and> (verify srq l (outside w') \<longleftrightarrow> l \<le> authLevel_cast 2))"
proof (rule login_through_translator [where senv = login_env and form = login_form and k = 0
      and b = "[''username'' \<mapsto> ''bob'', ''password'' \<mapsto> ''x'']" and u = "''bob''" and p = "''x''" and sq = Map.empty])
  show "incoming login_relay (sample_request [] ''23''\<lparr>getMethod := ''post''\<rparr>) (upload [(''username=bob&'', True)] ''password=x'' True)
      (Some login_form)"
    using sample_length
    by (auto simp: incoming_def contentLength_def sample_request_def login_relay_def
        intro!: exI [of _ "[(''username=bob&'', True)]"] exI [of _ "''password=x''"])
  show "parseURLValues (curl_unescape login_relay) (getQuery (sample_request [] ''23''\<lparr>getMethod := ''post''\<rparr>)) = Inr Map.empty"
    by (simp add: login_relay_def sample_request_def parseURLValues_def parseURLLoop.simps)
  show "parseURLValues (unescape login_env) (getQuery (req login_env)) = Inr Map.empty"
    by (simp add: login_env_simps sample_request_def parseURLValues_def parseURLLoop.simps)
  show "loginQuery login_env ''bob'' ''x'' (database (outside before_login)) = (Inr (\<lparr>errorCode = SQLITE_OK\<rparr>,
      \<lparr>colCount = 2, cells = [''5'', ''2''], colNames = [''COLUMN'', ''COLUMN'']\<rparr>), database (outside before_login))"
    by (rule login_query)
  show "carries login_relay (outgoing ''/request'' (sample_request [] ''23''\<lparr>getMethod := ''post''\<rparr>) (Some login_form))
      login_env authenticate (outside before_login) 200"
    using login_carried by simp
qed (simp_all add: login_env_simps login_form_parsed login_row released_def sample_no_session sample_server_def)

end
