(* ===== verification/Effects.thy ===== *)
theory Effects
  imports Handlers "HOL-Library.Multiset"
begin

text \<open>
  Reasoning about what a handler leaves in the database. \<open>effect\<close> states what SQLite documents of one
  statement on a chosen view of the database; \<open>ensures\<close> is a postcondition of a handler run from a
  given state, with one rule for each construct that handlers are made of, so that a handler is
  verified by going through its statements in order, failures and exceptions included.
\<close>

section \<open>The effect of a statement\<close>

text \<open>
  The statement returns; if it is reported as successful, the databases before and after and the result
  are related by \<open>R\<close>; if not, it has changed nothing in the view (a failing statement is undone as a
  whole, which is the default conflict resolution \<^verbatim>\<open>ABORT\<close> of SQLite).
\<close>

definition effect ::
  "('db, 'st) env \<Rightarrow> ('db \<Rightarrow> 'v) \<Rightarrow> string \<Rightarrow> (string \<times> string) list \<Rightarrow> ('db \<Rightarrow> SQLResult \<Rightarrow> 'db \<Rightarrow> bool) \<Rightarrow> bool" where
  "effect env view SQL vs R \<longleftrightarrow> (\<forall>db. \<exists>c res db'. query (api env) SQL (iter env vs) db = (Inr (c, res), db') \<and>
     (if isOK c then R db res db' else view db' = view db))"

lemma effect_req [simp]: "effect (env\<lparr>req := rq\<rparr>) view SQL vs R = effect env view SQL vs R"
  by (simp add: effect_def)

lemma effect_weaken: "effect env view SQL vs R \<Longrightarrow> (\<And>db res db'. R db res db' \<Longrightarrow> R' db res db') \<Longrightarrow> effect env view SQL vs R'"
  unfolding effect_def by metis

text \<open>Some routes use a result without looking at the status. \<open>outcome\<close> says what is known of it in any case.\<close>

definition outcome ::
  "('db, 'st) env \<Rightarrow> string \<Rightarrow> (string \<times> string) list \<Rightarrow> (SQLCode \<Rightarrow> 'db \<Rightarrow> SQLResult \<Rightarrow> 'db \<Rightarrow> bool) \<Rightarrow> bool" where
  "outcome env SQL vs R \<longleftrightarrow> (\<forall>db. \<exists>c res db'. query (api env) SQL (iter env vs) db = (Inr (c, res), db') \<and> R c db res db')"

lemma outcome_req [simp]: "outcome (env\<lparr>req := rq\<rparr>) SQL vs R = outcome env SQL vs R"
  by (simp add: outcome_def)

lemma effect_outcome:
  "effect env view SQL vs R \<longleftrightarrow> outcome env SQL vs (\<lambda>c db res db'. if isOK c then R db res db' else view db' = view db)"
  by (simp add: effect_def outcome_def)

section \<open>Connections given by functions\<close>

text \<open>The affinity of an integer column, for the connections given by functions: a text of digits becomes a
  number.\<close>

definition integer_affinity :: "string \<Rightarrow> string" where
  "integer_affinity v = (if v \<noteq> [] \<and> list_all is_digit v then to_string (num_val v) else v)"

lemma integer_affinity_number [simp]: "integer_affinity (to_string n) = to_string n"
  by (simp add: integer_affinity_def to_string_digits list_all_iff)

lemma concat_singletons: "concat (map (\<lambda>x. [f x]) xs) = map f xs"
  by (induction xs) simp_all

lemma small_numbers: "to_string (Suc 0) = ''1''" "to_string 2 = ''2''" "to_string 4 = ''4''"
  by code_simp+

lemma affinity_1: "integer_affinity ''1'' = ''1''"
  by (simp add: integer_affinity_def sample_numbers small_numbers)

text \<open>An environment with such a connection, whose statements have a given number of columns or one, and a
  server where the session of a manager is open.\<close>

definition manager_request :: http_request where
  "manager_request = staff_request"

definition wide_env :: "(string \<Rightarrow> string list \<Rightarrow> 'db \<Rightarrow> int \<times> string list list \<times> 'db) \<Rightarrow> (string \<Rightarrow> nat) \<Rightarrow> ('db, table_stmt) env" where
  "wide_env run width = \<lparr>api = table_sqlite run width, iter = (\<lambda>ps. ps), iterRel = (\<lambda>ps. ps), draws = (\<lambda>i. i),
     unescape = Some, max_size = 2 ^ 62, nanText = ''nan'', req = manager_request\<rparr>"

definition table_env :: "(string \<Rightarrow> string list \<Rightarrow> 'db \<Rightarrow> int \<times> string list list \<times> 'db) \<Rightarrow> ('db, table_stmt) env" where
  "table_env run = wide_env run (\<lambda>SQL. 1)"

definition manager_server :: "'db \<Rightarrow> 'db server" where
  "manager_server db = \<lparr>database = db, sessions = [7 \<mapsto> \<lparr>sessionLevel = manager, userID = 4\<rparr>], console = [], reply = []\<rparr>"

lemma manager_request_session: "getSessionID manager_request = Some 7"
  unfolding manager_request_def by (rule staff_facts)

lemma wide_env_simps: "iter (wide_env run width) ps = ps" "iterRel (wide_env run width) ps = ps"
  "req (wide_env run width) = manager_request" "(wide_env run width)\<lparr>req := manager_request\<rparr> = wide_env run width"
  by (simp_all add: wide_env_def)

lemma table_env_simps: "iter (table_env run) ps = ps" "req (table_env run) = manager_request"
  "(table_env run)\<lparr>req := manager_request\<rparr> = table_env run"
  by (simp_all add: table_env_def wide_env_simps)

definition columns :: "nat \<Rightarrow> int \<times> string list list \<times> 'db \<Rightarrow> bool" where
  "columns n out = (case out of (code, rows, db') \<Rightarrow> code \<noteq> SQLITE_ROW \<and> list_all (\<lambda>row. length row = n) rows)"

definition one_column :: "int \<times> string list list \<times> 'db \<Rightarrow> bool" where
  "one_column out = columns 1 out"

lemma wide_env_query:
  assumes "length SQL < 2 ^ 31" and "columns (width SQL) (run SQL (map snd ps) db)"
  shows "query (api (wide_env run width)) SQL ps db = (case run SQL (map snd ps) db of
     (code, rows, db') \<Rightarrow> (Inr (\<lparr>errorCode = if code = SQLITE_DONE then SQLITE_OK else code\<rparr>,
       \<lparr>colCount = width SQL, cells = concat rows, colNames = replicate (width SQL) ''COLUMN''\<rparr>), db'))"
  using assms unfolding wide_env_def columns_def
  by (simp, subst query_table) (auto split: prod.splits)

lemma table_env_query:
  assumes "length SQL < 2 ^ 31" and "one_column (run SQL (map snd ps) db)"
  shows "query (api (table_env run)) SQL ps db = (case run SQL (map snd ps) db of
     (code, rows, db') \<Rightarrow> (Inr (\<lparr>errorCode = if code = SQLITE_DONE then SQLITE_OK else code\<rparr>,
       \<lparr>colCount = 1, cells = concat rows, colNames = [''COLUMN'']\<rparr>), db'))"
  using wide_env_query [where run = run and width = "\<lambda>SQL. 1", OF assms(1)] assms(2) unfolding table_env_def one_column_def
  by simp

text \<open>How an effect is shown for such a connection.\<close>

lemma wide_env_outcome:
  assumes "length SQL < 2 ^ 31" and "\<And>db. columns (width SQL) (run SQL (map snd vs) db)"
    and "\<And>db. case run SQL (map snd vs) db of (code, rows, db') \<Rightarrow> R \<lparr>errorCode = if code = SQLITE_DONE then SQLITE_OK else code\<rparr> db
       \<lparr>colCount = width SQL, cells = concat rows, colNames = replicate (width SQL) ''COLUMN''\<rparr> db'"
  shows "outcome (wide_env run width) SQL vs R"
  unfolding outcome_def
proof
  fix db
  obtain code rows db' where r: "run SQL (map snd vs) db = (code, rows, db')" by (metis prod_cases3)
  with assms(3) [of db] show "\<exists>c res db'. query (api (wide_env run width)) SQL (iter (wide_env run width) vs) db = (Inr (c, res), db') \<and>
      R c db res db'"
    using wide_env_query [where run = run and width = width and ps = vs, OF assms(1) assms(2) [of db]] by (auto simp: wide_env_simps)
qed

lemma wide_env_effect:
  assumes "length SQL < 2 ^ 31" and "\<And>db. columns (width SQL) (run SQL (map snd vs) db)"
    and "\<And>db. case run SQL (map snd vs) db of (code, rows, db') \<Rightarrow> (if code \<in> {SQLITE_DONE, SQLITE_OK}
       then R db \<lparr>colCount = width SQL, cells = concat rows, colNames = replicate (width SQL) ''COLUMN''\<rparr> db' else view db' = view db)"
  shows "effect (wide_env run width) view SQL vs R"
  unfolding effect_outcome
proof (rule wide_env_outcome [where run = run and width = width, OF assms(1,2)])
  show "case run SQL (map snd vs) db of (code, rows, db') \<Rightarrow>
      if isOK \<lparr>errorCode = if code = SQLITE_DONE then SQLITE_OK else code\<rparr>
      then R db \<lparr>colCount = width SQL, cells = concat rows, colNames = replicate (width SQL) ''COLUMN''\<rparr> db'
      else view db' = view db" for db
    using assms(3) [of db] by (auto simp: isOK_def split: prod.splits if_splits)
qed

lemma table_env_effect:
  assumes "length SQL < 2 ^ 31" and "\<And>db. one_column (run SQL (map snd vs) db)"
    and "\<And>db. case run SQL (map snd vs) db of (code, rows, db') \<Rightarrow> (if code \<in> {SQLITE_DONE, SQLITE_OK}
       then R db \<lparr>colCount = 1, cells = concat rows, colNames = [''COLUMN'']\<rparr> db' else view db' = view db)"
  shows "effect (table_env run) view SQL vs R"
  unfolding table_env_def
proof (rule wide_env_effect [OF assms(1)])
  show "columns 1 (run SQL (map snd vs) db)" for db using assms(2) by (simp add: one_column_def)
  show "case run SQL (map snd vs) db of (code, rows, db') \<Rightarrow> (if code \<in> {SQLITE_DONE, SQLITE_OK}
       then R db \<lparr>colCount = 1, cells = concat rows, colNames = replicate 1 ''COLUMN''\<rparr> db' else view db' = view db)" for db
    using assms(3) by (simp only: One_nat_def replicate.simps)
qed

lemmas sampling = running table_env_simps table_env_query one_column_def columns_def manager_request_session verify_def getSessionUser_def
  getElement_def hasElement_def elementOr_def valueOf_def finish_def emit_run isOK_def rowCount_def sqlite_codes
  small_numbers affinity_1 concat_singletons manager_server_def

section \<open>Postconditions\<close>

definition ensures :: "('s, 'a) prog \<Rightarrow> 's \<Rightarrow> (fault + 'a \<Rightarrow> 's \<Rightarrow> bool) \<Rightarrow> bool" where
  "ensures m w Q \<longleftrightarrow> Q (fst (m w)) (snd (m w))"

named_theorems stepping \<open>rules for postconditions, one per construct\<close>

lemma ensuresD: "ensures m w Q \<Longrightarrow> m w = (r, w') \<Longrightarrow> Q r w'"
  by (simp add: ensures_def)

lemma ensures_gets [stepping]: "ensures (k (f w)) w Q \<Longrightarrow> ensures (bind (gets f) k) w Q"
  by (simp add: ensures_def)

lemma ensures_liftE [stepping]:
  "(\<And>e. r = Inl e \<Longrightarrow> Q (Inl e) w) \<Longrightarrow> (\<And>x. r = Inr x \<Longrightarrow> ensures (k x) w Q) \<Longrightarrow> ensures (bind (liftE r) k) w Q"
  by (cases r) (simp_all add: ensures_def)

lemma ensures_if [stepping]:
  "(c \<Longrightarrow> ensures a w Q) \<Longrightarrow> (\<not> c \<Longrightarrow> ensures b w Q) \<Longrightarrow> ensures (if c then a else b) w Q"
  by simp

lemma ensures_option [stepping]:
  "(x = None \<Longrightarrow> ensures a w Q) \<Longrightarrow> (\<And>v. x = Some v \<Longrightarrow> ensures (k v) w Q) \<Longrightarrow>
   ensures (case x of None \<Rightarrow> a | Some v \<Rightarrow> k v) w Q"
  by (cases x) simp_all

lemma ensures_prod [stepping]: "ensures (f a b) w Q \<Longrightarrow> ensures (case (a, b) of (x, y) \<Rightarrow> f x y) w Q"
  by simp

lemma ensures_respond [stepping]: "Q (Inr ()) (w\<lparr>reply := reply w @ [WriteStatus code, End []]\<rparr>) \<Longrightarrow> ensures (respond code) w Q"
  by (simp add: ensures_def respond_run)

lemma ensures_logged [stepping]:
  assumes "getSessionID (req env) \<noteq> None"
    and "\<And>text. Q (Inr ()) (w\<lparr>console := text, reply := reply w @ [End []]\<rparr>)"
  shows "ensures (seq (coutSession env msg) (emit (End []))) w Q"
  using assms by (auto simp: ensures_def seq_coutSession emit_run)

lemma ensures_seq_liftE [stepping]:
  "(\<And>e. r = Inl e \<Longrightarrow> Q (Inl e) w) \<Longrightarrow> (\<And>x. r = Inr x \<Longrightarrow> ensures (seq (k x) m) w Q) \<Longrightarrow>
   ensures (seq (bind (liftE r) k) m) w Q"
  by (cases r) (simp_all add: ensures_def seq_def bind_def liftE_def)

lemma ensures_finish [stepping]:
  assumes "\<not> isOK c \<Longrightarrow> Q (Inr ()) (w\<lparr>reply := reply w @ [WriteStatus INTERNALERROR, End []]\<rparr>)"
    and "isOK c \<Longrightarrow> ensures (seq log (emit (End []))) w Q"
  shows "ensures (finish c log) w Q"
  using assms by (cases "isOK c") (simp_all add: finish_def ensures_def seq_def bind_def emit_run)

text \<open>A call of the database: its parameters are read first, which may throw.\<close>

definition call_effect ::
  "('db, 'st) env \<Rightarrow> ('db \<Rightarrow> 'v) \<Rightarrow> string \<Rightarrow> (string \<times> (fault + string)) list
    \<Rightarrow> ((string \<times> string) list \<Rightarrow> 'db \<Rightarrow> SQLResult \<Rightarrow> 'db \<Rightarrow> bool) \<Rightarrow> bool" where
  "call_effect env view SQL ps R \<longleftrightarrow> (\<forall>vs. params ps = Inr vs \<longrightarrow> effect env view SQL vs (R vs))"

lemma params_Cons: "params ((n, v) # ps) = Inr vs \<longleftrightarrow> (\<exists>x xs. v = Inr x \<and> params ps = Inr xs \<and> vs = (n, x) # xs)"
  by (cases v; cases "params ps") auto

lemma ensures_dbCall:
  assumes "call_effect env view SQL ps R"
    and "\<And>e. params ps = Inl e \<Longrightarrow> Q (Inl e) w"
    and "\<And>vs c res db'. params ps = Inr vs \<Longrightarrow> isOK c \<Longrightarrow> R vs (database w) res db' \<Longrightarrow>
      ensures (k (c, res)) (w\<lparr>database := db'\<rparr>) Q"
    and "\<And>c res db'. \<not> isOK c \<Longrightarrow> view db' = view (database w) \<Longrightarrow> ensures (k (c, res)) (w\<lparr>database := db'\<rparr>) Q"
  shows "ensures (bind (dbCall env SQL ps) k) w Q"
proof (cases "params ps")
  case (Inr vs)
  with assms(1) have "effect env view SQL vs (R vs)" by (simp add: call_effect_def)
  then obtain c res db' where q: "query (api env) SQL (iter env vs) (database w) = (Inr (c, res), db')"
    "if isOK c then R vs (database w) res db' else view db' = view (database w)"
    unfolding effect_def by blast
  with assms(3,4) Inr have "ensures (k (c, res)) (w\<lparr>database := db'\<rparr>) Q" by (auto split: if_splits)
  with Inr q show ?thesis by (simp add: ensures_def bind_dbCall_run)
qed (use assms(2) in \<open>simp add: ensures_def bind_dbCall_run\<close>)

lemma ensures_outcome:
  assumes "\<And>vs. params ps = Inr vs \<Longrightarrow> outcome env SQL vs (R vs)"
    and "\<And>e. params ps = Inl e \<Longrightarrow> Q (Inl e) w"
    and "\<And>vs c res db'. params ps = Inr vs \<Longrightarrow> R vs c (database w) res db' \<Longrightarrow>
      ensures (k (c, res)) (w\<lparr>database := db'\<rparr>) Q"
  shows "ensures (bind (dbCall env SQL ps) k) w Q"
proof (cases "params ps")
  case (Inr vs)
  with assms(1) obtain c res db' where q: "query (api env) SQL (iter env vs) (database w) = (Inr (c, res), db')"
    "R vs c (database w) res db'" unfolding outcome_def by blast
  with assms(3) Inr have "ensures (k (c, res)) (w\<lparr>database := db'\<rparr>) Q" by blast
  with Inr q show ?thesis by (simp add: ensures_def bind_dbCall_run)
qed (use assms(2) in \<open>simp add: ensures_def bind_dbCall_run\<close>)

text \<open>Writing a status on the way.\<close>

lemma ensures_status [stepping]:
  "(c \<Longrightarrow> ensures k (w\<lparr>reply := reply w @ [call]\<rparr>) Q) \<Longrightarrow> (\<not> c \<Longrightarrow> ensures k w Q) \<Longrightarrow>
   ensures (seq (if c then emit call else returnP ()) k) w Q"
  by (simp add: ensures_def seq_def bind_def emit_run returnP_def)

lemma actor_database [simp]:
  "verify rq l (w\<lparr>database := d\<rparr>) = verify rq l w" "getSessionUser rq (w\<lparr>database := d\<rparr>) = getSessionUser rq w"
  by (simp_all add: verify_def getSessionUser_def split: option.splits)

lemma bind_known: "bind (liftE (Inr x)) k = k x"
  by (rule ext) (simp add: bind_liftE_run)

text \<open>A statement that is too long for \<^verbatim>\<open>int\<close> fails the assertion of \<^verbatim>\<open>SQLResult::query\<close>.\<close>

lemma ensures_too_long:
  assumes "\<not> length SQL \<le> 2 ^ 31 - 1" and "\<And>e. Q (Inl e) w"
  shows "ensures (bind (dbCall env SQL ps) k) w Q"
proof (cases "params ps")
  case (Inr vs)
  have "query (api env) SQL (iter env vs) (database w) = (Inl Assertion_failed, database w)"
    using assms(1) by (simp add: query_def del: One_nat_def)
  with Inr assms(2) show ?thesis by (simp add: ensures_def bind_dbCall_run)
qed (use assms(2) in \<open>simp add: ensures_def bind_dbCall_run\<close>)

section \<open>Forms of update routes\<close>

text \<open>The assignments that \<^verbatim>\<open>generateUpdateStatement\<close> writes are the elements of the form that are listed and
  not empty; they are what SQLite reads as long as no value leaves its quotation marks.\<close>

text \<open>A form value that stays inside its quotation marks.\<close>

definition plain :: "string \<Rightarrow> bool" where
  "plain v = list_all (\<lambda>c. c \<noteq> CHR 0x22 \<and> c \<noteq> CHR 0x00) v"

lemma assignments_of: "(col, v) \<in> set (assignments b rel) \<longleftrightarrow> (\<exists>n. (n, col) \<in> set rel \<and> b n = Some v \<and> v \<noteq> [])"
  by (force simp: assignments_def split: option.splits if_splits)

lemma assignments_distinct: "distinct (map snd rel) \<Longrightarrow> distinct (map fst (assignments b rel))"
proof (induction rel)
  case (Cons r rel)
  obtain n col where r: "r = (n, col)" by (cases r)
  have "col \<notin> fst ` set (assignments b rel)"
    using Cons.prems by (force simp: r assignments_of)
  with Cons show ?case by (auto simp: r assignments_Cons image_iff split: option.splits)
qed (simp add: assignments_def)

text \<open>The iteration order of the relations of an update is any order.\<close>

definition any_order :: "('db, 'st) env \<Rightarrow> bool" where
  "any_order env \<longleftrightarrow> (\<forall>rel. mset (iterRel env rel) = mset rel)"

definition plain_form :: "queryBase \<Rightarrow> string list \<Rightarrow> bool" where
  "plain_form b names \<longleftrightarrow> (\<forall>n \<in> set names. \<forall>v. b n = Some v \<longrightarrow> plain v)"

lemma ordered_assignments:
  assumes "any_order env" "distinct (map snd rel)" "plain_form b (map fst rel)"
  shows "distinct (map fst (assignments b (iterRel env rel)))" "fst ` set (assignments b (iterRel env rel)) \<subseteq> snd ` set rel"
    "\<forall>v \<in> snd ` set (assignments b (iterRel env rel)). plain v"
proof -
  have m: "mset (iterRel env rel) = mset rel" using assms(1) by (simp add: any_order_def)
  then have "mset (map snd (iterRel env rel)) = mset (map snd rel)" by simp
  with assms(2) have "distinct (map snd (iterRel env rel))" using mset_eq_imp_distinct_iff by blast
  then show "distinct (map fst (assignments b (iterRel env rel)))" by (rule assignments_distinct)
  from m have s: "set (iterRel env rel) = set rel" by (rule mset_eq_setD)
  then show "fst ` set (assignments b (iterRel env rel)) \<subseteq> snd ` set rel"
    by (force simp: assignments_of)
  from s assms(3) show "\<forall>v \<in> snd ` set (assignments b (iterRel env rel)). plain v"
    by (force simp: assignments_of plain_form_def)
qed

lemma any_order_req [simp]: "any_order (env\<lparr>req := rq\<rparr>) = any_order env"
  by (simp add: any_order_def)

lemma unlisted_column:
  assumes "any_order env" "\<And>n. (n, col) \<in> set rel \<Longrightarrow> b n = None"
  shows "map_of (assignments b (iterRel env rel)) col = None"
proof -
  have "mset (iterRel env rel) = mset rel" using assms(1) by (simp add: any_order_def)
  then have "set (iterRel env rel) = set rel" by (rule mset_eq_setD)
  with assms(2) show ?thesis by (force simp: map_of_eq_None_iff assignments_of)
qed

text \<open>
  What an update statement does, for any assignments of the columns that a route offers whose values stay
  inside their quotation marks. A statement must not be longer than an \<^verbatim>\<open>int\<close> can say.
\<close>

definition updates ::
  "('db, 'st) env \<Rightarrow> ('db \<Rightarrow> 'v) \<Rightarrow> (string \<Rightarrow> string) \<Rightarrow> string list \<Rightarrow> string
    \<Rightarrow> ((string \<times> string) list \<Rightarrow> string \<Rightarrow> 'db \<Rightarrow> 'db \<Rightarrow> bool) \<Rightarrow> bool" where
  "updates env view change cols par R \<longleftrightarrow>
     (\<forall>as i. as \<noteq> [] \<and> distinct (map fst as) \<and> fst ` set as \<subseteq> set cols \<and> (\<forall>v \<in> snd ` set as. plain v) \<and>
        length (change (commas (map assignment_text as))) \<le> 2 ^ 31 - 1 \<longrightarrow>
        effect env view (change (commas (map assignment_text as))) [(par, i)] (\<lambda>db res db'. R as i db db'))"

lemma updates_env [simp]:
  "updates (env\<lparr>req := rq\<rparr>) view change cols par R = updates env view change cols par R"
  "updates (env\<lparr>req := rq, draws := d\<rparr>) view change cols par R = updates env view change cols par R"
  by (simp_all add: updates_def effect_def)

text \<open>The call of a generated update, with all its outcomes.\<close>

lemma ensures_update:
  assumes "updates env view change cols par R" "any_order env" "cols = map snd rel" "distinct (map snd rel)" "plain_form b (map fst rel)"
    and "commas (map assignment_text (assignments b (iterRel env rel))) \<noteq> []"
    and "\<And>e. Q (Inl e) w"
    and "\<And>i c res db'. v = Inr i \<Longrightarrow> isOK c \<Longrightarrow> R (assignments b (iterRel env rel)) i (database w) db' \<Longrightarrow>
      ensures (k (c, res)) (w\<lparr>database := db'\<rparr>) Q"
    and "\<And>c res db'. \<not> isOK c \<Longrightarrow> view db' = view (database w) \<Longrightarrow> ensures (k (c, res)) (w\<lparr>database := db'\<rparr>) Q"
  shows "ensures (bind (dbCall env (change (commas (map assignment_text (assignments b (iterRel env rel))))) [(par, v)]) k) w Q"
proof (cases "length (change (commas (map assignment_text (assignments b (iterRel env rel))))) \<le> 2 ^ 31 - 1")
  case True
  let ?as = "assignments b (iterRel env rel)"
  have "effect env view (change (commas (map assignment_text ?as))) [(par, i)] (\<lambda>db res db'. R ?as i db db')" for i
  proof -
    have "?as \<noteq> []" using assms(6) by auto
    with ordered_assignments [OF assms(2,4,5)] True assms(1) show ?thesis unfolding updates_def assms(3) set_map by blast
  qed
  then have "call_effect env view (change (commas (map assignment_text ?as))) [(par, v)] (\<lambda>vs db res db'. R ?as (projr v) db db')"
    by (auto simp: call_effect_def bindE_eq_Inr)
  then show ?thesis
    by (rule ensures_dbCall) (use assms(7-9) in \<open>auto simp: bindE_eq_Inr\<close>)
qed (rule ensures_too_long; use assms(7) in blast)

text \<open>Connections given by functions read the assignments back from the text of an update: a value is what stands
  between two quotation marks, its column what stands before the first.\<close>

definition columnBefore :: "string list \<Rightarrow> string \<Rightarrow> string" where
  "columnBefore cols s = (case filter (\<lambda>c. drop (length s - length (c @ '' = '')) s = c @ '' = '') cols of [] \<Rightarrow> [] | c # _ \<Rightarrow> c)"

function decode :: "string list \<Rightarrow> string \<Rightarrow> (string \<times> string) list" where
  "decode cols s = (case split_at QUOTE s of (_, None) \<Rightarrow> [] | (before, Some rest) \<Rightarrow>
     (case split_at QUOTE rest of (_, None) \<Rightarrow> [] | (v, Some rest') \<Rightarrow> (columnBefore cols before, v) # decode cols rest'))"
  by auto
termination
  by (relation "measure (length \<circ> snd)") (auto dest!: length_split_at [OF sym])

declare decode.simps [simp del]

lemma decode_pair:
  assumes "QUOTE \<notin> set s" "QUOTE \<notin> set v"
  shows "decode cols (s @ QUOTE # v @ QUOTE # rest) = (columnBefore cols s, v) # decode cols rest"
  using assms by (subst decode.simps) simp

lemma decode_none: "QUOTE \<notin> set s \<Longrightarrow> decode cols s = []"
  by (subst decode.simps) (simp add: split_at_notin)

lemma decode_assignment:
  assumes "\<And>s. columnBefore cols (s @ fst a @ '' = '') = fst a" "QUOTE \<notin> set (fst a)" "plain (snd a)" "QUOTE \<notin> set s"
  shows "decode cols (s @ assignment_text a @ rest) = a # decode cols rest"
proof -
  have "QUOTE \<notin> set (snd a)" using assms(3) unfolding plain_def list_all_iff by blast
  then show ?thesis
    using decode_pair [of "s @ fst a @ '' = ''" "snd a" cols rest] assms by (simp add: assignment_text_def)
qed

lemma commas_concat: "commas (x # xs) = x @ concat (map (\<lambda>y. '','' @ y) xs)"
  by (induction xs arbitrary: x) simp_all

lemma decode_assignments:
  assumes "as \<noteq> []" and col: "\<And>c s. c \<in> fst ` set as \<Longrightarrow> columnBefore cols (s @ c @ '' = '') = c \<and> QUOTE \<notin> set c"
    and "\<forall>v \<in> snd ` set as. plain v" "QUOTE \<notin> set s" "QUOTE \<notin> set rest"
  shows "decode cols (s @ commas (map assignment_text as) @ rest) = as"
proof -
  have step: "decode cols (s @ assignment_text a @ rest) = a # decode cols rest" if "a \<in> set as" "QUOTE \<notin> set s" for a s rest
    by (rule decode_assignment) (use col that assms(3) in auto)
  have tail: "decode cols (concat (map (\<lambda>y. '','' @ assignment_text y) xs) @ rest) = xs" if "set xs \<subseteq> set as" for xs
    using that
  proof (induction xs)
    case (Cons x xs)
    then show ?case using step [of x "'',''"] by simp
  qed (simp add: decode_none assms(5))
  obtain x xs where as: "as = x # xs" using assms(1) by (cases as) auto
  then have "decode cols (concat (map (\<lambda>y. '','' @ assignment_text y) xs) @ rest) = xs" by (intro tail) auto
  with as show ?thesis
    using step [of x s] assms(4) by (simp add: commas_concat o_def)
qed

lemma column_found:
  assumes "c \<in> set cols" "\<And>d. d \<in> set cols \<Longrightarrow> 2 \<le> length d" "\<And>d. d \<in> set cols \<Longrightarrow> d \<noteq> c \<Longrightarrow> take 2 (rev d) \<noteq> take 2 (rev c)"
  shows "columnBefore cols (s @ c @ '' = '') = c"
proof -
  let ?closing = "\<lambda>d. drop (length (s @ c @ '' = '') - length (d @ '' = '')) (s @ c @ '' = '') = d @ '' = ''"
  have "d = c" if d: "d \<in> set cols" "?closing d" for d
  proof -
    from d(2) obtain u where "s @ c @ '' = '' = u @ d @ '' = ''" by (metis append_take_drop_id)
    then have "rev (s @ c) = rev (u @ d)" by simp
    then have "take 2 (rev c @ rev s) = take 2 (rev d @ rev u)" by simp
    with assms(2) [OF assms(1)] assms(2) [OF d(1)] have "take 2 (rev d) = take 2 (rev c)" by simp
    with assms(3) [OF d(1)] show ?thesis by blast
  qed
  moreover define found where "found = filter ?closing cols"
  ultimately have "set found \<subseteq> {c}" "c \<in> set found" using assms(1) by auto
  then have "(case found of [] \<Rightarrow> [] | c # _ \<Rightarrow> c) = c" by (cases found) auto
  then show ?thesis unfolding columnBefore_def found_def .
qed

lemma wide_env_updates:
  assumes "\<And>s. QUOTE \<notin> set pre \<and> QUOTE \<notin> set post \<and> change s = pre @ s @ post"
    and "\<And>c s. c \<in> set cols \<Longrightarrow> columnBefore cols (s @ c @ '' = '') = c \<and> QUOTE \<notin> set c"
    and "\<And>s vals db. columns (width (change s)) (run (change s) vals db)"
    and "\<And>s as i db. decode cols (change s) = as \<Longrightarrow> case run (change s) [i] db of (code, rows, db') \<Rightarrow>
       (if code \<in> {SQLITE_DONE, SQLITE_OK} then R as i db db' else view db' = view db)"
  shows "updates (wide_env run width) view change cols par R"
  unfolding updates_def
proof (intro allI impI)
  fix as :: "(string \<times> string) list" and i
  assume as: "as \<noteq> [] \<and> distinct (map fst as) \<and> fst ` set as \<subseteq> set cols \<and> (\<forall>v \<in> snd ` set as. plain v) \<and>
    length (change (commas (map assignment_text as))) \<le> 2 ^ 31 - 1"
  have d: "decode cols (change (commas (map assignment_text as))) = as"
    using assms(1) [of "commas (map assignment_text as)"] decode_assignments [of as cols pre post] as assms(2) by fastforce
  show "effect (wide_env run width) view (change (commas (map assignment_text as))) [(par, i)] (\<lambda>db res db'. R as i db db')"
    by (rule wide_env_effect) (use as assms(3) assms(4) [OF d] in auto)
qed

section \<open>Moves that report their success\<close>

text \<open>The client is told of a success by a response without a status.\<close>

definition succeeded :: "'db server \<Rightarrow> fault + unit \<Rightarrow> 'db server \<Rightarrow> bool" where
  "succeeded w r w' \<longleftrightarrow> r = Inr () \<and> reply w' = reply w @ [End []]"

text \<open>
  A component whose state changes in moves, each marked with whether it is reported as a success: every
  move keeps the invariant. In the extension, the moves that are reported as successful also keep the
  state complete. The lemmas carry both to whole histories of a system that makes these moves on a view
  of its own state, and anything else it does leaves the view alone.
\<close>

locale moves =
  fixes move :: "bool \<Rightarrow> 's \<Rightarrow> 's \<Rightarrow> bool" and inv :: "'s \<Rightarrow> bool"
  assumes move_inv: "inv s \<Longrightarrow> move ok s t \<Longrightarrow> inv t"
begin

lemma history_inv:
  assumes "(\<lambda>db db'. \<exists>ok. step ok db db')\<^sup>*\<^sup>* db db'"
    and "\<And>ok db db'. step ok db db' \<Longrightarrow> move ok (view db) (view db') \<or> view db' = view db" and "inv (view db)"
  shows "inv (view db')"
  using assms(1)
proof induction
  case (step y z)
  then show ?case using assms(2) move_inv by metis
qed (rule assms(3))

end

locale reported_moves = moves +
  fixes complete :: "'s \<Rightarrow> bool"
  assumes success_complete: "inv s \<Longrightarrow> complete s \<Longrightarrow> move True s t \<Longrightarrow> complete t"
begin

lemma history_complete:
  assumes "(step True)\<^sup>*\<^sup>* db db'"
    and "\<And>ok db db'. step ok db db' \<Longrightarrow> move ok (view db) (view db') \<or> view db' = view db"
    and "inv (view db)" "complete (view db)"
  shows "inv (view db') \<and> complete (view db')"
  using assms(1)
proof induction
  case (step y z)
  then show ?case using assms(2) [of True y z] move_inv success_complete by metis
qed (use assms(3,4) in simp)

end

end
