(* ===== verification/Workflow.thy ===== *)
theory Workflow
  imports Effects ServiceRoutes
begin

text \<open>
  The life of a service across requests. The routes \<^verbatim>\<open>createRequest\<close>, \<^verbatim>\<open>authoriseRequest\<close> and
  \<^verbatim>\<open>closeService\<close> move a service between the tables of \<^verbatim>\<open>Server/sqlcrt.txt\<close>: a row of shared data and a
  row of the waiting requests, then a row of active data and a row of the open services, then a row of
  the closed services. Each route runs several statements without a transaction, and each statement can
  fail. \<open>lifecycle\<close> is the abstract specification: the moves that a call can make on the numbers in
  these tables, with the mark of whether the client is told of a success. The routes refine it,
  whatever fails, and the invariant of the tables follows for all histories.
\<close>

section \<open>The tables of the life cycle\<close>

text \<open>The numbers in the five tables: the keys of \<^verbatim>\<open>SERVICESHAREDDATA\<close>, the column \<^verbatim>\<open>SERVICE\<close> of
  \<^verbatim>\<open>UNAUTHORISEDSERVICES\<close>, key and \<^verbatim>\<open>SERVICE\<close> of \<^verbatim>\<open>ACTIVESERVICEDATA\<close>, and the column \<^verbatim>\<open>SERVICE\<close> of
  \<^verbatim>\<open>OPENSERVICES\<close> and of \<^verbatim>\<open>CLOSEDSERVICES\<close>. The last two refer to the key of the active data.\<close>

record services =
  requests :: "string list"
  waiting :: "string list"
  authorised :: "(string \<times> string) list"
  opened :: "string list"
  finished :: "string list"

text \<open>
  What SQLite documents of the statements of the three routes, for the tables as \<^verbatim>\<open>sqlcrt.txt\<close> creates
  them: an insertion into a table with \<^verbatim>\<open>INTEGER PRIMARY KEY\<close> takes a key that is not in use, which
  \<^verbatim>\<open>last_insert_rowid()\<close> gives afterwards; a value that is inserted into or compared with an integer
  column is converted by the affinity of the column; \<^verbatim>\<open>UNIQUE\<close> columns reject a value they hold; foreign
  keys are not enforced (the program does not switch them on).
\<close>

definition stores_services ::
  "('db, 'st) env \<Rightarrow> ('db \<Rightarrow> services) \<Rightarrow> ('db \<Rightarrow> string) \<Rightarrow> (string \<Rightarrow> string) \<Rightarrow> bool" where
  "stores_services env view last_insert_rowid affinity \<longleftrightarrow>
     (\<forall>v. effect env view requestOwnerSQL [('':VID'', v)]
        (\<lambda>db res db'. view db' = view db)) \<and>
     (\<forall>v t. effect env view addSharedSQL
          [('':ID'', v), ('':REQ'', t)]
        (\<lambda>db res db'. last_insert_rowid db' \<notin> set (requests (view db)) \<and>
           view db' = (view db)\<lparr>requests := last_insert_rowid db' # requests (view db)\<rparr>)) \<and>
     effect env view addWaitingSQL []
        (\<lambda>db res db'. last_insert_rowid db \<notin> set (waiting (view db)) \<and>
           view db' = (view db)\<lparr>waiting := last_insert_rowid db # waiting (view db)\<rparr>) \<and>
     (\<forall>i. effect env view findWaitingSQL [('':ID'', i)]
        (\<lambda>db res db'. view db' = view db \<and> colCount res = 1 \<and> cells res = filter (\<lambda>n. n = affinity i) (waiting (view db)))) \<and>
     (\<forall>i. effect env view dropWaitingSQL [('':ID'', i)]
        (\<lambda>db res db'. view db' = (view db)\<lparr>waiting := removeAll (affinity i) (waiting (view db))\<rparr>)) \<and>
     (\<forall>i nt u qt. effect env view addActiveSQL
          [('':ID'', i), ('':NOT'', nt), ('':UID'', u), ('':QOT'', qt)]
        (\<lambda>db res db'. last_insert_rowid db' \<notin> fst ` set (authorised (view db)) \<and>
           view db' = (view db)\<lparr>authorised := (last_insert_rowid db', affinity i) # authorised (view db)\<rparr>)) \<and>
     effect env view addOpenSQL []
        (\<lambda>db res db'. last_insert_rowid db \<notin> set (opened (view db)) \<and>
           view db' = (view db)\<lparr>opened := last_insert_rowid db # opened (view db)\<rparr>) \<and>
     (\<forall>i u p. effect env view addClosedSQL
          [('':ID'', i), ('':USR'', u), ('':PAD'', p)]
        (\<lambda>db res db'. affinity i \<notin> set (finished (view db)) \<and>
           view db' = (view db)\<lparr>finished := affinity i # finished (view db)\<rparr>)) \<and>
     (\<forall>i. effect env view dropOpenSQL [('':ID'', i)]
        (\<lambda>db res db'. view db' = (view db)\<lparr>opened := removeAll (affinity i) (opened (view db))\<rparr>))"

section \<open>The specification\<close>

text \<open>
  The moves of a call: the three complete ones, which are reported as successes, and those that a
  refused or failing call leaves behind.
\<close>

inductive lifecycle :: "bool \<Rightarrow> services \<Rightarrow> services \<Rightarrow> bool" where
  request: "n \<notin> set (requests s) \<Longrightarrow> n \<notin> set (waiting s) \<Longrightarrow>
    lifecycle True s (s\<lparr>requests := n # requests s, waiting := n # waiting s\<rparr>)"
| authorise: "n \<in> set (waiting s) \<Longrightarrow> a \<notin> fst ` set (authorised s) \<Longrightarrow> a \<notin> set (opened s) \<Longrightarrow>
    lifecycle True s (s\<lparr>waiting := removeAll n (waiting s), authorised := (a, n) # authorised s, opened := a # opened s\<rparr>)"
| close: "n \<notin> set (finished s) \<Longrightarrow>
    lifecycle True s (s\<lparr>finished := n # finished s, opened := removeAll n (opened s)\<rparr>)"
| refused: "lifecycle False s s"
| request_not_listed: "n \<notin> set (requests s) \<Longrightarrow> lifecycle False s (s\<lparr>requests := n # requests s\<rparr>)"
| request_lost: "n \<in> set (waiting s) \<Longrightarrow> lifecycle False s (s\<lparr>waiting := removeAll n (waiting s)\<rparr>)"
| not_opened: "n \<in> set (waiting s) \<Longrightarrow> a \<notin> fst ` set (authorised s) \<Longrightarrow>
    lifecycle False s (s\<lparr>waiting := removeAll n (waiting s), authorised := (a, n) # authorised s\<rparr>)"
| not_removed: "n \<notin> set (finished s) \<Longrightarrow> lifecycle False s (s\<lparr>finished := n # finished s\<rparr>)"

text \<open>The invariant of the tables, and what holds in addition as long as no call has failed.\<close>

definition services_ok :: "services \<Rightarrow> bool" where
  "services_ok s \<longleftrightarrow> distinct (requests s) \<and> distinct (waiting s) \<and> set (waiting s) \<subseteq> set (requests s) \<and>
     distinct (map fst (authorised s)) \<and> distinct (map snd (authorised s)) \<and>
     snd ` set (authorised s) \<subseteq> set (requests s) - set (waiting s) \<and>
     distinct (opened s) \<and> set (opened s) \<subseteq> fst ` set (authorised s) \<and> distinct (finished s)"

definition services_complete :: "services \<Rightarrow> bool" where
  "services_complete s \<longleftrightarrow> set (requests s) = set (waiting s) \<union> snd ` set (authorised s) \<and>
     fst ` set (authorised s) \<subseteq> set (opened s) \<union> set (finished s)"

interpretation services: reported_moves lifecycle services_ok services_complete
proof
  show "services_ok t" if "services_ok s" "lifecycle ok s t" for s ok t
    using that(2,1) by cases (auto simp: services_ok_def distinct_removeAll)
  show "services_complete t" if "services_complete s" "lifecycle True s t" for s t
    using that(2,1) by cases (auto simp: services_complete_def)
qed

section \<open>The routes refine it\<close>

lemma service_effects:
  assumes "stores_services env view rowid aff"
  shows "call_effect env view requestOwnerSQL [('':VID'', v)] (\<lambda>vs db res db'. view db' = view db)"
    and "call_effect env view addSharedSQL [('':ID'', v), ('':REQ'', t)]
      (\<lambda>vs db res db'. rowid db' \<notin> set (requests (view db)) \<and> view db' = (view db)\<lparr>requests := rowid db' # requests (view db)\<rparr>)"
    and "call_effect env view addWaitingSQL []
      (\<lambda>vs db res db'. rowid db \<notin> set (waiting (view db)) \<and> view db' = (view db)\<lparr>waiting := rowid db # waiting (view db)\<rparr>)"
    and "call_effect env view findWaitingSQL [('':ID'', i)] (\<lambda>vs db res db'. view db' = view db \<and> colCount res = 1 \<and>
       cells res = filter (\<lambda>n. n = aff (projr i)) (waiting (view db)))"
    and "call_effect env view dropWaitingSQL [('':ID'', i)]
      (\<lambda>vs db res db'. view db' = (view db)\<lparr>waiting := removeAll (aff (projr i)) (waiting (view db))\<rparr>)"
    and "call_effect env view addActiveSQL [('':ID'', i), ('':NOT'', nt), ('':UID'', u), ('':QOT'', qt)]
      (\<lambda>vs db res db'. rowid db' \<notin> fst ` set (authorised (view db)) \<and>
         view db' = (view db)\<lparr>authorised := (rowid db', aff (projr i)) # authorised (view db)\<rparr>)"
    and "call_effect env view addOpenSQL []
      (\<lambda>vs db res db'. rowid db \<notin> set (opened (view db)) \<and> view db' = (view db)\<lparr>opened := rowid db # opened (view db)\<rparr>)"
    and "call_effect env view addClosedSQL [('':ID'', i), ('':USR'', u), ('':PAD'', p)]
      (\<lambda>vs db res db'. aff (projr i) \<notin> set (finished (view db)) \<and>
         view db' = (view db)\<lparr>finished := aff (projr i) # finished (view db)\<rparr>)"
    and "call_effect env view dropOpenSQL [('':ID'', i)]
      (\<lambda>vs db res db'. view db' = (view db)\<lparr>opened := removeAll (aff (projr i)) (opened (view db))\<rparr>)"
  using assms by (auto simp: call_effect_def stores_services_def bindE_eq_Inr)

lemmas service_steps = service_effects [THEN ensures_dbCall]

lemma user_has_session: "isSessionUserFromID rq x w \<Longrightarrow> \<exists>n. getSessionID rq = Some n"
  by (auto simp: isSessionUserFromID_def getSessionUser_def split: option.splits)

lemma filter_one: "length (filter (\<lambda>n. n = x) xs) = Suc 0 \<Longrightarrow> x \<in> set xs"
  by (induction xs) (auto split: if_splits)

lemma createRequest_lifecycle:
  assumes "stores_services env view rowid aff"
  shows "ensures (createRequest env b q) w
    (\<lambda>r w'. lifecycle (succeeded w r w') (view (database w)) (view (database w')))"
  unfolding createRequest_def Let_def
  by (intro stepping service_steps [OF assms])
    (auto simp: succeeded_def lifecycle.intros dest: verify_hasSession user_has_session simp del: containsAll.simps params.simps)

lemma authoriseRequest_lifecycle:
  assumes "stores_services env view rowid aff"
  shows "ensures (authoriseRequest env b q) w
    (\<lambda>r w'. lifecycle (succeeded w r w') (view (database w)) (view (database w')))"
  unfolding authoriseRequest_def
  by (intro stepping service_steps [OF assms])
    (auto simp: succeeded_def rowCount_def lifecycle.intros dest: verify_hasSession filter_one simp del: params.simps)

lemma closeService_close:
  assumes "stores_services env view rowid aff"
  shows "ensures (closeService env b q) w
    (\<lambda>r w'. lifecycle (succeeded w r w') (view (database w)) (view (database w')) \<and>
      (succeeded w r w' \<longrightarrow> (\<exists>i. b ''ID'' = Some i \<and> aff i \<notin> set (finished (view (database w))) \<and>
        view (database w') = (view (database w))\<lparr>finished := aff i # finished (view (database w)),
          opened := removeAll (aff i) (opened (view (database w)))\<rparr>)))"
  unfolding closeService_def
  by (intro stepping service_steps [OF assms])
    (auto simp: succeeded_def lifecycle.intros bindE_eq_Inr getElement_def dest: verify_hasSession split: option.splits)

section \<open>Histories\<close>

text \<open>The calls of the three routes, by any client with any form, and how they end.\<close>

inductive service_call :: "('db, 'st) env \<Rightarrow> bool \<Rightarrow> 'db \<Rightarrow> 'db \<Rightarrow> bool" for env where
  "createRequest (env\<lparr>req := rq\<rparr>) b q w = (r, w') \<Longrightarrow> service_call env (succeeded w r w') (database w) (database w')"
| "authoriseRequest (env\<lparr>req := rq\<rparr>) b q w = (r, w') \<Longrightarrow> service_call env (succeeded w r w') (database w) (database w')"
| "closeService (env\<lparr>req := rq\<rparr>) b q w = (r, w') \<Longrightarrow> service_call env (succeeded w r w') (database w) (database w')"

text \<open>An event of a history: such a call, or something that leaves the five tables alone.\<close>

definition service_event :: "('db, 'st) env \<Rightarrow> ('db \<Rightarrow> services) \<Rightarrow> bool \<Rightarrow> 'db \<Rightarrow> 'db \<Rightarrow> bool" where
  "service_event env view ok db db' \<longleftrightarrow> service_call env ok db db' \<or> view db' = view db"

lemma stores_services_req [simp]:
  "stores_services (env\<lparr>req := rq\<rparr>) view rowid aff = stores_services env view rowid aff"
  by (simp add: stores_services_def)

lemma service_call_lifecycle:
  assumes "stores_services env view rowid aff" and "service_call env ok db db'"
  shows "lifecycle ok (view db) (view db')"
proof -
  have st: "stores_services (env\<lparr>req := rq\<rparr>) view rowid aff" for rq using assms(1) by simp
  show ?thesis
    using assms(2)
  proof cases
    case 1
    from ensuresD [OF createRequest_lifecycle [OF st] 1(4)] show ?thesis by (simp add: 1)
  next
    case 2
    from ensuresD [OF authoriseRequest_lifecycle [OF st] 2(4)] show ?thesis by (simp add: 2)
  next
    case 3
    from ensuresD [OF closeService_close [OF st] 3(4)] show ?thesis by (simp add: 3)
  qed
qed

lemma service_event_lifecycle:
  assumes "stores_services env view rowid aff" and "service_event env view ok db db'"
  shows "lifecycle ok (view db) (view db') \<or> view db' = view db"
  using assms service_call_lifecycle by (auto simp: service_event_def)

section \<open>A connection with these tables\<close>

text \<open>A connection whose state is the five tables and the last key. A new key is one more than the number
  of rows; if it is in use the insertion fails.\<close>

type_synonym service_db = "services \<times> string"

definition service_run :: "string \<Rightarrow> string list \<Rightarrow> service_db \<Rightarrow> int \<times> string list list \<times> service_db" where
  "service_run SQL vals db = (case db of (s, row) \<Rightarrow>
     let i = integer_affinity (vals ! 0);
         key = (\<lambda>n. to_string (Suc n));
         insert_unless = (\<lambda>conflict s' row'. if conflict then (19, [], db) else (SQLITE_DONE, [], (s', row')))
     in if SQL = addSharedSQL then insert_unless (key (length (requests s)) \<in> set (requests s))
          (s\<lparr>requests := key (length (requests s)) # requests s\<rparr>) (key (length (requests s)))
        else if SQL = addWaitingSQL then insert_unless (row \<in> set (waiting s))
          (s\<lparr>waiting := row # waiting s\<rparr>) (key (length (waiting s)))
        else if SQL = findWaitingSQL then (SQLITE_DONE, map (\<lambda>n. [n]) (filter (\<lambda>n. n = i) (waiting s)), db)
        else if SQL = dropWaitingSQL then (SQLITE_DONE, [], (s\<lparr>waiting := removeAll i (waiting s)\<rparr>, row))
        else if SQL = addActiveSQL then insert_unless (key (length (authorised s)) \<in> fst ` set (authorised s))
          (s\<lparr>authorised := (key (length (authorised s)), i) # authorised s\<rparr>) (key (length (authorised s)))
        else if SQL = addOpenSQL then insert_unless (row \<in> set (opened s))
          (s\<lparr>opened := row # opened s\<rparr>) (key (length (opened s)))
        else if SQL = addClosedSQL then insert_unless (i \<in> set (finished s))
          (s\<lparr>finished := i # finished s\<rparr>) (key (length (finished s)))
        else if SQL = dropOpenSQL then (SQLITE_DONE, [], (s\<lparr>opened := removeAll i (opened s)\<rparr>, row))
        else (SQLITE_DONE, [], db))"

lemma service_text_less [simplified, simp]:
  "length requestOwnerSQL < 2 ^ 31" "length addSharedSQL < 2 ^ 31" "length addWaitingSQL < 2 ^ 31"
  "length findWaitingSQL < 2 ^ 31" "length dropWaitingSQL < 2 ^ 31" "length addActiveSQL < 2 ^ 31"
  "length addOpenSQL < 2 ^ 31" "length addClosedSQL < 2 ^ 31" "length dropOpenSQL < 2 ^ 31"
  by (simp_all add: service_texts)

lemma service_texts_distinct:
  "distinct [requestOwnerSQL, addSharedSQL, addWaitingSQL, findWaitingSQL, dropWaitingSQL, addActiveSQL, addOpenSQL,
     addClosedSQL, dropOpenSQL]"
  by (simp add: service_texts)

lemmas service_text_neq = service_texts_distinct [simplified]
  service_texts_distinct [THEN distinct_rev [THEN iffD2], simplified]

lemma service_run_one_column: "one_column (service_run SQL vals db)"
  by (auto simp: one_column_def columns_def service_run_def Let_def sqlite_codes list_all_iff split: prod.splits if_splits)

lemma service_run_stores: "stores_services (table_env service_run) fst snd integer_affinity"
  unfolding stores_services_def
  by (intro conjI allI; rule table_env_effect [OF _ service_run_one_column])
    (auto simp: service_run_def service_text_neq sqlite_codes Let_def concat_singletons [of "\<lambda>n. n"]
      split: prod.splits if_splits)

definition no_services :: services where
  "no_services = \<lparr>requests = [], waiting = [], authorised = [], opened = [], finished = []\<rparr>"

lemmas service_sample = sampling service_run_def service_text_neq no_services_def

lemma sample_create:
  "\<exists>w'. createRequest (table_env service_run) [''VID'' \<mapsto> ''5'', ''request'' \<mapsto> ''oil''] Map.empty (manager_server (no_services, [])) = (Inr (), w') \<and>
     database w' = (no_services\<lparr>requests := [''1''], waiting := [''1'']\<rparr>, ''1'') \<and> reply w' = [End []]"
  by (simp add: createRequest_def Let_def service_sample)

definition swapped_services :: services where
  "swapped_services = \<lparr>requests = [''2'', ''1''], waiting = [], authorised = [(''2'', ''1''), (''1'', ''2'')],
     opened = [''2'', ''1''], finished = []\<rparr>"

lemma sample_close:
  "\<exists>w'. closeService (table_env service_run) [''ID'' \<mapsto> ''1'', ''paid'' \<mapsto> ''50''] Map.empty (manager_server (swapped_services, [])) = (Inr (), w') \<and>
     database w' = (swapped_services\<lparr>finished := [''1''], opened := [''2'']\<rparr>, ''1'') \<and> reply w' = [End []]"
  by (simp add: closeService_def Let_def service_sample swapped_services_def)

lemma sample_create_call: "service_call (table_env service_run) True (no_services, []) (no_services\<lparr>requests := [''1''], waiting := [''1'']\<rparr>, ''1'')"
proof -
  obtain w' where w': "createRequest (table_env service_run) [''VID'' \<mapsto> ''5'', ''request'' \<mapsto> ''oil''] Map.empty (manager_server (no_services, [])) = (Inr (), w')"
    "database w' = (no_services\<lparr>requests := [''1''], waiting := [''1'']\<rparr>, ''1'')" "reply w' = [End []]"
    using sample_create by blast
  then show ?thesis
    using service_call.intros(1) [where env = "table_env service_run" and rq = manager_request, unfolded table_env_simps, OF w'(1)]
    by (simp add: succeeded_def manager_server_def)
qed

section \<open>Properties\<close>

text \<open>C3. The three routes refine the life cycle of services. Whatever a client sends, whoever it is and whichever
  statement fails, a call makes one move of the specification; it is one of the three complete moves
  (a new request that waits, a waiting request that becomes an open service, a service that is closed)
  exactly when the client is told of a success, and a call that is refused, fails or throws leaves only
  what the specification lists.\<close>

theorem service_routes_refine:
  assumes "stores_services env view last_insert_rowid affinity" and "h \<in> {createRequest, authoriseRequest, closeService}"
    and "h env b q w = (r, w')"
  shows "lifecycle (succeeded w r w') (view (database w)) (view (database w'))"
proof -
  have "ensures (h env b q) w (\<lambda>r w'. lifecycle (succeeded w r w') (view (database w)) (view (database w')))"
    using assms(2) createRequest_lifecycle [OF assms(1)] authoriseRequest_lifecycle [OF assms(1)]
      closeService_close [OF assms(1)] by (auto simp: ensures_def)
  then show ?thesis using assms(3) by (rule ensuresD)
qed

theorem service_routes_refine_witness:
  "\<exists>w'. closeService (table_env service_run) [''ID'' \<mapsto> ''1'', ''paid'' \<mapsto> ''50''] Map.empty (manager_server (swapped_services, [])) = (Inr (), w') \<and>
     lifecycle True swapped_services (fst (database w'))"
proof -
  obtain w' where w': "closeService (table_env service_run) [''ID'' \<mapsto> ''1'', ''paid'' \<mapsto> ''50''] Map.empty (manager_server (swapped_services, [])) = (Inr (), w')"
    "reply w' = [End []]" using sample_close by blast
  with service_routes_refine [where h = closeService, OF service_run_stores _ w'(1)] show ?thesis
    by (auto simp: succeeded_def manager_server_def)
qed

text \<open>C4. The tables stay consistent. In every history of calls of these routes, in any order and with any
  failures, interleaved with anything that leaves the five tables alone: every number is held once, a
  waiting request exists, every authorised service comes from a request that no longer waits, no request
  is authorised twice, and every open service has its data.\<close>

theorem services_invariant:
  assumes "stores_services env view last_insert_rowid affinity" and "services_ok (view db)"
    and "(\<lambda>db db'. \<exists>ok. service_event env view ok db db')\<^sup>*\<^sup>* db db'"
  shows "services_ok (view db')"
  by (rule services.history_inv [where step = "service_event env view" and view = view, OF assms(3) _ assms(2)])
    (rule service_event_lifecycle [OF assms(1)])

theorem services_invariant_witness:
  "(\<lambda>db db'. \<exists>ok. service_event (table_env service_run) fst ok db db')\<^sup>*\<^sup>* (no_services, [])
     (no_services\<lparr>requests := [''1''], waiting := [''1'']\<rparr>, ''1'') \<and>
   services_ok (no_services\<lparr>requests := [''1''], waiting := [''1'']\<rparr>)"
proof -
  have h: "(\<lambda>db db'. \<exists>ok. service_event (table_env service_run) fst ok db db')\<^sup>*\<^sup>* (no_services, [])
     (no_services\<lparr>requests := [''1''], waiting := [''1'']\<rparr>, ''1'')"
    using sample_create_call by (intro r_into_rtranclp) (auto simp: service_event_def)
  have "services_ok (fst (no_services, []))" by (simp add: services_ok_def no_services_def)
  from services_invariant [OF service_run_stores this h] h show ?thesis by simp
qed

text \<open>C20. Nothing is lost without a report. If every call of a history is answered with success, then every
  request either still waits or has been authorised, and every authorised service is open or closed.\<close>

theorem no_service_lost:
  assumes "stores_services env view last_insert_rowid affinity" and "services_ok (view db)" and "services_complete (view db)"
    and "(service_event env view True)\<^sup>*\<^sup>* db db'"
  shows "set (requests (view db')) = set (waiting (view db')) \<union> snd ` set (authorised (view db')) \<and>
    fst ` set (authorised (view db')) \<subseteq> set (opened (view db')) \<union> set (finished (view db'))"
  using services.history_complete [where step = "service_event env view" and view = view, OF assms(4) _ assms(2,3)]
    service_event_lifecycle [OF assms(1)]
  by (simp add: services_complete_def)

theorem no_service_lost_witness:
  "\<exists>db'. (service_event (table_env service_run) fst True)\<^sup>*\<^sup>* (no_services, []) db' \<and> requests (fst db') = [''1''] \<and>
     set (requests (fst db')) = set (waiting (fst db')) \<union> snd ` set (authorised (fst db'))"
proof -
  have h: "(service_event (table_env service_run) fst True)\<^sup>*\<^sup>* (no_services, [])
     (no_services\<lparr>requests := [''1''], waiting := [''1'']\<rparr>, ''1'')"
    using sample_create_call by (intro r_into_rtranclp) (auto simp: service_event_def)
  have "services_ok (fst (no_services, []))" "services_complete (fst (no_services, []))"
    by (simp_all add: services_ok_def services_complete_def no_services_def)
  from no_service_lost [OF service_run_stores this h] h show ?thesis by fastforce
qed

text \<open>C38. The wrong service can be closed. The pages list an open service under the number of its request, and
  send that number to \<^verbatim>\<open>closeService\<close>, which takes it for the number of the active data. When requests were
  not authorised in the order in which they were made the two differ: a successful call then leaves the
  listed service open and marks the service of another request as closed.\<close>

theorem close_by_request_number:
  assumes "stores_services env view last_insert_rowid affinity" and "closeService env b q w = (Inr (), w')"
    and "reply w' = reply w @ [End []]" and "b ''ID'' = Some i"
    and "(a, affinity i) \<in> set (authorised (view (database w)))" and "a \<in> set (opened (view (database w)))" and "a \<noteq> affinity i"
  shows "a \<in> set (opened (view (database w'))) \<and> (a \<in> set (finished (view (database w'))) \<longleftrightarrow> a \<in> set (finished (view (database w)))) \<and>
    affinity i \<notin> set (opened (view (database w'))) \<and> affinity i \<in> set (finished (view (database w')))"
  using ensuresD [OF closeService_close [OF assms(1)] assms(2)] assms(3-7) by (simp add: succeeded_def)

theorem close_by_request_number_witness:
  "\<exists>w'. closeService (table_env service_run) [''ID'' \<mapsto> ''1'', ''paid'' \<mapsto> ''50''] Map.empty (manager_server (swapped_services, [])) = (Inr (), w') \<and>
     (''2'', ''1'') \<in> set (authorised (fst (database w'))) \<and> ''2'' \<in> set (opened (fst (database w')))"
proof -
  obtain w' where w': "closeService (table_env service_run) [''ID'' \<mapsto> ''1'', ''paid'' \<mapsto> ''50''] Map.empty (manager_server (swapped_services, [])) = (Inr (), w')"
    "database w' = (swapped_services\<lparr>finished := [''1''], opened := [''2'']\<rparr>, ''1'')"
    "reply w' = reply (manager_server (swapped_services, [] :: string)) @ [End []]"
    using sample_close by (auto simp: manager_server_def)
  have "''2'' \<in> set (opened (fst (database w')))"
    using close_by_request_number [OF service_run_stores w'(1,3), of "''1''" "''2''"]
    by (simp add: affinity_1 manager_server_def swapped_services_def)
  with w' show ?thesis by (simp add: swapped_services_def)
qed

end
