(* ===== verification/Ledger.thy ===== *)
theory Ledger
  imports Effects ServiceRoutes
begin

text \<open>
  The parts of a service across requests (\<^verbatim>\<open>addPartToService\<close> and \<^verbatim>\<open>removePartFromService\<close> of
  \<^verbatim>\<open>Server/include/WebRoutes/Services.h\<close>). The table \<^verbatim>\<open>PARTSINSERVICE\<close> of \<^verbatim>\<open>Server/sqlcrt.txt\<close> does not
  demand that a part is listed once for a service; the routes keep it so. Seen as a map from a service
  and a part to a quantity, adding parts is an update of that map.
\<close>

section \<open>The table\<close>

record entry =
  entryID :: string
  entryService :: string
  entryPart :: string
  quantity :: string

definition entryKey :: "entry \<Rightarrow> string \<times> string" where
  "entryKey e = (entryService e, entryPart e)"

definition changeQuantity :: "(string \<Rightarrow> string) \<Rightarrow> string \<Rightarrow> entry list \<Rightarrow> entry list" where
  "changeQuantity f i l = map (\<lambda>e. if entryID e = i then e\<lparr>quantity := f (quantity e)\<rparr> else e) l"

text \<open>
  What SQLite documents of the statements of the two routes; \<open>increase\<close> and \<open>decrease\<close> are the addition and
  subtraction of SQL on the text of a column and a bound value. The text of a key is not changed by the
  affinity of an integer column.
\<close>

definition stores_entries ::
  "('db, 'st) env \<Rightarrow> ('db \<Rightarrow> entry list) \<Rightarrow> (string \<Rightarrow> string) \<Rightarrow> (string \<Rightarrow> string \<Rightarrow> string) \<Rightarrow> (string \<Rightarrow> string \<Rightarrow> string) \<Rightarrow> bool" where
  "stores_entries env view affinity increase decrease \<longleftrightarrow>
     (\<forall>db. list_all (\<lambda>e. affinity (entryID e) = entryID e) (view db)) \<and>
     (\<forall>p s. effect env view findEntrySQL [('':PRT'', p), ('':SID'', s)]
        (\<lambda>db res db'. view db' = view db \<and> colCount res = 1 \<and>
           cells res = map entryID (filter (\<lambda>e. entryKey e = (affinity s, affinity p)) (view db)))) \<and>
     (\<forall>i n. effect env view growEntrySQL [('':ID'', i), ('':QNT'', n)]
        (\<lambda>db res db'. view db' = changeQuantity (\<lambda>q. increase q n) (affinity i) (view db))) \<and>
     (\<forall>p n s. effect env view addEntrySQL [('':PRT'', p), ('':QNT'', n), ('':SRV'', s)]
        (\<lambda>db res db'. \<exists>key. key \<notin> entryID ` set (view db) \<and> view db' = view db @
           [\<lparr>entryID = key, entryService = affinity s, entryPart = affinity p, quantity = affinity n\<rparr>])) \<and>
     (\<forall>i. effect env view entryQuantitySQL [('':ID'', i)]
        (\<lambda>db res db'. view db' = view db \<and> colCount res = 1 \<and>
           cells res = map quantity (filter (\<lambda>e. entryID e = affinity i) (view db)))) \<and>
     (\<forall>i. effect env view dropEntrySQL [('':ID'', i)]
        (\<lambda>db res db'. view db' = filter (\<lambda>e. entryID e \<noteq> affinity i) (view db))) \<and>
     (\<forall>i n. effect env view shrinkEntrySQL [('':QNT'', n), ('':ID'', i)]
        (\<lambda>db res db'. view db' = changeQuantity (\<lambda>q. decrease q n) (affinity i) (view db)))"

section \<open>The specification\<close>

text \<open>The table as a map, and its moves. A call that is not answered with success changes nothing.\<close>

definition quantities :: "entry list \<Rightarrow> string \<times> string \<rightharpoonup> string" where
  "quantities l = map_of (map (\<lambda>e. (entryKey e, quantity e)) l)"

inductive ledger_move :: "bool \<Rightarrow> entry list \<Rightarrow> entry list \<Rightarrow> bool" where
  new_entry: "entryID e \<notin> entryID ` set l \<Longrightarrow> entryKey e \<notin> entryKey ` set l \<Longrightarrow> ledger_move True l (l @ [e])"
| change: "ledger_move True l (changeQuantity f i l)"
| remove: "ledger_move True l (filter (\<lambda>e. entryID e \<noteq> i) l)"
| refused: "ledger_move False l l"

definition entries_ok :: "entry list \<Rightarrow> bool" where
  "entries_ok l \<longleftrightarrow> distinct (map entryID l) \<and> distinct (map entryKey l)"

lemma changeQuantity_keys [simp]:
  "map entryID (changeQuantity f i l) = map entryID l" "map entryKey (changeQuantity f i l) = map entryKey l"
  by (simp_all add: changeQuantity_def entryKey_def)

interpretation entries: moves ledger_move entries_ok
proof
  show "entries_ok t" if "entries_ok s" "ledger_move ok s t" for s ok t
    using that(2,1) by cases (auto simp: entries_ok_def distinct_map_filter)
qed

lemma entryKey_simp [simp]: "entryKey \<lparr>entryID = i, entryService = s, entryPart = p, quantity = n\<rparr> = (s, p)"
  "entryKey (e\<lparr>quantity := n\<rparr>) = entryKey e"
  by (simp_all add: entryKey_def)

lemma quantities_Cons: "quantities (e # l) = (quantities l)(entryKey e \<mapsto> quantity e)"
  by (simp add: quantities_def)

lemma changeQuantity_Cons:
  "changeQuantity f i (e # l) = (if entryID e = i then e\<lparr>quantity := f (quantity e)\<rparr> else e) # changeQuantity f i l"
  by (simp add: changeQuantity_def)

lemma quantities_append: "entryKey e \<notin> entryKey ` set l \<Longrightarrow> quantities (l @ [e]) = (quantities l)(entryKey e \<mapsto> quantity e)"
  by (induction l) (auto simp: quantities_def fun_upd_twist)

lemma quantities_entry:
  "distinct (map entryKey l) \<Longrightarrow> e \<in> set l \<Longrightarrow> quantities l (entryKey e) = Some (quantity e)"
  unfolding quantities_def by (intro map_of_is_SomeI) (auto simp: comp_def)

lemma changeQuantity_idle: "i \<notin> entryID ` set l \<Longrightarrow> changeQuantity f i l = l"
  by (induction l) (auto simp: changeQuantity_def)

lemma quantities_change:
  "entries_ok l \<Longrightarrow> e \<in> set l \<Longrightarrow>
   quantities (changeQuantity f (entryID e) l) = (quantities l)(entryKey e \<mapsto> f (quantity e))"
proof (induction l)
  case (Cons x l)
  show ?case
  proof (cases "x = e")
    case True
    with Cons.prems have "changeQuantity f (entryID e) l = l"
      by (intro changeQuantity_idle) (auto simp: entries_ok_def)
    with True show ?thesis by (auto simp: quantities_Cons changeQuantity_Cons intro!: ext)
  next
    case False
    with Cons.prems have e: "e \<in> set l" "entries_ok l" "entryID x \<noteq> entryID e" "entryKey x \<noteq> entryKey e"
      by (auto simp: entries_ok_def)
    with Cons.IH show ?thesis by (auto simp: quantities_Cons changeQuantity_Cons intro!: ext)
  qed
qed simp

section \<open>The routes\<close>

lemma no_entry:
  assumes "cells res = map entryID (filter (\<lambda>e. entryKey e = k) l)" and "colCount res = Suc 0" and "rowCount res = Inr 0"
  shows "k \<notin> entryKey ` set l"
  using assms by (auto simp: rowCount_def filter_empty_conv)

lemma entry_effects:
  assumes "stores_entries env view aff inc dec"
  shows "call_effect env view findEntrySQL [('':PRT'', p), ('':SID'', s)] (\<lambda>vs db res db'. view db' = view db \<and> colCount res = 1 \<and>
       cells res = map entryID (filter (\<lambda>e. entryKey e = (aff (projr s), aff (projr p))) (view db)) \<and>
       (rowCount res = Inr 0 \<longrightarrow> (aff (projr s), aff (projr p)) \<notin> entryKey ` set (view db)))" (is ?find)
    and "call_effect env view growEntrySQL [('':ID'', i), ('':QNT'', n)]
      (\<lambda>vs db res db'. view db' = changeQuantity (\<lambda>q. inc q (projr n)) (aff (projr i)) (view db))"
    and "call_effect env view addEntrySQL [('':PRT'', p), ('':QNT'', n), ('':SRV'', s)]
      (\<lambda>vs db res db'. \<exists>key. key \<notin> entryID ` set (view db) \<and> view db' = view db @
         [\<lparr>entryID = key, entryService = aff (projr s), entryPart = aff (projr p), quantity = aff (projr n)\<rparr>])"
    and "call_effect env view entryQuantitySQL [('':ID'', i)] (\<lambda>vs db res db'. view db' = view db \<and> colCount res = 1 \<and>
       cells res = map quantity (filter (\<lambda>e. entryID e = aff (projr i)) (view db)))"
    and "call_effect env view dropEntrySQL [('':ID'', i)]
      (\<lambda>vs db res db'. view db' = filter (\<lambda>e. entryID e \<noteq> aff (projr i)) (view db))"
    and "call_effect env view shrinkEntrySQL [('':QNT'', n), ('':ID'', i)]
      (\<lambda>vs db res db'. view db' = changeQuantity (\<lambda>q. dec q (projr n)) (aff (projr i)) (view db))"
proof -
  have "effect env view findEntrySQL [('':PRT'', p), ('':SID'', s)] (\<lambda>db res db'. view db' = view db \<and> colCount res = 1 \<and>
      cells res = map entryID (filter (\<lambda>e. entryKey e = (aff s, aff p)) (view db)))" for p s
    using assms by (simp add: stores_entries_def)
  note find = effect_weaken [OF this]
  show ?find
    unfolding call_effect_def by (intro allI impI) (auto simp: bindE_eq_Inr intro!: find dest: no_entry)
qed (use assms in \<open>auto simp: call_effect_def stores_entries_def bindE_eq_Inr\<close>)

lemmas entry_steps = entry_effects [THEN ensures_dbCall]

text \<open>What a successful addition of \<open>n\<close> parts under the key \<open>k\<close> makes of the map.\<close>

definition added :: "(string \<Rightarrow> string) \<Rightarrow> (string \<Rightarrow> string \<Rightarrow> string) \<Rightarrow> string \<times> string \<Rightarrow> string
    \<Rightarrow> (string \<times> string \<rightharpoonup> string) \<Rightarrow> string \<times> string \<rightharpoonup> string" where
  "added aff inc k n m = m(k \<mapsto> (case m k of None \<Rightarrow> aff n | Some q \<Rightarrow> inc q n))"

lemma filter_key: "filter (\<lambda>e. entryKey e = k) l = e # rest \<Longrightarrow> e \<in> set l \<and> entryKey e = k"
  by (metis (mono_tags, lifting) filter_eq_ConsD in_set_conv_decomp)

lemma added_grow:
  assumes "stores_entries env view aff inc dec" and "entries_ok (view db)"
    and "colCount res = Suc 0" and "cells res = map entryID (filter (\<lambda>e. entryKey e = k) (view db))"
    and "rowCount res = Inr x" and "0 < x"
  shows "quantities (changeQuantity (\<lambda>q. inc q n) (aff (projr (cell res 0 0))) (view db)) = added aff inc k n (quantities (view db))"
proof -
  from assms(3-6) obtain e rest where f: "filter (\<lambda>e. entryKey e = k) (view db) = e # rest" "projr (cell res 0 0) = entryID e"
    by (cases "filter (\<lambda>e. entryKey e = k) (view db)") (auto simp: rowCount_def cell_def)
  then have e: "e \<in> set (view db)" "entryKey e = k" using filter_key by blast+
  with assms(1) have i: "aff (entryID e) = entryID e" by (auto simp: stores_entries_def list_all_iff)
  have "quantities (view db) k = Some (quantity e)"
    using quantities_entry [OF _ e(1)] assms(2) e(2) by (simp add: entries_ok_def)
  with quantities_change [OF assms(2) e(1), of "\<lambda>q. inc q n"] f i e show ?thesis by (simp add: added_def)
qed

lemma added_new:
  assumes "(s, p) \<notin> entryKey ` set l"
  shows "quantities (l @ [\<lparr>entryID = i, entryService = s, entryPart = p, quantity = aff n\<rparr>]) = added aff inc (s, p) n (quantities l)"
proof -
  have "quantities l (s, p) = None" using assms by (auto simp: quantities_def map_of_eq_None_iff comp_def)
  with assms quantities_append [of "\<lparr>entryID = i, entryService = s, entryPart = p, quantity = aff n\<rparr>" l] show ?thesis
    by (simp add: added_def)
qed

lemma addPart_ensures:
  fixes b :: queryBase
  assumes "stores_entries env view aff inc dec"
  defines "s \<equiv> projr (getElement b ''serviceID'')" and "p \<equiv> projr (getElement b ''partID'')"
    and "n \<equiv> projr (elementOr b ''quantity'' ''1'')"
  shows "ensures (addPartToService env b q) w (\<lambda>r w'. ledger_move (succeeded w r w') (view (database w)) (view (database w')) \<and>
    (succeeded w r w' \<longrightarrow> entries_ok (view (database w)) \<longrightarrow>
      quantities (view (database w')) = added aff inc (aff s, aff p) n (quantities (view (database w)))))"
  unfolding addPartToService_def Let_def s_def p_def n_def
  by (intro stepping entry_steps [OF assms(1)])
    (auto simp: succeeded_def ledger_move.refused ledger_move.change intro!: ledger_move.new_entry added_new
      intro: added_grow [OF assms(1)] dest: verify_hasSession simp del: containsAll.simps params.simps)

lemma removePart_ensures:
  assumes "stores_entries env view aff inc dec"
  shows "ensures (removePartFromService env b q) w
    (\<lambda>r w'. ledger_move (succeeded w r w') (view (database w)) (view (database w')))"
  unfolding removePartFromService_def
  by (intro stepping entry_steps [OF assms(1)])
    (auto simp: succeeded_def ledger_move.intros dest: verify_hasSession simp del: containsAll.simps params.simps)

section \<open>Histories\<close>

inductive ledger_call :: "('db, 'st) env \<Rightarrow> bool \<Rightarrow> 'db \<Rightarrow> 'db \<Rightarrow> bool" for env where
  "addPartToService (env\<lparr>req := rq\<rparr>) b q w = (r, w') \<Longrightarrow> ledger_call env (succeeded w r w') (database w) (database w')"
| "removePartFromService (env\<lparr>req := rq\<rparr>) b q w = (r, w') \<Longrightarrow> ledger_call env (succeeded w r w') (database w) (database w')"

definition ledger_event :: "('db, 'st) env \<Rightarrow> ('db \<Rightarrow> entry list) \<Rightarrow> bool \<Rightarrow> 'db \<Rightarrow> 'db \<Rightarrow> bool" where
  "ledger_event env view ok db db' \<longleftrightarrow> ledger_call env ok db db' \<or> view db' = view db"

lemma ledger_event_moves:
  assumes "stores_entries env view aff inc dec" and "ledger_event env view ok db db'"
  shows "ledger_move ok (view db) (view db') \<or> view db' = view db"
proof (cases "ledger_call env ok db db'")
  case True
  have st: "stores_entries (env\<lparr>req := rq\<rparr>) view aff inc dec" for rq
    using assms(1) by (simp add: stores_entries_def)
  from True show ?thesis
  proof cases
    case 1
    from ensuresD [OF addPart_ensures [OF st] 1(4)] show ?thesis by (simp add: 1)
  next
    case 2
    from ensuresD [OF removePart_ensures [OF st] 2(4)] show ?thesis by (simp add: 2)
  qed
qed (use assms(2) in \<open>simp add: ledger_event_def\<close>)

section \<open>A connection with this table\<close>

text \<open>The state is the list of rows, with the key as a number; sums and differences are those of numbers.\<close>

type_synonym entry_row = "nat \<times> string \<times> string \<times> string"

definition entries :: "entry_row list \<Rightarrow> entry list" where
  "entries db = map (\<lambda>(key, s, p, n). \<lparr>entryID = to_string key, entryService = s, entryPart = p, quantity = n\<rparr>) db"

definition sum_text :: "string \<Rightarrow> string \<Rightarrow> string" where
  "sum_text q n = to_string (num_val q + num_val n)"

definition difference_text :: "string \<Rightarrow> string \<Rightarrow> string" where
  "difference_text q n = to_string (num_val q - num_val n)"

definition changeRow :: "(string \<Rightarrow> string) \<Rightarrow> string \<Rightarrow> entry_row list \<Rightarrow> entry_row list" where
  "changeRow f i db = map (\<lambda>(key, s, p, n). (key, s, p, if to_string key = i then f n else n)) db"

definition entry_run :: "string \<Rightarrow> string list \<Rightarrow> entry_row list \<Rightarrow> int \<times> string list list \<times> entry_row list" where
  "entry_run SQL vals db = (let a = (\<lambda>k. integer_affinity (vals ! k)) in
     if SQL = findEntrySQL then (SQLITE_DONE, map (\<lambda>e. [entryID e]) (filter (\<lambda>e. entryKey e = (a 1, a 0)) (entries db)), db)
     else if SQL = growEntrySQL then (SQLITE_DONE, [], changeRow (\<lambda>q. sum_text q (vals ! 1)) (a 0) db)
     else if SQL = addEntrySQL then
       (if length db \<in> fst ` set db then (13, [], db) else (SQLITE_DONE, [], db @ [(length db, a 2, a 0, a 1)]))
     else if SQL = entryQuantitySQL then (SQLITE_DONE, map (\<lambda>e. [quantity e]) (filter (\<lambda>e. entryID e = a 0) (entries db)), db)
     else if SQL = dropEntrySQL then (SQLITE_DONE, [], filter (\<lambda>row. to_string (fst row) \<noteq> a 0) db)
     else if SQL = shrinkEntrySQL then (SQLITE_DONE, [], changeRow (\<lambda>q. difference_text q (vals ! 0)) (a 1) db)
     else (SQLITE_DONE, [], db))"

lemma entry_text_less [simplified, simp]:
  "length findEntrySQL < 2 ^ 31" "length growEntrySQL < 2 ^ 31" "length addEntrySQL < 2 ^ 31"
  "length entryQuantitySQL < 2 ^ 31" "length dropEntrySQL < 2 ^ 31" "length shrinkEntrySQL < 2 ^ 31"
  by (simp_all add: service_texts)

lemma entry_texts_distinct: "distinct [findEntrySQL, growEntrySQL, addEntrySQL, entryQuantitySQL, dropEntrySQL, shrinkEntrySQL]"
  by (simp add: service_texts)

lemmas entry_text_neq = entry_texts_distinct [simplified]
  entry_texts_distinct [THEN distinct_rev [THEN iffD2], simplified]

lemma entries_changeRow: "entries (changeRow f i db) = changeQuantity f i (entries db)"
  by (induction db) (auto simp: entries_def changeRow_def changeQuantity_def)

lemma entries_filter: "entries (filter (\<lambda>row. to_string (fst row) \<noteq> i) db) = filter (\<lambda>e. entryID e \<noteq> i) (entries db)"
  by (induction db) (auto simp: entries_def)

lemma entries_snoc:
  "entries (db @ [(key, s, p, n)]) = entries db @ [\<lparr>entryID = to_string key, entryService = s, entryPart = p, quantity = n\<rparr>]"
  by (simp add: entries_def)

lemma entries_key: "to_string key \<in> entryID ` set (entries db) \<longleftrightarrow> key \<in> fst ` set db"
  by (force simp: entries_def image_iff to_string_inj)

lemma entry_run_one_column: "one_column (entry_run SQL vals db)"
  by (auto simp: one_column_def columns_def entry_run_def Let_def sqlite_codes list_all_iff)

lemma entry_run_stores: "stores_entries (table_env entry_run) entries integer_affinity sum_text difference_text"
  unfolding stores_entries_def
proof (intro conjI allI)
  show "list_all (\<lambda>e. integer_affinity (entryID e) = entryID e) (entries db)" for db
    by (auto simp: entries_def list_all_iff)
qed (rule table_env_effect [OF _ entry_run_one_column];
    auto simp: entry_run_def entry_text_neq sqlite_codes Let_def concat_singletons entries_changeRow entries_filter
      entries_snoc entries_key)+

definition one_entry :: "entry_row list" where
  "one_entry = [(0, ''1'', ''2'', ''4'')]"

lemma sample_texts: "integer_affinity ''2'' = ''2''" "sum_text ''4'' ''3'' = ''7''" "from_chars 64 ''3'' = Some 3"
  by (simp_all add: integer_affinity_def sum_text_def sample_numbers small_numbers to_string_7)

lemma sample_add:
  "\<exists>w'. addPartToService (table_env entry_run) [''serviceID'' \<mapsto> ''1'', ''partID'' \<mapsto> ''2'', ''quantity'' \<mapsto> ''3''] Map.empty
      (manager_server one_entry) = (Inr (), w') \<and> database w' = [(0, ''1'', ''2'', ''7'')] \<and> reply w' = [End []]"
  by (simp add: addPartToService_def Let_def sampling entry_run_def entry_text_neq one_entry_def entries_def entryKey_def
      changeRow_def sample_texts cell_def level_defs)

lemma one_entry_ok: "entries_ok (entries one_entry)"
  by (simp add: entries_ok_def entries_def one_entry_def)

section \<open>Properties\<close>

text \<open>C13. Adding parts to a service is an update of the map from service and part to quantity: when the client
  is told of a success, the quantity of that part in that service has grown by the given number (one
  part if the form gives none), or the part is listed with that number if it was not listed; in every
  other case, refusals, failures of the database and exceptions included, the map is as before.\<close>

theorem addPart_updates:
  assumes "stores_entries env view affinity increase decrease" and "entries_ok (view (database w))"
    and "addPartToService env b q w = (r, w')"
    and "b ''serviceID'' = Some s" and "b ''partID'' = Some p" and "elementOr b ''quantity'' ''1'' = Inr n"
  shows "quantities (view (database w')) = (if succeeded w r w'
    then (quantities (view (database w)))((affinity s, affinity p) \<mapsto>
      (case quantities (view (database w)) (affinity s, affinity p) of None \<Rightarrow> affinity n | Some old \<Rightarrow> increase old n))
    else quantities (view (database w)))"
proof (cases "succeeded w r w'")
  case False
  with ensuresD [OF addPart_ensures [OF assms(1)] assms(3)] show ?thesis
    by (auto elim: ledger_move.cases)
next
  case True
  with ensuresD [OF addPart_ensures [OF assms(1)] assms(3)] assms(2,4-6) show ?thesis
    by (simp add: added_def getElement_def)
qed

theorem addPart_updates_witness:
  "\<exists>w'. addPartToService (table_env entry_run) [''serviceID'' \<mapsto> ''1'', ''partID'' \<mapsto> ''2'', ''quantity'' \<mapsto> ''3''] Map.empty
      (manager_server one_entry) = (Inr (), w') \<and> quantities (entries (database w')) = [(''1'', ''2'') \<mapsto> ''7'']"
proof -
  obtain w' where w': "addPartToService (table_env entry_run) [''serviceID'' \<mapsto> ''1'', ''partID'' \<mapsto> ''2'', ''quantity'' \<mapsto> ''3''] Map.empty
      (manager_server one_entry) = (Inr (), w')" "reply w' = [End []]"
    using sample_add by blast
  have "quantities (entries (database w')) = [(''1'', ''2'') \<mapsto> ''7'']"
    using addPart_updates [OF entry_run_stores _ w'(1), of "''1''" "''2''" "''3''"] w'(2) one_entry_ok
    by (simp add: manager_server_def succeeded_def affinity_1 sample_texts elementOr_def hasElement_def getElement_def
        quantities_def entries_def one_entry_def entryKey_def)
  with w'(1) show ?thesis by blast
qed

text \<open>C15. A part is listed once. In every history of calls that add and remove parts, in any order and with any
  failures, interleaved with anything that leaves the table alone, no two rows have the same key and no
  two rows have the same service and part, which the table itself does not demand.\<close>

theorem parts_listed_once:
  assumes "stores_entries env view affinity increase decrease" and "entries_ok (view db)"
    and "(\<lambda>db db'. \<exists>ok. ledger_event env view ok db db')\<^sup>*\<^sup>* db db'"
  shows "distinct (map entryID (view db')) \<and> distinct (map entryKey (view db'))"
  using entries.history_inv [where step = "ledger_event env view" and view = view, OF assms(3) _ assms(2)]
    ledger_event_moves [OF assms(1)]
  by (simp add: entries_ok_def)

theorem parts_listed_once_witness:
  "(\<lambda>db db'. \<exists>ok. ledger_event (table_env entry_run) entries ok db db')\<^sup>*\<^sup>* one_entry [(0, ''1'', ''2'', ''7'')] \<and>
   distinct (map entryKey (entries [(0, ''1'', ''2'', ''7'')]))"
proof -
  obtain w' where w': "addPartToService (table_env entry_run) [''serviceID'' \<mapsto> ''1'', ''partID'' \<mapsto> ''2'', ''quantity'' \<mapsto> ''3''] Map.empty
      (manager_server one_entry) = (Inr (), w')" "database w' = [(0, ''1'', ''2'', ''7'')]"
    using sample_add by blast
  have "ledger_call (table_env entry_run) (succeeded (manager_server one_entry) (Inr ()) w') one_entry [(0, ''1'', ''2'', ''7'')]"
    using ledger_call.intros(1) [where env = "table_env entry_run" and rq = manager_request, unfolded table_env_simps, OF w'(1)]
    by (simp add: w'(2) manager_server_def)
  then have h: "(\<lambda>db db'. \<exists>ok. ledger_event (table_env entry_run) entries ok db db')\<^sup>*\<^sup>* one_entry [(0, ''1'', ''2'', ''7'')]"
    by (intro r_into_rtranclp) (auto simp: ledger_event_def)
  from parts_listed_once [OF entry_run_stores one_entry_ok h] h show ?thesis by blast
qed

end
