(* ===== verification/Listings.thy ===== *)
theory Listings
  imports PartRoutes Effects
begin

text \<open>
  What the reading routes answer. A route sends the rows that SQLite gave it as objects in the response
  format, and the translator reads the text back; here the two ends are put together. The first part says
  which response the loops over rows build (\<open>addCells\<close>, \<open>addRows\<close>); the locale \<open>lookup_route\<close> is what the
  routes for suppliers, groups and parts (\<^verbatim>\<open>Server/include/WebRoutes/Parts.h\<close>) have in common, and it is
  interpreted for the six of them.
\<close>

section \<open>Rows and objects\<close>

text \<open>A result with these rows, all of one width.\<close>

definition tabular :: "nat \<Rightarrow> string list list \<Rightarrow> SQLResult \<Rightarrow> bool" where
  "tabular n rows res \<longleftrightarrow> 0 < n \<and> colCount res = n \<and> cells res = concat rows \<and> list_all (\<lambda>row. length row = n) rows"

text \<open>The object of a row, the elements named in the order of the columns.\<close>

definition rowElements :: "string list \<Rightarrow> string list \<Rightarrow> (string \<times> elementContainer) list" where
  "rowElements names row = map2 (\<lambda>name v. (name, Strings [v])) names row"

definition rowObject :: "string list \<Rightarrow> string list \<Rightarrow> responseWrapper" where
  "rowObject names row = ResponseWrapper (rowElements names row) (replicate (length (rowElements names row)) False)"

text \<open>A response whose last element lists the rows; without rows the element is missing.\<close>

definition withRows :: "responseWrapper \<Rightarrow> string \<Rightarrow> bool \<Rightarrow> string list \<Rightarrow> string list list \<Rightarrow> responseWrapper" where
  "withRows r name force names rows = (if rows = [] then r else
     ResponseWrapper (elements r @ [(name, Objects (map (rowObject names) rows))]) (forcedArrays r @ [force]))"

lemma tabular_rowCount: "tabular n rows res \<Longrightarrow> rowCount res = Inr (length rows)"
  by (auto simp: tabular_def rowCount_def list_all_iff length_concat_eq [where n = n])

lemma tabular_cell:
  assumes "tabular n rows res" "i < length rows" "j < n"
  shows "cell res i j = Inr (rows ! i ! j)"
proof -
  have "i * n + j < length rows * n"
    using assms(2,3) mult_le_mono1 [of "Suc i" "length rows" n] by simp
  moreover have "length (cells res) = length rows * n"
    using assms(1) length_concat_eq [of rows n] by (auto simp: tabular_def list_all_iff)
  ultimately show ?thesis using assms nth_concat_rows [of rows n i j] by (simp add: tabular_def list_all_iff cell_def Let_def)
qed

lemma addString_new:
  "key \<notin> fst ` set (elements r) \<Longrightarrow>
   addString r key v force = Inr (ResponseWrapper (elements r @ [(key, Strings [v])]) (forcedArrays r @ [force]))"
  by (simp add: addString_def genericAdd_def find_it_None [THEN iffD2])

lemma addCells_row:
  assumes "tabular n rows res" "i < length rows" "distinct names" "fst ` set (elements r) \<inter> set names = {}"
    and "k + length names = n"
  shows "addCells res i (zip names [k..<n]) r = Inr (ResponseWrapper (elements r @ rowElements names (drop k (rows ! i)))
     (forcedArrays r @ replicate (length names) False))"
  using assms(3-5)
proof (induction names arbitrary: k r)
  case Nil
  then show ?case by (cases r) (simp add: rowElements_def)
next
  case (Cons name names)
  have len: "length (rows ! i) = n" using assms(1,2) by (simp add: tabular_def list_all_length)
  have kn: "k < n" "[k..<n] = k # [Suc k..<n]" using Cons.prems(3) by (auto simp: upt_conv_Cons)
  let ?r = "ResponseWrapper (elements r @ [(name, Strings [rows ! i ! k])]) (forcedArrays r @ [False])"
  have "addCells res i (zip (name # names) [k..<n]) r = addCells res i (zip names [Suc k..<n]) ?r"
    using tabular_cell [OF assms(1,2) kn(1)] Cons.prems(2) kn(2) by (simp add: addString_new)
  also have "\<dots> = Inr (ResponseWrapper (elements ?r @ rowElements names (drop (Suc k) (rows ! i)))
     (forcedArrays ?r @ replicate (length names) False))"
    using Cons.prems by (intro Cons.IH) auto
  finally show ?case
    using kn(1) len by (simp add: rowElements_def Cons_nth_drop_Suc [symmetric])
qed

lemma addCells_object:
  assumes "tabular n rows res" "i < length rows" "distinct names" "length names = n"
  shows "addCells res i (zip names [0..<n]) emptyResponse = Inr (rowObject names (rows ! i))"
proof -
  have "length (rows ! i) = n" using assms(1,2) by (simp add: tabular_def list_all_length)
  with addCells_row [OF assms(1-3), where r = emptyResponse and k = 0] assms(4) show ?thesis
    by (simp add: emptyResponse_def rowObject_def rowElements_def)
qed

lemma find_it_last: "name \<notin> fst ` set es \<Longrightarrow> find_it name (es @ [(name, c)]) = Some (length es)"
  by (induction es) auto

lemma addObject_rows:
  assumes "name \<notin> fst ` set (elements r)"
  shows "addObject (withRows r name force names rows) name (rowObject names row) force
    = Inr (withRows r name force names (rows @ [row]))"
proof (cases "rows = []")
  case True
  with assms show ?thesis by (simp add: withRows_def addObject_def genericAdd_def find_it_None [THEN iffD2])
next
  case False
  with assms show ?thesis by (simp add: withRows_def addObject_def genericAdd_def find_it_last)
qed

lemma addRows_fold:
  assumes "tabular n rows res" "distinct names" "length names = n" "name \<notin> fst ` set (elements r)" "k \<le> length rows"
  shows "foldE (\<lambda>i response. bindE (addCells res i (zip names [0..<n]) emptyResponse) (\<lambda>temp.
       addObject response name temp force)) [k..<length rows] (withRows r name force names (take k rows))
     = Inr (withRows r name force names rows)"
  using assms(5)
proof (induction k rule: inc_induct)
  case (step k)
  then show ?case
    using addCells_object [OF assms(1) _ assms(2,3)] addObject_rows [OF assms(4)]
    by (simp add: upt_conv_Cons take_Suc_conv_app_nth)
qed simp

lemma addRows_rows:
  assumes "tabular n rows res" "distinct names" "length names = n" "name \<notin> fst ` set (elements r)"
  shows "addRows res (zip names [0..<n]) name force r = Inr (withRows r name force names rows)"
  using addRows_fold [OF assms, of 0 force] tabular_rowCount [OF assms(1)]
  by (simp add: addRows_def withRows_def)

text \<open>These responses can be printed, and parsing gives them back unchanged but for the flag of the array.\<close>

definition row_ok :: "string list \<Rightarrow> bool" where
  "row_ok row = list_all value_ok row"

lemma rowElements_keys: "e \<in> set (rowElements names row) \<Longrightarrow> fst e \<in> set names \<and> (\<exists>v \<in> set row. snd e = Strings [v])"
  by (auto simp: rowElements_def set_zip)

lemma rowObject_printable:
  "list_all key_ok names \<Longrightarrow> row_ok row \<Longrightarrow> printable (rowObject names row)"
  by (auto simp: rowObject_def row_ok_def list_all_iff dest!: rowElements_keys)

lemma rowObject_norm [simp]: "norm (rowObject names row) = rowObject names row"
  by (simp add: rowObject_def rowElements_def map2_map_map o_def split_beta
      flip: map_replicate_const) (rule nth_equalityI; simp)

lemma withRows_printable:
  assumes "printable r" "key_ok name" "list_all key_ok names" "list_all row_ok rows"
  shows "printable (withRows r name force names rows)"
  using assms rowObject_printable by (cases r) (auto simp: withRows_def list_all_iff)

lemma withRows_norm:
  assumes "length (forcedArrays r) = length (elements r)"
  shows "norm (withRows r name force names rows) = withRows (norm r) name (force \<or> length rows > 1) names rows"
  using assms by (cases r) (auto simp: withRows_def o_def)

section \<open>The interface: a route that looks rows up\<close>

text \<open>
  A route that employees may call: it puts one query to the database, builds a response from the rows and
  sends it. \<open>build\<close> is what the route computes, \<open>shown\<close> what it means for the rows.
\<close>

locale lookup_route =
  fixes h :: "('db, 'st) handler"
    and accepts :: "queryBase \<Rightarrow> bool"
    and SQL :: "queryBase \<Rightarrow> string"
    and named :: "queryBase \<Rightarrow> (string \<times> (fault + string)) list"
    and n :: nat
    and build :: "SQLResult \<Rightarrow> fault + responseWrapper"
    and shown :: "string list list \<Rightarrow> responseWrapper"
  assumes runs: "accepts q \<Longrightarrow> verify (req env) employee w \<Longrightarrow> getSessionID (req env) = Some m \<Longrightarrow> params (named q) = Inr vs \<Longrightarrow>
      query (api env) (SQL q) (iter env vs) (database w) = (Inr (c, res), db') \<Longrightarrow> isOK c \<Longrightarrow>
      rowCount res = Inr (Suc k) \<Longrightarrow> build res = Inr response \<Longrightarrow> toDataString False response = Inr s \<Longrightarrow>
      \<exists>w'. h env b q w = (Inr (), w') \<and> database w' = db' \<and> reply w' = reply w @ [TryEnd s]"
    and builds: "tabular n rows res \<Longrightarrow> rows \<noteq> [] \<Longrightarrow> build res = Inr (shown rows)"
    and prints: "list_all row_ok rows \<Longrightarrow> rows \<noteq> [] \<Longrightarrow> printable (shown rows)"
begin

lemma rows_answered:
  assumes "accepts q" "verify (req env) employee w" "params (named q) = Inr vs"
    and "query (api env) (SQL q) (iter env vs) (database w) = (Inr (c, res), db')" "isOK c"
    and "tabular n rows res" "rows \<noteq> []" "list_all row_ok rows"
  shows "\<exists>w' s. h env b q w = (Inr (), w') \<and> database w' = db' \<and> reply w' = reply w @ [TryEnd s] \<and>
    fromData s = Inr (Some (norm (shown rows)))"
proof -
  obtain s where s: "toDataString False (shown rows) = Inr s" "fromData s = Inr (Some (norm (shown rows)))"
    using compact.reads_back prints [OF assms(8,7)] by blast
  have "rowCount res = Inr (Suc (length rows - 1))"
    using tabular_rowCount [OF assms(6)] assms(7) by (cases rows) auto
  moreover obtain m where "getSessionID (req env) = Some m" using verify_hasSession [OF assms(2)] by blast
  ultimately show ?thesis using runs [OF assms(1,2) _ assms(3-5) _ builds [OF assms(6,7)] s(1)] s(2) by blast
qed

end

section \<open>The six routes\<close>

abbreviation listed :: "string \<Rightarrow> bool \<Rightarrow> string list \<Rightarrow> string list list \<Rightarrow> responseWrapper" where
  "listed name force names rows \<equiv> withRows emptyResponse name force names rows"

abbreviation first_row :: "string list \<Rightarrow> string list list \<Rightarrow> responseWrapper" where
  "first_row names rows \<equiv> rowObject names (hd rows)"

abbreviation supplierNames :: "string list" where "supplierNames \<equiv> [''ID'', ''Name'', ''Phone'', ''Email'']"
abbreviation groupNames :: "string list" where "groupNames \<equiv> [''ID'', ''Name'']"
abbreviation partNames :: "string list" where
  "partNames \<equiv> [''ID'', ''Name'', ''Price'', ''Quantity'', ''Supplier'', ''GroupID'']"

lemma columns_zip:
  "supplierColumns = zip supplierNames [0..<4]" "groupColumns = zip groupNames [0..<2]"
  "partColumns = zip partNames [0..<6]"
  by (simp_all add: supplierColumns_def groupColumns_def partColumns_def upt_rec)

lemma listed_builds:
  "tabular n rows res \<Longrightarrow> distinct names \<Longrightarrow> length names = n \<Longrightarrow>
   addRows res (zip names [0..<n]) name force emptyResponse = Inr (listed name force names rows)"
  by (rule addRows_rows) (simp_all add: emptyResponse_def)

lemma first_row_builds:
  "tabular n rows res \<Longrightarrow> rows \<noteq> [] \<Longrightarrow> distinct names \<Longrightarrow> length names = n \<Longrightarrow>
   addCells res 0 (zip names [0..<n]) emptyResponse = Inr (first_row names rows)"
  by (cases rows) (auto dest: addCells_object [where i = 0])

lemma listed_printable:
  "key_ok name \<Longrightarrow> list_all key_ok names \<Longrightarrow> list_all row_ok rows \<Longrightarrow> printable (listed name force names rows)"
  by (rule withRows_printable) (simp_all add: emptyResponse_def)

lemma first_row_printable:
  "list_all key_ok names \<Longrightarrow> list_all row_ok rows \<Longrightarrow> rows \<noteq> [] \<Longrightarrow> printable (first_row names rows)"
  by (rule rowObject_printable) (cases rows; simp)+

lemma sendResponse_run: "toDataString False r = Inr s \<Longrightarrow> sendResponse r w = (Inr (), w\<lparr>reply := reply w @ [TryEnd s]\<rparr>)"
  by (simp add: sendResponse_def running emit_run)

lemmas lookup_simps = running sendResponse_run bindE_eq_Inr hasElement_def getElement_def

lemmas lookup_facts = lookup_simps columns_zip listed_builds listed_printable first_row_builds first_row_printable key_ok_def

interpretation searchSuppliers: lookup_route searchSuppliers "\<lambda>q. hasElement q ''searchterm'' True" "\<lambda>q. findSuppliersSQL"
  "\<lambda>q. [('':VAL'', bindE (getElement q ''searchterm'') (\<lambda>v. Inr (generateLIKEArgument v)))]" 4
  "\<lambda>res. addRows res supplierColumns ''Suppliers'' False emptyResponse" "listed ''Suppliers'' False supplierNames"
  by unfold_locales (auto simp: searchSuppliers_def lookup_facts split: option.splits)

interpretation searchPartGroups: lookup_route searchPartGroups "\<lambda>q. hasElement q ''name'' True" "\<lambda>q. findGroupsSQL"
  "\<lambda>q. [('':NAM'', bindE (getElement q ''name'') (\<lambda>v. Inr (generateLIKEArgument v)))]" 2
  "\<lambda>res. addRows res groupColumns ''Groups'' True emptyResponse" "listed ''Groups'' True groupNames"
  by unfold_locales (auto simp: searchPartGroups_def lookup_facts split: option.splits)

interpretation searchParts: lookup_route searchParts "\<lambda>q. hasElement q ''name'' True \<or> hasElement q ''group'' True"
  "\<lambda>q. findPartsSQL (searchTerm q)" searchVals 6
  "\<lambda>res. addRows res partColumns ''Parts'' True emptyResponse" "listed ''Parts'' True partNames"
  by unfold_locales (auto simp: searchParts_def lookup_facts split: option.splits)

interpretation selectSupplier: lookup_route selectSupplier "\<lambda>q. hasElement q ''ID'' False" "\<lambda>q. supplierByIDSQL"
  "\<lambda>q. [('':ID'', getElement q ''ID'')]" 4
  "\<lambda>res. addCells res 0 supplierColumns emptyResponse" "first_row supplierNames"
  by unfold_locales (auto simp: selectSupplier_def lookup_facts split: option.splits)

interpretation selectPartGroup: lookup_route selectPartGroup "\<lambda>q. hasElement q ''ID'' False" "\<lambda>q. groupByIDSQL"
  "\<lambda>q. [('':ID'', getElement q ''ID'')]" 2
  "\<lambda>res. addCells res 0 groupColumns emptyResponse" "first_row groupNames"
  by unfold_locales (auto simp: selectPartGroup_def lookup_facts split: option.splits)

interpretation selectPart: lookup_route selectPart "\<lambda>q. hasElement q ''ID'' False" "\<lambda>q. partByIDSQL"
  "\<lambda>q. [('':ID'', getElement q ''ID'')]" 6
  "\<lambda>res. addCells res 0 partColumns emptyResponse" "first_row partNames"
  by unfold_locales (auto simp: selectPart_def lookup_facts split: option.splits)

section \<open>Properties\<close>

text \<open>The six routes by name: whether the query string is accepted, the statement with its parameters, the
  number of its columns, and the object that a client reads from the answer.\<close>

definition lookups ::
  "queryBase \<Rightarrow> (('db, 'st) handler \<times> bool \<times> string \<times> (string \<times> (fault + string)) list \<times> nat \<times> (string list list \<Rightarrow> responseWrapper)) list"
where
  "lookups q =
     [(searchSuppliers, hasElement q ''searchterm'' True, findSuppliersSQL,
         [('':VAL'', bindE (getElement q ''searchterm'') (\<lambda>v. Inr (generateLIKEArgument v)))], 4,
         \<lambda>rows. listed ''Suppliers'' (length rows > 1) supplierNames rows),
      (searchPartGroups, hasElement q ''name'' True, findGroupsSQL,
         [('':NAM'', bindE (getElement q ''name'') (\<lambda>v. Inr (generateLIKEArgument v)))], 2,
         listed ''Groups'' True groupNames),
      (searchParts, hasElement q ''name'' True \<or> hasElement q ''group'' True, findPartsSQL (searchTerm q), searchVals q, 6,
         listed ''Parts'' True partNames),
      (selectSupplier, hasElement q ''ID'' False, supplierByIDSQL, [('':ID'', getElement q ''ID'')], 4, first_row supplierNames),
      (selectPartGroup, hasElement q ''ID'' False, groupByIDSQL, [('':ID'', getElement q ''ID'')], 2, first_row groupNames),
      (selectPart, hasElement q ''ID'' False, partByIDSQL, [('':ID'', getElement q ''ID'')], 6, first_row partNames)]"

lemma listed_norm: "norm (listed name force names rows) = listed name (force \<or> length rows > 1) names rows"
  by (simp add: withRows_norm emptyResponse_def)

text \<open>C19. What is found is what is sent. For an employee, each of the six routes that look suppliers, groups and
  parts up puts its query to the database once and, when the database gives rows, answers with a text
  from which the translator's parser reads exactly these rows: for a search, one object for each row in
  the order of the rows, for a selection the object of the first row, every column under its name.
  The cells must not contain the characters that structure the format.\<close>

theorem lookups_answer_rows:
  assumes "(h, accepted, SQL, named, n, meant) \<in> set (lookups q)" and "accepted" and "verify (req env) employee w"
    and "params named = Inr vs" and "query (api env) SQL (iter env vs) (database w) = (Inr (c, res), db')" and "isOK c"
    and "tabular n rows res" and "rows \<noteq> []" and "list_all row_ok rows"
  shows "\<exists>w' s. h env b q w = (Inr (), w') \<and> database w' = db' \<and> reply w' = reply w @ [TryEnd s] \<and>
    fromData s = Inr (Some (meant rows))"
  using assms
    searchSuppliers.rows_answered [where q = q and w = w and env = env and rows = rows and b = b and res = res]
    searchPartGroups.rows_answered [where q = q and w = w and env = env and rows = rows and b = b and res = res]
    searchParts.rows_answered [where q = q and w = w and env = env and rows = rows and b = b and res = res]
    selectSupplier.rows_answered [where q = q and w = w and env = env and rows = rows and b = b and res = res]
    selectPartGroup.rows_answered [where q = q and w = w and env = env and rows = rows and b = b and res = res]
    selectPart.rows_answered [where q = q and w = w and env = env and rows = rows and b = b and res = res]
  by (auto simp: lookups_def listed_norm simp del: params.simps)

lemma group_lookup:
  "(searchPartGroups, hasElement q ''name'' True, findGroupsSQL,
     [('':NAM'', bindE (getElement q ''name'') (\<lambda>v. Inr (generateLIKEArgument v)))], 2, listed ''Groups'' True groupNames) \<in> set (lookups q)"
  by (simp add: lookups_def)

theorem lookups_answer_rows_witness:
  "\<exists>w' s. searchPartGroups (staff_env (\<lambda>_. [[''1'', ''tyres''], [''2'', ''oil'']])) Map.empty [''name'' \<mapsto> []] (staff_server employee) = (Inr (), w') \<and>
     database w' = [] \<and> reply w' = reply (staff_server employee) @ [TryEnd s] \<and> fromData s = Inr (Some (ResponseWrapper [(''Groups'', Objects
       [ResponseWrapper [(''ID'', Strings [''1'']), (''Name'', Strings [''tyres''])] [False, False],
        ResponseWrapper [(''ID'', Strings [''2'']), (''Name'', Strings [''oil''])] [False, False]])] [True]))"
proof -
  let ?rows = "[[''1'', ''tyres''], [''2'', ''oil'']]"
  let ?res = "\<lparr>colCount = 2, cells = concat ?rows, colNames = [''COLUMN'', ''COLUMN'']\<rparr>"
  let ?q = "[''name'' \<mapsto> []] :: queryBase"
  have q: "query (api (staff_env (\<lambda>_. ?rows))) findGroupsSQL (iter (staff_env (\<lambda>_. ?rows)) [('':NAM'', ''%%'')]) (database (staff_server employee))
      = (Inr (\<lparr>errorCode = SQLITE_OK\<rparr>, ?res), [])"
    by (simp add: query_scripted script_width_def isSelect_def part_texts)
  have ok: "hasElement ?q ''name'' True" "verify (req (staff_env (\<lambda>_. ?rows))) employee (staff_server employee)"
    "params [('':NAM'', bindE (getElement ?q ''name'') (\<lambda>v. Inr (generateLIKEArgument v)))] = Inr [('':NAM'', ''%%'')]"
    by (simp_all add: hasElement_def getElement_def generateLIKEArgument_def staff_facts del: append.simps)
  have rows: "isOK \<lparr>errorCode = SQLITE_OK\<rparr>" "tabular 2 ?rows ?res" "?rows \<noteq> []" "list_all row_ok ?rows"
    by (simp_all add: isOK_def tabular_def row_ok_def value_ok_def)
  have obj: "listed ''Groups'' True groupNames ?rows = ResponseWrapper [(''Groups'', Objects
       [ResponseWrapper [(''ID'', Strings [''1'']), (''Name'', Strings [''tyres''])] [False, False],
        ResponseWrapper [(''ID'', Strings [''2'']), (''Name'', Strings [''oil''])] [False, False]])] [True]"
    by (simp add: withRows_def rowObject_def rowElements_def emptyResponse_def)
  show ?thesis
    using lookups_answer_rows [OF group_lookup ok q rows, of Map.empty] unfolding obj .
qed

end
