(* ===== verification/Garage.thy ===== *)
theory Garage
  imports Listings
begin

text \<open>
  Vehicles across requests. The routes \<^verbatim>\<open>createVehicle\<close>, \<^verbatim>\<open>updateVehicle\<close> and \<^verbatim>\<open>deleteVehicle\<close>
  (\<^verbatim>\<open>Server/include/WebRoutes/Vehicle.h\<close>) change the tables \<^verbatim>\<open>VEHICLESHAREDDATA\<close> and \<^verbatim>\<open>VEHICLES\<close> of
  \<^verbatim>\<open>Server/sqlcrt.txt\<close>. \<open>garage_move\<close> is the specification: what a call can do, and for whom. The routes
  refine it; from it follow the consistency of the two tables, that a vehicle never changes its owner,
  model or year, and that the list of one's own vehicles (\<^verbatim>\<open>getLocalUserData\<close>, which joins the tables) is
  complete.
\<close>

section \<open>The tables\<close>

record vehicle =
  vehicleID :: string
  plateOf :: string
  baseOf :: string
  ownerOf :: string
  yearOf :: string
  colourOf :: string

record garage =
  models :: "(string \<times> string \<times> string) list"
  vehicles :: "vehicle list"

text \<open>
  What an \<^verbatim>\<open>UPDATE\<close> makes of a row. The values stand between double quotation marks, which SQLite takes
  for the column of that name if there is one and for a text otherwise; \<open>literal\<close> is this reading, on the
  old row.
\<close>

definition assignVehicle :: "(vehicle \<Rightarrow> string \<Rightarrow> string) \<Rightarrow> (string \<times> string) list \<Rightarrow> vehicle \<Rightarrow> vehicle" where
  "assignVehicle literal as e = e\<lparr>
     plateOf := (case map_of as ''PLATE'' of None \<Rightarrow> plateOf e | Some v \<Rightarrow> literal e v),
     colourOf := (case map_of as ''COLOUR'' of None \<Rightarrow> colourOf e | Some v \<Rightarrow> literal e v)\<rparr>"

text \<open>A model that is in the table, or is added under a new key.\<close>

definition learns :: "string \<Rightarrow> string \<Rightarrow> garage \<Rightarrow> garage \<Rightarrow> bool" where
  "learns mk md g g' \<longleftrightarrow> (if (mk, md) \<in> snd ` set (models g) then g' = g
     else \<exists>key. key \<notin> fst ` set (models g) \<and> g' = g\<lparr>models := models g @ [(key, mk, md)]\<rparr>)"

text \<open>The update statements, for assignments of the two columns that the route offers.\<close>

definition updates_vehicles ::
  "('db, 'st) env \<Rightarrow> ('db \<Rightarrow> garage) \<Rightarrow> (string \<Rightarrow> string) \<Rightarrow> (vehicle \<Rightarrow> string \<Rightarrow> string) \<Rightarrow> bool" where
  "updates_vehicles env view affinity literal \<longleftrightarrow> updates env view changeVehicleSQL [''PLATE'', ''COLOUR''] '':ID''
     (\<lambda>as i db db'. distinct (map plateOf (vehicles (view db'))) \<and>
        view db' = (view db)\<lparr>vehicles := map (\<lambda>e. if vehicleID e = affinity i then assignVehicle literal as e else e) (vehicles (view db))\<rparr>)"

text \<open>
  What SQLite documents of the statements of the three routes, for the tables as \<^verbatim>\<open>sqlcrt.txt\<close> creates
  them: \<^verbatim>\<open>INSERT OR IGNORE\<close> keeps a row that would violate \<^verbatim>\<open>UNIQUE(MAKE, MODEL)\<close> out; the base of a new
  vehicle is what the inner \<^verbatim>\<open>SELECT\<close> finds, which must not be null; plates are unique after every
  statement. The first statement may also stop after some of its rows.
\<close>

definition stores_garage ::
  "('db, 'st) env \<Rightarrow> ('db \<Rightarrow> garage) \<Rightarrow> (string \<Rightarrow> string) \<Rightarrow> (vehicle \<Rightarrow> string \<Rightarrow> string) \<Rightarrow> bool" where
  "stores_garage env view affinity literal \<longleftrightarrow>
     (\<forall>i. outcome env ownerSQL [('':ID'', i)] (\<lambda>c db res db'. view db' = view db \<and>
        (\<exists>n. cells res = take n (map ownerOf (filter (\<lambda>e. vehicleID e = affinity i) (vehicles (view db))))))) \<and>
     (\<forall>mk md. effect env view addModelSQL [('':MAK'', mk), ('':MOD'', md)]
        (\<lambda>db res db'. learns mk md (view db) (view db'))) \<and>
     (\<forall>p mk md own y col. effect env view addVehicleSQL
          [('':PLT'', p), ('':MAK'', mk), ('':MOD'', md), ('':OWN'', own), ('':YEA'', y), ('':COL'', col)]
        (\<lambda>db res db'. \<exists>key b. key \<notin> vehicleID ` set (vehicles (view db)) \<and> p \<notin> plateOf ` set (vehicles (view db)) \<and>
           (b, mk, md) \<in> set (models (view db)) \<and>
           view db' = (view db)\<lparr>vehicles := vehicles (view db) @ [\<lparr>vehicleID = key, plateOf = p, baseOf = b,
             ownerOf = affinity own, yearOf = affinity y, colourOf = col\<rparr>]\<rparr>)) \<and>
     updates_vehicles env view affinity literal \<and>
     (\<forall>i. effect env view dropVehicleSQL [('':ID'', i)]
        (\<lambda>db res db'. view db' = (view db)\<lparr>vehicles := filter (\<lambda>e. vehicleID e \<noteq> affinity i) (vehicles (view db))\<rparr>))"

section \<open>The specification\<close>

text \<open>Who calls: whether as a manager, and the number of the user.\<close>

type_synonym actor = "bool \<times> nat option"

definition actor_of :: "('db, 'st) env \<Rightarrow> 'db server \<Rightarrow> actor" where
  "actor_of env w = (verify (req env) manager w, getSessionUser (req env) w)"

definition acts_for :: "actor \<Rightarrow> string \<Rightarrow> bool" where
  "acts_for who own \<longleftrightarrow> fst who \<or> (\<exists>u. snd who = Some u \<and> from_chars 64 own = Some u)"

definition names_self :: "actor \<Rightarrow> string \<Rightarrow> bool" where
  "names_self who own \<longleftrightarrow> fst who \<or> (\<exists>u. snd who = Some u \<and> own = to_string u)"

inductive garage_move :: "(string \<Rightarrow> string) \<Rightarrow> actor \<Rightarrow> bool \<Rightarrow> garage \<Rightarrow> garage \<Rightarrow> bool" for affinity who where
  new_vehicle: "names_self who own \<Longrightarrow> learns mk md g g' \<Longrightarrow> (baseOf e, mk, md) \<in> set (models g') \<Longrightarrow> ownerOf e = affinity own \<Longrightarrow>
     vehicleID e \<notin> vehicleID ` set (vehicles g) \<Longrightarrow> plateOf e \<notin> plateOf ` set (vehicles g) \<Longrightarrow>
     garage_move affinity who True g (g'\<lparr>vehicles := vehicles g @ [e]\<rparr>)"
| model_only: "names_self who own \<Longrightarrow> learns mk md g g' \<Longrightarrow> garage_move affinity who False g g'"
| change: "e \<in> set (vehicles g) \<Longrightarrow> acts_for who (ownerOf e) \<Longrightarrow>
     vs = map (\<lambda>x. if vehicleID x = vehicleID e then assignVehicle literal as x else x) (vehicles g) \<Longrightarrow>
     distinct (map plateOf vs) \<Longrightarrow> garage_move affinity who True g (g\<lparr>vehicles := vs\<rparr>)"
| remove: "e \<in> set (vehicles g) \<Longrightarrow> acts_for who (ownerOf e) \<Longrightarrow>
     garage_move affinity who True g (g\<lparr>vehicles := filter (\<lambda>x. vehicleID x \<noteq> vehicleID e) (vehicles g)\<rparr>)"
| refused: "garage_move affinity who False g g"

text \<open>The invariant: keys, plates and models are unique, and every vehicle is of a model in the table, which
  the foreign key of the schema does not enforce.\<close>

definition garage_ok :: "garage \<Rightarrow> bool" where
  "garage_ok g \<longleftrightarrow> distinct (map vehicleID (vehicles g)) \<and> distinct (map plateOf (vehicles g)) \<and>
     distinct (map fst (models g)) \<and> distinct (map snd (models g)) \<and> (\<forall>e \<in> set (vehicles g). baseOf e \<in> fst ` set (models g))"

lemma assignVehicle_keeps [simp]:
  "vehicleID (assignVehicle literal as e) = vehicleID e" "baseOf (assignVehicle literal as e) = baseOf e"
  "ownerOf (assignVehicle literal as e) = ownerOf e" "yearOf (assignVehicle literal as e) = yearOf e"
  by (simp_all add: assignVehicle_def)

lemma learns_ok:
  assumes "learns mk md g g'"
  shows "vehicles g' = vehicles g" "garage_ok g \<Longrightarrow> garage_ok g'"
  using assms by (auto simp: learns_def garage_ok_def split: if_splits)

interpretation garage: moves "\<lambda>ok g g'. \<exists>who. garage_move affinity who ok g g'" garage_ok for affinity
proof
  show "garage_ok t" if "garage_ok s" "\<exists>who. garage_move affinity who ok s t" for s t ok
  proof -
    from that(2) obtain who where "garage_move affinity who ok s t" by blast
    then show ?thesis
    proof cases
      case (new_vehicle own mk md g' e)
      then have "baseOf e \<in> fst ` set (models g')" by (metis fst_conv image_eqI)
      with new_vehicle learns_ok [OF new_vehicle(4)] that(1) show ?thesis by (auto simp: garage_ok_def)
    next
      case (model_only own mk md)
      with learns_ok [OF model_only(3)] that(1) show ?thesis by simp
    next
      case (change e vs literal as)
      with that(1) show ?thesis by (auto simp: garage_ok_def o_def if_distrib cong: if_cong)
    next
      case (remove e)
      with that(1) show ?thesis by (auto simp: garage_ok_def distinct_map_filter)
    qed (use that(1) in simp)
  qed
qed

section \<open>The routes refine it\<close>

lemma garage_effects:
  assumes "stores_garage env view aff lit"
  shows "call_effect env view addModelSQL [('':MAK'', mk), ('':MOD'', md)]
      (\<lambda>vs db res db'. learns (projr mk) (projr md) (view db) (view db'))"
    and "call_effect env view addVehicleSQL
      [('':PLT'', p), ('':MAK'', mk), ('':MOD'', md), ('':OWN'', own), ('':YEA'', y), ('':COL'', col)]
      (\<lambda>vs db res db'. \<exists>key b. key \<notin> vehicleID ` set (vehicles (view db)) \<and> projr p \<notin> plateOf ` set (vehicles (view db)) \<and>
         (b, projr mk, projr md) \<in> set (models (view db)) \<and>
         view db' = (view db)\<lparr>vehicles := vehicles (view db) @ [\<lparr>vehicleID = key, plateOf = projr p, baseOf = b,
           ownerOf = aff (projr own), yearOf = aff (projr y), colourOf = projr col\<rparr>]\<rparr>)"
    and "call_effect env view dropVehicleSQL [('':ID'', i)]
      (\<lambda>vs db res db'. view db' = (view db)\<lparr>vehicles := filter (\<lambda>e. vehicleID e \<noteq> aff (projr i)) (vehicles (view db))\<rparr>)"
  using assms by (auto simp: call_effect_def stores_garage_def bindE_eq_Inr)

text \<open>The owner that the routes read is the one in the table.\<close>

lemma ensures_vehicleOwner:
  assumes "stores_garage env view aff lit"
    and "\<And>x. getElement form ''ID'' = Inl x \<Longrightarrow> Q (Inl x) w"
    and "\<And>x db'. view db' = view (database w) \<Longrightarrow> Q (Inl x) (w\<lparr>database := db'\<rparr>)"
    and "\<And>i e db'. getElement form ''ID'' = Inr i \<Longrightarrow> view db' = view (database w) \<Longrightarrow> e \<in> set (vehicles (view (database w))) \<Longrightarrow>
      vehicleID e = aff i \<Longrightarrow> ensures (k (ownerOf e)) (w\<lparr>database := db'\<rparr>) Q"
  shows "ensures (vehicleOwner env form k) w Q"
  unfolding vehicleOwner_def
proof (rule ensures_outcome [where R = "\<lambda>vs c db res db'. view db' = view db \<and> (\<exists>n. cells res =
    take n (map ownerOf (filter (\<lambda>e. vehicleID e = aff (snd (hd vs))) (vehicles (view db)))))"])
  show "outcome env ownerSQL vs (\<lambda>c db res db'. view db' = view db \<and> (\<exists>n. cells res =
    take n (map ownerOf (filter (\<lambda>e. vehicleID e = aff (snd (hd vs))) (vehicles (view db))))))"
    if "params [('':ID'', getElement form ''ID'')] = Inr vs" for vs
    using that assms(1) by (auto simp: stores_garage_def bindE_eq_Inr)
next
  show "Q (Inl e) w" if "params [('':ID'', getElement form ''ID'')] = Inl e" for e
    using that assms(2) by (cases "getElement form ''ID''") auto
next
  fix vs c db' and res :: SQLResult
  assume vs: "params [('':ID'', getElement form ''ID'')] = Inr vs"
    and res: "view db' = view (database w) \<and> (\<exists>n. cells res =
      take n (map ownerOf (filter (\<lambda>e. vehicleID e = aff (snd (hd vs))) (vehicles (view (database w))))))"
  from vs obtain i where i: "getElement form ''ID'' = Inr i" "vs = [('':ID'', i)]" by (auto simp: bindE_eq_Inr)
  show "ensures (case (c, res) of (status, result) \<Rightarrow> bind (liftE (cell result 0 0)) k) (w\<lparr>database := db'\<rparr>) Q"
  proof (simp, rule ensures_liftE)
    fix x assume "cell res 0 0 = Inr x"
    then have "x \<in> set (cells res)" by (auto simp: cell_def split: if_splits)
    with res i obtain e where "e \<in> set (vehicles (view (database w)))" "vehicleID e = aff i" "x = ownerOf e"
      by (auto dest!: in_set_takeD)
    with assms(4) i res show "ensures (k x) (w\<lparr>database := db'\<rparr>) Q" by blast
  qed (use assms(3) res in blast)
qed

lemma isSessionUser_names: "isSessionUser (req env) own w \<longleftrightarrow> (\<exists>u. getSessionUser (req env) w = Some u \<and> to_string u = own)"
  by (auto simp: isSessionUser_def split: option.splits)

lemma isSessionUserFromID_acts:
  "isSessionUserFromID (req env) own w \<longleftrightarrow> (\<exists>u. getSessionUser (req env) w = Some u \<and> from_chars 64 own = Some u)"
  by (auto simp: isSessionUserFromID_def split: option.splits)

lemma actor_session:
  "verify (req env) l w \<Longrightarrow> \<exists>n. getSessionID (req env) = Some n"
  "getSessionUser (req env) w = Some u \<Longrightarrow> \<exists>n. getSessionID (req env) = Some n"
  using verify_hasSession by (auto simp: getSessionUser_def split: option.splits)

lemma new_vehicle_move:
  assumes "names_self who own" "learns mk md g g'" "key \<notin> vehicleID ` set (vehicles g')" "p \<notin> plateOf ` set (vehicles g')"
    and "(b, mk, md) \<in> set (models g')"
  shows "garage_move aff who True g (g'\<lparr>vehicles := vehicles g' @ [\<lparr>vehicleID = key, plateOf = p, baseOf = b, ownerOf = aff own,
    yearOf = y, colourOf = col\<rparr>]\<rparr>)"
  using assms learns_ok(1) [OF assms(2)] by (auto intro!: garage_move.new_vehicle [where mk = mk and md = md])

lemma change_move:
  assumes "e \<in> set (vehicles g)" "vehicleID e = i" "acts_for who (ownerOf e)"
    and "distinct (map plateOf (map (\<lambda>x. if vehicleID x = i then assignVehicle lit as x else x) (vehicles g)))"
  shows "garage_move aff who True g (g\<lparr>vehicles := map (\<lambda>x. if vehicleID x = i then assignVehicle lit as x else x) (vehicles g)\<rparr>)"
  using assms by (auto intro: garage_move.change)

lemma remove_move:
  assumes "e \<in> set (vehicles g)" "vehicleID e = i" "acts_for who (ownerOf e)"
  shows "garage_move aff who True g (g\<lparr>vehicles := filter (\<lambda>x. vehicleID x \<noteq> i) (vehicles g)\<rparr>)"
  using assms by (auto intro: garage_move.remove)

lemmas actor_facts = isSessionUser_names isSessionUserFromID_acts actor_of_def names_self_def acts_for_def

lemma createVehicle_move:
  assumes "stores_garage env view aff lit"
  shows "ensures (createVehicle env b q) w (\<lambda>r w'.
    garage_move aff (actor_of env w) (succeeded w r w') (view (database w)) (view (database w')))"
  unfolding createVehicle_def
  by (intro stepping garage_effects [OF assms, THEN ensures_dbCall])
    (auto simp: succeeded_def actor_facts garage_move.refused dest: actor_session
      intro!: garage_move.model_only new_vehicle_move simp del: containsAll.simps params.simps)

lemma updateVehicle_move:
  assumes "stores_garage env view aff lit" "any_order env" "plain_form b [''plate'', ''colour'']"
  shows "ensures (updateVehicle env b q) w (\<lambda>r w'.
    garage_move aff (actor_of env w) (succeeded w r w') (view (database w)) (view (database w')))"
proof -
  have up: "updates_vehicles env view aff lit" using assms(1) by (simp add: stores_garage_def)
  show ?thesis
    unfolding updateVehicle_def generateUpdateStatement_eq bind_known
    by (intro stepping ensures_vehicleOwner [OF assms(1)] ensures_update [OF up [unfolded updates_vehicles_def] assms(2)])
      (use assms(3) in \<open>auto simp: succeeded_def actor_facts garage_move.refused dest: actor_session intro!: change_move simp del: params.simps\<close>)
qed

lemma deleteVehicle_move:
  assumes "stores_garage env view aff lit"
  shows "ensures (deleteVehicle env b q) w (\<lambda>r w'.
    garage_move aff (actor_of env w) (succeeded w r w') (view (database w)) (view (database w')))"
  unfolding deleteVehicle_def
  by (intro stepping ensures_vehicleOwner [OF assms] garage_effects(3) [OF assms, THEN ensures_dbCall])
    (auto simp: succeeded_def actor_facts garage_move.refused dest: actor_session
      intro!: remove_move simp del: params.simps)

section \<open>Histories\<close>

text \<open>A call of one of the three routes by any client. The update route, which puts the plate and the colour into the text of
  its statement, is called with values that contain no quotation marks.\<close>

inductive garage_call :: "('db, 'st) env \<Rightarrow> bool \<Rightarrow> 'db \<Rightarrow> 'db \<Rightarrow> bool" for env where
  "createVehicle (env\<lparr>req := rq\<rparr>) b q w = (r, w') \<Longrightarrow> garage_call env (succeeded w r w') (database w) (database w')"
| "updateVehicle (env\<lparr>req := rq\<rparr>) b q w = (r, w') \<Longrightarrow> plain_form b [''plate'', ''colour''] \<Longrightarrow>
     garage_call env (succeeded w r w') (database w) (database w')"
| "deleteVehicle (env\<lparr>req := rq\<rparr>) b q w = (r, w') \<Longrightarrow> garage_call env (succeeded w r w') (database w) (database w')"

definition garage_event :: "('db, 'st) env \<Rightarrow> ('db \<Rightarrow> garage) \<Rightarrow> bool \<Rightarrow> 'db \<Rightarrow> 'db \<Rightarrow> bool" where
  "garage_event env view ok db db' \<longleftrightarrow> garage_call env ok db db' \<or> view db' = view db"

lemma stores_garage_req [simp]: "stores_garage (env\<lparr>req := rq\<rparr>) view aff lit = stores_garage env view aff lit"
  by (simp add: stores_garage_def updates_vehicles_def)

lemma garage_call_move:
  assumes "stores_garage env view aff lit" "any_order env" and "garage_call env ok db db'"
  shows "\<exists>who. garage_move aff who ok (view db) (view db')"
proof -
  have st: "stores_garage (env\<lparr>req := rq\<rparr>) view aff lit" "any_order (env\<lparr>req := rq\<rparr>)" for rq using assms(1,2) by simp_all
  show ?thesis
    using assms(3)
  proof cases
    case 1
    from ensuresD [OF createVehicle_move [OF st(1)] 1(4)] show ?thesis unfolding 1 by blast
  next
    case 2
    from ensuresD [OF updateVehicle_move [OF st 2(5)] 2(4)] show ?thesis unfolding 2 by blast
  next
    case 3
    from ensuresD [OF deleteVehicle_move [OF st(1)] 3(4)] show ?thesis unfolding 3 by blast
  qed
qed

lemma garage_event_move:
  assumes "stores_garage env view aff lit" "any_order env" and "garage_event env view ok db db'"
  shows "(\<exists>who. garage_move aff who ok (view db) (view db')) \<or> view db' = view db"
  using assms garage_call_move by (auto simp: garage_event_def)

text \<open>What of a vehicle never changes.\<close>

definition identity :: "vehicle \<Rightarrow> string \<times> string \<times> string \<times> string" where
  "identity e = (vehicleID e, baseOf e, ownerOf e, yearOf e)"

lemma identity_assign [simp]: "identity (assignVehicle lit as e) = identity e"
  by (simp add: identity_def)

lemma garage_move_identity:
  assumes "garage_move aff who ok g g'" "identity e \<in> identity ` set (vehicles g)" "vehicleID e \<in> vehicleID ` set (vehicles g')"
  shows "identity e \<in> identity ` set (vehicles g')"
  using assms(1)
proof cases
  case (change e' vs literal as)
  have "map identity vs = map identity (vehicles g)" unfolding change(5) by simp
  then have "identity ` set vs = identity ` set (vehicles g)" by (metis set_map)
  with assms(2) change(2) show ?thesis by simp
next
  case (remove e')
  from assms(2) obtain x where x: "x \<in> set (vehicles g)" "identity x = identity e" by (auto simp: image_iff)
  then have "vehicleID x \<noteq> vehicleID e'" using assms(3) remove(2) by (auto simp: identity_def)
  with x remove(2) show ?thesis by (auto simp: image_iff intro!: bexI [of _ x])
qed (use assms(2) learns_ok(1) in auto)

section \<open>One's own vehicles\<close>

text \<open>The rows of the join by which \<^verbatim>\<open>getLocalUserData\<close> lists the vehicles of a user, in any order.\<close>

definition joined :: "garage \<Rightarrow> string \<Rightarrow> string list list" where
  "joined g own = concat (map (\<lambda>e. concat (map (\<lambda>(key, mk, md). if ownerOf e = own \<and> baseOf e = key
     then [[vehicleID e, plateOf e, mk, md, yearOf e, colourOf e]] else []) (models g))) (vehicles g))"

definition lists_vehicles :: "('db, 'st) env \<Rightarrow> ('db \<Rightarrow> garage) \<Rightarrow> (string \<Rightarrow> string) \<Rightarrow> bool" where
  "lists_vehicles env view affinity \<longleftrightarrow> (\<forall>u. outcome env ownVehiclesSQL [('':USR'', u)] (\<lambda>c db res db'. view db' = view db \<and>
     (isOK c \<longrightarrow> (\<exists>rows. tabular 6 rows res \<and> mset rows = mset (joined (view db) (affinity u))))))"

text \<open>The row of a vehicle, with the make and model of its base.\<close>

definition vehicleRow :: "garage \<Rightarrow> vehicle \<Rightarrow> string list" where
  "vehicleRow g e = (case the (map_of (models g) (baseOf e)) of (mk, md) \<Rightarrow>
     [vehicleID e, plateOf e, mk, md, yearOf e, colourOf e])"

definition ownVehicles :: "garage \<Rightarrow> string \<Rightarrow> vehicle list" where
  "ownVehicles g own = filter (\<lambda>e. ownerOf e = own) (vehicles g)"

lemma select_unique:
  "distinct (map fst xs) \<Longrightarrow> map_of xs k = Some v \<Longrightarrow>
   concat (map (\<lambda>(key, x, y). if k = key then [f x y] else []) xs) = [f (fst v) (snd v)]"
proof (induction xs)
  case (Cons a xs)
  obtain key x y where a: "a = (key, x, y)" by (cases a)
  have "concat (map (\<lambda>(key', x, y). if key = key' then [f x y] else []) xs) = []"
    using Cons.prems(1) by (auto simp: a image_iff)
  with Cons show ?case by (auto simp: a split: if_splits)
qed simp

lemma concat_if: "concat (map (\<lambda>x. if P x then [f x] else []) xs) = map f (filter P xs)"
  by (induction xs) simp_all

text \<open>Because every vehicle is of exactly one model, the join neither loses nor repeats a vehicle.\<close>

lemma joined_complete:
  assumes "garage_ok g"
  shows "joined g own = map (vehicleRow g) (ownVehicles g own)"
proof -
  have "concat (map (\<lambda>(key, mk, md). if ownerOf e = own \<and> baseOf e = key then [[vehicleID e, plateOf e, mk, md, yearOf e, colourOf e]]
      else []) (models g)) = (if ownerOf e = own then [vehicleRow g e] else [])" if e: "e \<in> set (vehicles g)" for e
  proof -
    from e assms have "baseOf e \<in> fst ` set (models g)" by (simp add: garage_ok_def)
    then obtain v where v: "map_of (models g) (baseOf e) = Some v"
      by (metis domD dom_map_of_conv_image_fst)
    with select_unique [OF _ v, of "\<lambda>mk md. [vehicleID e, plateOf e, mk, md, yearOf e, colourOf e]"] assms show ?thesis
      by (simp add: vehicleRow_def garage_ok_def split_beta)
  qed
  then have "joined g own = concat (map (\<lambda>e. if ownerOf e = own then [vehicleRow g e] else []) (vehicles g))"
    unfolding joined_def by (intro arg_cong [of _ _ concat] map_cong) simp_all
  also have "\<dots> = map (vehicleRow g) (ownVehicles g own)"
    unfolding ownVehicles_def by (rule concat_if)
  finally show ?thesis .
qed

abbreviation accountNames :: "string list" where "accountNames \<equiv> [''ID'', ''Username'', ''Permissions'']"
abbreviation vehicleNames :: "string list" where "vehicleNames \<equiv> [''ID'', ''Plate'', ''Make'', ''Model'', ''Year'', ''Colour'']"

abbreviation profile :: "string list \<Rightarrow> string list list \<Rightarrow> responseWrapper" where
  "profile account rows \<equiv> withRows (rowObject accountNames account) ''Vehicles'' True vehicleNames rows"

lemma profile_columns:
  "[(''ID'', 0), (''Username'', 1), (''Permissions'', 2)] = zip accountNames [0..<3]" "vehicleColumns = zip vehicleNames [0..<6]"
  by (simp_all add: vehicleColumns_def upt_rec)

lemma rowObject_elements: "elements (rowObject names row) = rowElements names row" "length (forcedArrays (rowObject names row)) = length (elements (rowObject names row))"
  by (simp_all add: rowObject_def)

lemma profile_built:
  assumes "tabular 3 (account # others) res1" "tabular 6 rows res2"
  shows "addCells res1 0 [(''ID'', 0), (''Username'', 1), (''Permissions'', 2)] emptyResponse = Inr (rowObject accountNames account)"
    "addRows res2 vehicleColumns ''Vehicles'' True (rowObject accountNames account) = Inr (profile account rows)"
proof -
  show "addCells res1 0 [(''ID'', 0), (''Username'', 1), (''Permissions'', 2)] emptyResponse = Inr (rowObject accountNames account)"
    unfolding profile_columns using addCells_object [OF assms(1), of 0 accountNames] by simp
  show "addRows res2 vehicleColumns ''Vehicles'' True (rowObject accountNames account) = Inr (profile account rows)"
    unfolding profile_columns
    by (rule addRows_rows [OF assms(2)]) (auto simp: rowObject_elements dest!: rowElements_keys)
qed

lemma profile_text:
  assumes "row_ok account" "list_all row_ok rows"
  shows "\<exists>s. toDataString False (profile account rows) = Inr s \<and> fromData s = Inr (Some (profile account rows))"
proof -
  have "printable (profile account rows)"
    by (intro withRows_printable rowObject_printable assms) (simp_all add: key_ok_def)
  then show ?thesis
    using compact.reads_back [of "profile account rows"] rowObject_elements(2) by (simp add: withRows_norm)
qed

lemma getLocalUserData_run:
  assumes u: "getSessionUser (req env) w = Some u"
    and q1: "query (api env) ownAccountSQL (iter env [('':USR'', to_string u)]) (database w) = (Inr (c1, res1), db1)" "isOK c1"
    and q2: "query (api env) ownVehiclesSQL (iter env [('':USR'', to_string u)]) db1 = (Inr (c2, res2), db2)" "isOK c2"
    and rows: "tabular 3 (account # others) res1" "tabular 6 rows res2" and ok: "row_ok account" "list_all row_ok rows"
  shows "\<exists>w' s. getLocalUserData env b q w = (Inr (), w') \<and> database w' = db2 \<and> reply w' = reply w @ [TryEnd s] \<and>
    fromData s = Inr (Some (profile account rows))"
proof -
  obtain s where s: "toDataString False (profile account rows) = Inr s" "fromData s = Inr (Some (profile account rows))"
    using profile_text [OF ok] by blast
  obtain m where m: "getSessionID (req env) = Some m" using actor_session(2) [OF u] by blast
  have name: "cell res1 0 1 = Inr (account ! 1)" using tabular_cell [OF rows(1), of 0 1] by simp
  show ?thesis
    using u q1 q2 s m
    by (simp add: getLocalUserData_def running profile_built [OF rows, simplified] name [simplified] sendResponse_run)
qed

section \<open>A connection with these tables\<close>

text \<open>The state is the two tables. The assignments of an update are read from its text.\<close>

abbreviation vehicleUpdates :: "string \<Rightarrow> (string \<times> string) list" where
  "vehicleUpdates \<equiv> decode [''PLATE'', ''COLOUR'']"

lemma vehicleUpdates_decoded:
  assumes "as \<noteq> []" "fst ` set as \<subseteq> {''PLATE'', ''COLOUR''}" "\<forall>v \<in> snd ` set as. plain v"
  shows "vehicleUpdates (changeVehicleSQL (commas (map assignment_text as))) = as"
  unfolding changeVehicleSQL_def append_assoc [symmetric]
  unfolding append_assoc [of _ "commas _"]
  by (rule decode_assignments) (use assms in \<open>auto simp: columnBefore_def\<close>)

text \<open>A quoted text that names a column stands for its value.\<close>

definition vehicleLiteral :: "vehicle \<Rightarrow> string \<Rightarrow> string" where
  "vehicleLiteral e v = (if v = ''PLATE'' then plateOf e else if v = ''COLOUR'' then colourOf e else if v = ''BASE'' then baseOf e
     else if v = ''OWNER'' then ownerOf e else if v = ''YEAR'' then yearOf e else if v = ''ID'' then vehicleID e else v)"

definition garage_run :: "string \<Rightarrow> string list \<Rightarrow> garage \<Rightarrow> int \<times> string list list \<times> garage" where
  "garage_run SQL vals g = (let i = integer_affinity (vals ! 0);
       known = filter (\<lambda>m. snd m = (vals ! 1, vals ! 2)) (models g);
       vkey = to_string (Suc (length (vehicles g))); mkey = to_string (Suc (length (models g)))
     in if SQL = ownerSQL then (SQLITE_DONE, map (\<lambda>e. [ownerOf e]) (filter (\<lambda>e. vehicleID e = i) (vehicles g)), g)
        else if SQL = addModelSQL then
          (if (vals ! 0, vals ! 1) \<in> snd ` set (models g) then (SQLITE_DONE, [], g) else if mkey \<in> fst ` set (models g) then (19, [], g)
           else (SQLITE_DONE, [], g\<lparr>models := models g @ [(mkey, vals ! 0, vals ! 1)]\<rparr>))
        else if SQL = addVehicleSQL then
          (if known = [] \<or> vkey \<in> vehicleID ` set (vehicles g) \<or> vals ! 0 \<in> plateOf ` set (vehicles g) then (19, [], g)
           else (SQLITE_DONE, [], g\<lparr>vehicles := vehicles g @ [\<lparr>vehicleID = vkey, plateOf = vals ! 0, baseOf = fst (hd known),
             ownerOf = integer_affinity (vals ! 3), yearOf = integer_affinity (vals ! 4), colourOf = vals ! 5\<rparr>]\<rparr>))
        else if SQL = dropVehicleSQL then (SQLITE_DONE, [], g\<lparr>vehicles := filter (\<lambda>e. vehicleID e \<noteq> i) (vehicles g)\<rparr>)
        else if SQL = ownVehiclesSQL then (SQLITE_DONE, joined g i, g)
        else if SQL = ownAccountSQL then (SQLITE_DONE, [[i, ''bob'', ''1'']], g)
        else if take 6 SQL = ''UPDATE'' then
          (let vs = map (\<lambda>e. if vehicleID e = i then assignVehicle vehicleLiteral (vehicleUpdates SQL) e else e) (vehicles g)
           in if distinct (map plateOf vs) then (SQLITE_DONE, [], g\<lparr>vehicles := vs\<rparr>) else (19, [], g))
        else (SQLITE_DONE, [], g))"

definition garage_width :: "string \<Rightarrow> nat" where
  "garage_width SQL = (if SQL = ownVehiclesSQL then 6 else if SQL = ownAccountSQL then 3 else 1)"

abbreviation garage_env :: "(garage, table_stmt) env" where
  "garage_env \<equiv> wide_env garage_run garage_width"

lemma garage_texts_distinct:
  "distinct [ownerSQL, addModelSQL, addVehicleSQL, dropVehicleSQL, ownVehiclesSQL, ownAccountSQL]"
  by (simp add: vehicle_texts user_texts)

lemmas garage_text_neq = garage_texts_distinct [simplified]
  garage_texts_distinct [THEN distinct_rev [THEN iffD2], simplified]

lemma garage_text_less [simplified, simp]:
  "length ownerSQL < 2 ^ 31" "length addModelSQL < 2 ^ 31" "length addVehicleSQL < 2 ^ 31" "length dropVehicleSQL < 2 ^ 31"
  "length ownVehiclesSQL < 2 ^ 31" "length ownAccountSQL < 2 ^ 31"
  by (simp_all add: vehicle_texts user_texts)

lemma changeVehicle_neq:
  "changeVehicleSQL s \<noteq> ownerSQL" "changeVehicleSQL s \<noteq> addModelSQL" "changeVehicleSQL s \<noteq> addVehicleSQL"
  "changeVehicleSQL s \<noteq> dropVehicleSQL" "changeVehicleSQL s \<noteq> ownVehiclesSQL" "changeVehicleSQL s \<noteq> ownAccountSQL"
  "take 6 (changeVehicleSQL s) = ''UPDATE''"
  by (simp_all add: vehicle_texts user_texts)

lemma garage_run_columns: "columns (garage_width SQL) (garage_run SQL vals g)"
  by (auto simp: columns_def garage_width_def garage_run_def Let_def sqlite_codes list_all_iff joined_def garage_text_neq
      split: if_splits)

lemma garage_run_insert:
  assumes "filter (\<lambda>m. snd m = (mk, md)) (models g) \<noteq> []"
  shows "(fst (hd (filter (\<lambda>m. snd m = (mk, md)) (models g))), mk, md) \<in> set (models g)"
proof -
  from assms have "hd (filter (\<lambda>m. snd m = (mk, md)) (models g)) \<in> {m \<in> set (models g). snd m = (mk, md)}"
    using hd_in_set [OF assms] by simp
  then show ?thesis by (metis (mono_tags, lifting) mem_Collect_eq prod.collapse)
qed

lemma garage_updates: "updates_vehicles garage_env (\<lambda>g. g) integer_affinity vehicleLiteral"
  unfolding updates_vehicles_def
proof (rule wide_env_updates)
  show "QUOTE \<notin> set (''UPDATE '' @ tableNames VEHICLES @ '' SET '') \<and> QUOTE \<notin> set '' WHERE ID = :ID'' \<and>
      changeVehicleSQL s = (''UPDATE '' @ tableNames VEHICLES @ '' SET '') @ s @ '' WHERE ID = :ID''" for s
    by (simp add: changeVehicleSQL_def)
  show "columnBefore [''PLATE'', ''COLOUR''] (s @ c @ '' = '') = c \<and> QUOTE \<notin> set c" if "c \<in> set [''PLATE'', ''COLOUR'']" for c s
    using that by (intro conjI column_found) auto
  show "columns (garage_width (changeVehicleSQL s)) (garage_run (changeVehicleSQL s) vals db)" for s vals db
    by (rule garage_run_columns)
qed (auto simp: garage_run_def changeVehicle_neq sqlite_codes Let_def split: if_splits)

lemma garage_run_stores: "stores_garage garage_env (\<lambda>g. g) integer_affinity vehicleLiteral"
  unfolding stores_garage_def
proof (intro conjI allI garage_updates)
  show "outcome garage_env ownerSQL [('':ID'', i)] (\<lambda>c g res g'. g' = g \<and>
      (\<exists>n. cells res = take n (map ownerOf (filter (\<lambda>e. vehicleID e = integer_affinity i) (vehicles g)))))" for i
    by (intro wide_env_outcome garage_run_columns)
      (auto simp: garage_run_def Let_def concat_singletons intro: exI [of _ "length _"] take_all [symmetric])
  show "effect garage_env (\<lambda>g. g) addVehicleSQL
      [('':PLT'', p), ('':MAK'', mk), ('':MOD'', md), ('':OWN'', own), ('':YEA'', y), ('':COL'', col)]
      (\<lambda>g res g'. \<exists>key b. key \<notin> vehicleID ` set (vehicles g) \<and> p \<notin> plateOf ` set (vehicles g) \<and>
         (b, mk, md) \<in> set (models g) \<and> g' = g\<lparr>vehicles := vehicles g @ [\<lparr>vehicleID = key, plateOf = p, baseOf = b,
           ownerOf = integer_affinity own, yearOf = integer_affinity y, colourOf = col\<rparr>]\<rparr>)" for p mk md own y col
    by (intro wide_env_effect garage_run_columns)
      (auto simp: garage_run_def garage_text_neq sqlite_codes Let_def intro: garage_run_insert)
qed (intro wide_env_effect garage_run_columns;
    auto simp: garage_run_def garage_text_neq sqlite_codes Let_def learns_def)+

lemma garage_run_lists: "lists_vehicles garage_env (\<lambda>g. g) integer_affinity"
  unfolding lists_vehicles_def
proof
  show "outcome garage_env ownVehiclesSQL [('':USR'', u)] (\<lambda>c g res g'. g' = g \<and>
      (isOK c \<longrightarrow> (\<exists>rows. tabular 6 rows res \<and> mset rows = mset (joined g (integer_affinity u)))))" for u
    by (intro wide_env_outcome garage_run_columns)
      (auto simp: garage_run_def garage_text_neq garage_width_def tabular_def Let_def joined_def list_all_iff
        intro!: exI [of _ "joined _ _"])
qed

lemma garage_any_order: "any_order garage_env"
  by (simp add: any_order_def wide_env_simps)

definition one_vehicle :: garage where
  "one_vehicle = \<lparr>models = [(''1'', ''Ford'', ''Ka'')], vehicles = [\<lparr>vehicleID = ''1'', plateOf = ''AB1'', baseOf = ''1'', ownerOf = ''4'',
     yearOf = ''2001'', colourOf = ''red''\<rparr>]\<rparr>"

lemma one_vehicle_ok: "garage_ok one_vehicle"
  by (simp add: garage_ok_def one_vehicle_def)

lemmas garage_sample = sampling wide_env_simps wide_env_query garage_run_columns garage_run_def garage_text_neq one_vehicle_def

lemma sample_decode: "vehicleUpdates (changeVehicleSQL (assignment_text (''COLOUR'', ''blue''))) = [(''COLOUR'', ''blue'')]"
  using vehicleUpdates_decoded [of "[(''COLOUR'', ''blue'')]"] by (simp add: plain_def)

lemma sample_text_less: "length (changeVehicleSQL (assignment_text (''COLOUR'', ''blue''))) < 2147483648"
  by (simp add: changeVehicleSQL_def assignment_text_def)

lemma sample_repaint:
  "\<exists>w'. updateVehicle garage_env [''ID'' \<mapsto> ''1'', ''colour'' \<mapsto> ''blue''] Map.empty (manager_server one_vehicle) = (Inr (), w') \<and>
     vehicles (database w') = [\<lparr>vehicleID = ''1'', plateOf = ''AB1'', baseOf = ''1'', ownerOf = ''4'', yearOf = ''2001'', colourOf = ''blue''\<rparr>] \<and>
     reply w' = [End []]"
  by (simp add: updateVehicle_def vehicleOwner_def generateUpdateStatement_eq assignments_def garage_sample cell_def
      isSessionUserFromID_def sample_numbers changeVehicle_neq sample_decode sample_text_less assignVehicle_def vehicleLiteral_def Let_def
      garage_width_def)

lemma sample_register:
  "\<exists>w'. createVehicle garage_env [''plate'' \<mapsto> ''CD2'', ''make'' \<mapsto> ''Fiat'', ''model'' \<mapsto> ''Uno'', ''owner'' \<mapsto> ''4'', ''year'' \<mapsto> ''1'', ''colour'' \<mapsto> ''blue'']
      Map.empty (manager_server one_vehicle) = (Inr (), w') \<and>
     database w' = one_vehicle\<lparr>models := models one_vehicle @ [(''2'', ''Fiat'', ''Uno'')], vehicles := vehicles one_vehicle @
       [\<lparr>vehicleID = ''2'', plateOf = ''CD2'', baseOf = ''2'', ownerOf = ''4'', yearOf = ''1'', colourOf = ''blue''\<rparr>]\<rparr> \<and>
     reply w' = [End []]"
  by (simp add: createVehicle_def garage_sample isSessionUser_def sample_numbers Let_def integer_affinity_def
      small_numbers(2) [unfolded numeral_2_eq_2])

section \<open>Properties\<close>

lemma own_vehicles_sent:
  assumes "lists_vehicles env view affinity" and "garage_ok (view db1)" and "getSessionUser (req env) w = Some u"
    and "query (api env) ownAccountSQL (iter env [('':USR'', to_string u)]) (database w) = (Inr (c1, res1), db1)" "isOK c1"
    and "tabular 3 (account # others) res1" "row_ok account"
    and "query (api env) ownVehiclesSQL (iter env [('':USR'', to_string u)]) db1 = (Inr (c2, res2), db2)" "isOK c2"
    and "list_all row_ok (map (vehicleRow (view db1)) (ownVehicles (view db1) (affinity (to_string u))))"
  shows "\<exists>w' s rows. getLocalUserData env b q w = (Inr (), w') \<and> reply w' = reply w @ [TryEnd s] \<and>
    fromData s = Inr (Some (profile account rows)) \<and>
    mset rows = mset (map (vehicleRow (view db1)) (ownVehicles (view db1) (affinity (to_string u))))"
proof -
  from assms(1,8,9) obtain rows where rows: "tabular 6 rows res2" "mset rows = mset (joined (view db1) (affinity (to_string u)))"
    unfolding lists_vehicles_def outcome_def by (metis Pair_inject sum.inject(2))
  then have m: "mset rows = mset (map (vehicleRow (view db1)) (ownVehicles (view db1) (affinity (to_string u))))"
    by (simp add: joined_complete [OF assms(2)])
  then have "list_all row_ok rows"
    using assms(10) mset_eq_setD [OF m] by (simp add: list_all_iff)
  from getLocalUserData_run [OF assms(3-5,8,9,6) rows(1) assms(7) this] m show ?thesis by blast
qed

lemma createVehicle_registers:
  assumes "stores_garage env view aff lit" "b ''owner'' = Some own" "b ''plate'' = Some p" "b ''make'' = Some mk" "b ''model'' = Some md"
    "b ''year'' = Some y" "b ''colour'' = Some col"
  shows "ensures (createVehicle env b q) w (\<lambda>r w'. succeeded w r w' \<longrightarrow> (\<exists>g key base. learns mk md (view (database w)) g \<and>
    (base, mk, md) \<in> set (models g) \<and> view (database w') = g\<lparr>vehicles := vehicles g @ [\<lparr>vehicleID = key, plateOf = p, baseOf = base,
      ownerOf = aff own, yearOf = aff y, colourOf = col\<rparr>]\<rparr>))"
  unfolding createVehicle_def
  by (intro stepping garage_effects [OF assms(1), THEN ensures_dbCall])
    (auto simp: succeeded_def actor_facts getElement_def assms(2-) dest: actor_session simp del: containsAll.simps)

text \<open>C5. The three routes that change vehicles refine the specification. Whoever calls, with whatever form, and
  whichever statement fails, a call makes one move, marked with whether the client is told of a success:
  a new vehicle of a model in the table, for oneself or by a manager; a new plate or colour, or the
  removal, of an existing vehicle by its owner or by a manager; or nothing but a new model. For the
  update route the plate and the colour in the form contain no quotation marks.\<close>

theorem vehicle_routes_refine:
  assumes "stores_garage env view affinity literal" and "any_order env" and "h = updateVehicle \<longrightarrow> plain_form b [''plate'', ''colour'']"
    and "h \<in> {createVehicle, updateVehicle, deleteVehicle}" and "h env b q w = (r, w')"
  shows "garage_move affinity (actor_of env w) (succeeded w r w') (view (database w)) (view (database w'))"
proof -
  have "ensures (h env b q) w (\<lambda>r w'. garage_move affinity (actor_of env w) (succeeded w r w') (view (database w)) (view (database w')))"
    using assms(3,4) createVehicle_move [OF assms(1)] updateVehicle_move [OF assms(1,2)] deleteVehicle_move [OF assms(1)] by auto
  then show ?thesis using assms(5) by (rule ensuresD)
qed

theorem vehicle_routes_refine_witness:
  "\<exists>w'. updateVehicle garage_env [''ID'' \<mapsto> ''1'', ''colour'' \<mapsto> ''blue''] Map.empty (manager_server one_vehicle) = (Inr (), w') \<and>
     garage_move integer_affinity (actor_of garage_env (manager_server one_vehicle)) True one_vehicle (database w')"
proof -
  obtain w' where w': "updateVehicle garage_env [''ID'' \<mapsto> ''1'', ''colour'' \<mapsto> ''blue''] Map.empty (manager_server one_vehicle) = (Inr (), w')"
    "reply w' = [End []]" using sample_repaint by blast
  have "plain_form [''ID'' \<mapsto> ''1'', ''colour'' \<mapsto> ''blue''] [''plate'', ''colour'']" by (simp add: plain_form_def plain_def)
  from vehicle_routes_refine [where h = updateVehicle, OF garage_run_stores garage_any_order _ _ w'(1)] this w' show ?thesis
    by (auto simp: succeeded_def manager_server_def)
qed

text \<open>C17. A vehicle keeps its owner, its model and its year, as the comments of the update route and its page
  promise, as long as no form breaks out of its quotation marks: in every history of calls of the three routes, in any
  order, by any clients and with any failures, in which the plates and colours sent to the update route
  contain no quotation marks, interleaved with anything that leaves the two tables alone, as long as there is a
  vehicle with that number. (A colour such as \<^verbatim>\<open>red", OWNER = "5\<close> would become part of the statement and change the
  owner.)\<close>

theorem vehicle_identity_kept:
  assumes "stores_garage env view affinity literal" and "any_order env" and "e \<in> set (vehicles (view db))"
    and "(\<lambda>db db'. (\<exists>ok. garage_event env view ok db db') \<and> vehicleID e \<in> vehicleID ` set (vehicles (view db')))\<^sup>*\<^sup>* db db'"
  shows "\<exists>e' \<in> set (vehicles (view db')). vehicleID e' = vehicleID e \<and> baseOf e' = baseOf e \<and> ownerOf e' = ownerOf e \<and> yearOf e' = yearOf e"
proof -
  from assms(4) have "identity e \<in> identity ` set (vehicles (view db'))"
  proof induction
    case (step y z)
    then obtain ok where "garage_event env view ok y z" by blast
    from garage_event_move [OF assms(1,2) this] show ?case
    proof
      assume "\<exists>who. garage_move affinity who ok (view y) (view z)"
      then show ?thesis using garage_move_identity step by blast
    qed (use step in simp)
  qed (use assms(3) in simp)
  then show ?thesis by (auto simp: identity_def)
qed

theorem vehicle_identity_kept_witness:
  "\<exists>g. (\<lambda>g g'. (\<exists>ok. garage_event garage_env (\<lambda>g. g) ok g g') \<and> ''1'' \<in> vehicleID ` set (vehicles g'))\<^sup>*\<^sup>* one_vehicle g \<and>
     colourOf (hd (vehicles g)) = ''blue'' \<and> (\<exists>e \<in> set (vehicles g). vehicleID e = ''1'' \<and> ownerOf e = ''4'')"
proof -
  obtain w' where w': "updateVehicle garage_env [''ID'' \<mapsto> ''1'', ''colour'' \<mapsto> ''blue''] Map.empty (manager_server one_vehicle) = (Inr (), w')"
    "vehicles (database w') = [\<lparr>vehicleID = ''1'', plateOf = ''AB1'', baseOf = ''1'', ownerOf = ''4'', yearOf = ''2001'', colourOf = ''blue''\<rparr>]"
    using sample_repaint by blast
  have "plain_form [''ID'' \<mapsto> ''1'', ''colour'' \<mapsto> ''blue''] [''plate'', ''colour'']" by (simp add: plain_form_def plain_def)
  then have "\<exists>ok. garage_event garage_env (\<lambda>g. g) ok one_vehicle (database w')"
    using garage_call.intros(2) [where env = garage_env and rq = manager_request, unfolded wide_env_simps, OF w'(1)]
    by (auto simp: garage_event_def manager_server_def)
  then have h: "(\<lambda>g g'. (\<exists>ok. garage_event garage_env (\<lambda>g. g) ok g g') \<and> ''1'' \<in> vehicleID ` set (vehicles g'))\<^sup>*\<^sup>* one_vehicle (database w')"
    using w'(2) by (intro r_into_rtranclp) simp
  have "hd (vehicles one_vehicle) \<in> set (vehicles one_vehicle)" "vehicleID (hd (vehicles one_vehicle)) = ''1''" "ownerOf (hd (vehicles one_vehicle)) = ''4''"
    by (simp_all add: one_vehicle_def)
  with vehicle_identity_kept [OF garage_run_stores garage_any_order, where e = "hd (vehicles one_vehicle)"] h w'(2) show ?thesis
    by (intro exI [of _ "database w'"]) force
qed

text \<open>The list of one's own vehicles is complete. When the tables are consistent, the answer of the route for
  one's own data reads back as the account and, under its name, one object for each vehicle whose owner
  is the user of the session, and no other, with the make and model of its base.\<close>

theorem own_vehicles_listed:
  assumes "lists_vehicles env view affinity" and "garage_ok (view db1)" and "getSessionUser (req env) w = Some u"
    and "query (api env) ownAccountSQL (iter env [('':USR'', to_string u)]) (database w) = (Inr (c1, res1), db1)" "isOK c1"
    and "tabular 3 (account # others) res1" "row_ok account"
    and "query (api env) ownVehiclesSQL (iter env [('':USR'', to_string u)]) db1 = (Inr (c2, res2), db2)" "isOK c2"
    and "list_all row_ok (map (vehicleRow (view db1)) (ownVehicles (view db1) (affinity (to_string u))))"
  shows "\<exists>w' s rows. getLocalUserData env b q w = (Inr (), w') \<and> reply w' = reply w @ [TryEnd s] \<and>
    fromData s = Inr (Some (withRows (rowObject [''ID'', ''Username'', ''Permissions''] account) ''Vehicles'' True
      [''ID'', ''Plate'', ''Make'', ''Model'', ''Year'', ''Colour''] rows)) \<and>
    mset rows = mset (map (vehicleRow (view db1)) (ownVehicles (view db1) (affinity (to_string u))))"
  by (rule own_vehicles_sent [OF assms])

lemmas garage_query = wide_env_query [where run = garage_run and width = garage_width, OF _ garage_run_columns]

lemma affinity_4: "integer_affinity ''4'' = ''4''"
  by (simp add: integer_affinity_def sample_numbers small_numbers)

lemma sample_account:
  "query (api garage_env) ownAccountSQL (iter garage_env [('':USR'', to_string 4)]) (database (manager_server g))
     = (Inr (\<lparr>errorCode = SQLITE_OK\<rparr>, \<lparr>colCount = 3, cells = [''4'', ''bob'', ''1''], colNames = replicate 3 ''COLUMN''\<rparr>), g)"
  "query (api garage_env) ownVehiclesSQL (iter garage_env [('':USR'', to_string 4)]) g
     = (Inr (\<lparr>errorCode = SQLITE_OK\<rparr>, \<lparr>colCount = 6, cells = concat (joined g ''4''), colNames = replicate 6 ''COLUMN''\<rparr>), g)"
  by (simp_all add: wide_env_simps garage_query garage_run_def garage_text_neq garage_width_def sqlite_codes
      manager_server_def small_numbers affinity_4 Let_def)

lemma sample_profile:
  "getSessionUser (req garage_env) (manager_server g) = Some 4" "isOK \<lparr>errorCode = SQLITE_OK\<rparr>"
  "tabular 3 [[''4'', ''bob'', ''1'']] \<lparr>colCount = 3, cells = [''4'', ''bob'', ''1''], colNames = replicate 3 ''COLUMN''\<rparr>"
  "row_ok [''4'', ''bob'', ''1'']"
  by (simp_all add: wide_env_simps getSessionUser_def manager_request_session manager_server_def isOK_def tabular_def row_ok_def value_ok_def)

theorem own_vehicles_listed_witness:
  "\<exists>w' s rows. getLocalUserData garage_env Map.empty Map.empty (manager_server one_vehicle) = (Inr (), w') \<and> reply w' = [TryEnd s] \<and>
     fromData s = Inr (Some (withRows (rowObject [''ID'', ''Username'', ''Permissions''] [''4'', ''bob'', ''1'']) ''Vehicles'' True
      [''ID'', ''Plate'', ''Make'', ''Model'', ''Year'', ''Colour''] rows)) \<and>
     mset rows = mset [[''1'', ''AB1'', ''Ford'', ''Ka'', ''2001'', ''red'']]"
proof -
  have own: "map (vehicleRow one_vehicle) (ownVehicles one_vehicle (integer_affinity (to_string 4))) = [[''1'', ''AB1'', ''Ford'', ''Ka'', ''2001'', ''red'']]"
    by (simp add: vehicleRow_def ownVehicles_def one_vehicle_def small_numbers affinity_4)
  have rows: "list_all row_ok (map (vehicleRow one_vehicle) (ownVehicles one_vehicle (integer_affinity (to_string 4))))"
    unfolding own by (simp add: row_ok_def value_ok_def)
  show ?thesis
    using own_vehicles_listed [OF garage_run_lists one_vehicle_ok sample_profile(1) sample_account(1) sample_profile(2-4)
      sample_account(2) sample_profile(2) rows, of Map.empty Map.empty]
    unfolding own by (simp add: manager_server_def)
qed

text \<open>C18. A registered vehicle is listed, if it can be written down. When a vehicle has been registered with success
  under the number of a user, the tables were consistent before and have not changed since, and the two queries
  for the own data succeed, then a later request of that user for the own data is answered with a text that
  reads back as a listing with this vehicle, with the plate, make, model and colour of the form. None of the
  values to be listed, those of the account and those of all the vehicles of the user, may contain a character
  of the structure of a response (a comma, a brace or a square bracket): the writer does not escape them, so that a
  vehicle with the colour \<^verbatim>\<open>a}b\<close> would make the listing unreadable.\<close>

theorem registered_vehicle_listed:
  assumes "stores_garage env view affinity literal" and "lists_vehicles env view affinity" and "garage_ok (view (database w))"
    and "createVehicle env b q w = (r, w1)" and "succeeded w r w1"
    and "b ''owner'' = Some (to_string u)" "b ''plate'' = Some p" "b ''make'' = Some mk" "b ''model'' = Some md"
      "b ''year'' = Some y" "b ''colour'' = Some col"
    and "getSessionUser rq w2 = Some u" and "view (database w2) = view (database w1)" and "view db1 = view (database w2)"
    and "query (api env) ownAccountSQL (iter env [('':USR'', to_string u)]) (database w2) = (Inr (c1, res1), db1)" "isOK c1"
    and "tabular 3 (account # others) res1" "row_ok account"
    and "query (api env) ownVehiclesSQL (iter env [('':USR'', to_string u)]) db1 = (Inr (c2, res2), db2)" "isOK c2"
    and "list_all row_ok (map (vehicleRow (view db1)) (ownVehicles (view db1) (affinity (to_string u))))"
  shows "\<exists>w' s rows i. getLocalUserData (env\<lparr>req := rq\<rparr>) b' q' w2 = (Inr (), w') \<and> reply w' = reply w2 @ [TryEnd s] \<and>
    fromData s = Inr (Some (withRows (rowObject [''ID'', ''Username'', ''Permissions''] account) ''Vehicles'' True
      [''ID'', ''Plate'', ''Make'', ''Model'', ''Year'', ''Colour''] rows)) \<and>
    [i, p, mk, md, affinity y, col] \<in> set rows"
proof -
  let ?g = "view (database w1)"
  have ok: "garage_ok ?g"
    using garage.move_inv [OF assms(3)] ensuresD [OF createVehicle_move [OF assms(1)] assms(4)] by blast
  from ensuresD [OF createVehicle_registers [OF assms(1,6-11)] assms(4)] assms(5) obtain g key base where
    g: "(base, mk, md) \<in> set (models g)" "?g = g\<lparr>vehicles := vehicles g @ [\<lparr>vehicleID = key, plateOf = p, baseOf = base,
      ownerOf = affinity (to_string u), yearOf = affinity y, colourOf = col\<rparr>]\<rparr>" (is "_ = g\<lparr>vehicles := vehicles g @ [?e]\<rparr>") by blast
  with ok have "map_of (models ?g) base = Some (mk, md)" by (simp add: garage_ok_def)
  with g(2) have "vehicleRow ?g ?e = [key, p, mk, md, affinity y, col]" "?e \<in> set (ownVehicles ?g (affinity (to_string u)))"
    by (simp_all add: vehicleRow_def ownVehicles_def)
  then have row: "[key, p, mk, md, affinity y, col] \<in> set (map (vehicleRow ?g) (ownVehicles ?g (affinity (to_string u))))"
    by (metis image_eqI set_map)
  have lists: "lists_vehicles (env\<lparr>req := rq\<rparr>) view affinity" using assms(2) by (simp add: lists_vehicles_def)
  have "garage_ok (view db1)" using ok assms(13,14) by simp
  from own_vehicles_sent [OF lists this _ _ assms(16-18) _ assms(20,21), where w = w2 and b = b' and q = q'] assms(12,15,19)
  obtain w' s rows where "getLocalUserData (env\<lparr>req := rq\<rparr>) b' q' w2 = (Inr (), w')" "reply w' = reply w2 @ [TryEnd s]"
    "fromData s = Inr (Some (profile account rows))"
    and m: "mset rows = mset (map (vehicleRow (view db1)) (ownVehicles (view db1) (affinity (to_string u))))"
    by auto
  moreover have "[key, p, mk, md, affinity y, col] \<in> set rows"
    using mset_eq_setD [OF m] row assms(13,14) by simp
  ultimately show ?thesis by blast
qed

theorem registered_vehicle_listed_witness:
  "\<exists>w1 w' s rows i. createVehicle garage_env
      [''plate'' \<mapsto> ''CD2'', ''make'' \<mapsto> ''Fiat'', ''model'' \<mapsto> ''Uno'', ''owner'' \<mapsto> ''4'', ''year'' \<mapsto> ''1'', ''colour'' \<mapsto> ''blue'']
      Map.empty (manager_server one_vehicle) = (Inr (), w1) \<and>
    getLocalUserData garage_env Map.empty Map.empty (manager_server (database w1)) = (Inr (), w') \<and> reply w' = [TryEnd s] \<and>
    fromData s = Inr (Some (withRows (rowObject [''ID'', ''Username'', ''Permissions''] [''4'', ''bob'', ''1'']) ''Vehicles'' True
      [''ID'', ''Plate'', ''Make'', ''Model'', ''Year'', ''Colour''] rows)) \<and>
    [i, ''CD2'', ''Fiat'', ''Uno'', ''1'', ''blue''] \<in> set rows"
proof -
  let ?b = "[''plate'' \<mapsto> ''CD2'', ''make'' \<mapsto> ''Fiat'', ''model'' \<mapsto> ''Uno'', ''owner'' \<mapsto> ''4'', ''year'' \<mapsto> ''1'', ''colour'' \<mapsto> ''blue'']"
  obtain w1 where w1: "createVehicle garage_env ?b Map.empty (manager_server one_vehicle) = (Inr (), w1)"
    and db: "database w1 = one_vehicle\<lparr>models := models one_vehicle @ [(''2'', ''Fiat'', ''Uno'')], vehicles := vehicles one_vehicle @
       [\<lparr>vehicleID = ''2'', plateOf = ''CD2'', baseOf = ''2'', ownerOf = ''4'', yearOf = ''1'', colourOf = ''blue''\<rparr>]\<rparr>"
    and "reply w1 = [End []]" using sample_register by blast
  then have s: "succeeded (manager_server one_vehicle) (Inr ()) w1" by (simp add: succeeded_def manager_server_def)
  have "list_all row_ok (map (vehicleRow (database w1)) (ownVehicles (database w1) (integer_affinity (to_string 4))))"
    unfolding db by (simp add: vehicleRow_def ownVehicles_def one_vehicle_def small_numbers affinity_4 row_ok_def value_ok_def)
  from registered_vehicle_listed [where rq = manager_request and b' = Map.empty and q' = Map.empty and u = 4 and p = "''CD2''"
      and mk = "''Fiat''" and md = "''Uno''" and y = "''1''" and col = "''blue''",
      OF garage_run_stores garage_run_lists _ w1 s _ _ _ _ _ _ sample_profile(1) [unfolded wide_env_simps] _ _ sample_account(1) sample_profile(2-4)
      sample_account(2) sample_profile(2) this]
  have "\<exists>w' s rows i. getLocalUserData garage_env Map.empty Map.empty (manager_server (database w1)) = (Inr (), w') \<and> reply w' = [TryEnd s] \<and>
    fromData s = Inr (Some (profile [''4'', ''bob'', ''1''] rows)) \<and> [i, ''CD2'', ''Fiat'', ''Uno'', ''1'', ''blue''] \<in> set rows"
    using one_vehicle_ok by (simp add: small_numbers affinity_1 wide_env_simps manager_server_def)
  with w1 show ?thesis by blast
qed

end
