(* ===== verification/Accounts.thy ===== *)
theory Accounts
  imports Listings
begin

text \<open>
  Accounts and sessions together. The routes of \<^verbatim>\<open>Server/include/WebRoutes/Auth.h\<close> and the routes of \<^verbatim>\<open>User.h\<close> that
  change accounts work on the table \<^verbatim>\<open>USERS\<close> of \<^verbatim>\<open>Server/sqlcrt.txt\<close> and on the session table: sessions
  take their level from accounts, and accounts are given their level by sessions. The question is whether
  a level can arise in this circle that was not there before. It cannot, as long as permissions are
  written as digits and are not sent to the update route; without either restriction it can.
\<close>

section \<open>The table\<close>

record account =
  accountID :: string
  accountName :: string
  accountPassword :: string
  accountPermission :: string

abbreviation loginSQL :: string where
  "loginSQL \<equiv> ''SELECT ID, PERMISSIONS FROM USERS WHERE USERNAME = :USR AND PASSWORD = :PWD''"

text \<open>What an update makes of a row; \<open>literal\<close> is how SQLite reads a text between double quotation marks.\<close>

definition assignAccount ::
  "(string \<Rightarrow> string) \<Rightarrow> (account \<Rightarrow> string \<Rightarrow> string) \<Rightarrow> (string \<times> string) list \<Rightarrow> account \<Rightarrow> account" where
  "assignAccount affinity literal as a = a\<lparr>
     accountName := (case map_of as ''USERNAME'' of None \<Rightarrow> accountName a | Some v \<Rightarrow> literal a v),
     accountPassword := (case map_of as ''PASSWORD'' of None \<Rightarrow> accountPassword a | Some v \<Rightarrow> literal a v),
     accountPermission := (case map_of as ''PERMISSIONS'' of None \<Rightarrow> accountPermission a | Some v \<Rightarrow> affinity (literal a v))\<rparr>"

definition updates_accounts ::
  "('db, 'st) env \<Rightarrow> ('db \<Rightarrow> account list) \<Rightarrow> (string \<Rightarrow> string) \<Rightarrow> (account \<Rightarrow> string \<Rightarrow> string) \<Rightarrow> bool" where
  "updates_accounts env view affinity literal \<longleftrightarrow> updates env view (\<lambda>s. ''UPDATE USERS SET '' @ s @ '' WHERE ID = :ID'') [''USERNAME'', ''PASSWORD'', ''PERMISSIONS''] '':ID''
     (\<lambda>as i db db'. view db' = map (\<lambda>a. if accountID a = affinity i then assignAccount affinity literal as a else a) (view db))"

text \<open>
  What SQLite documents of the statements of these routes. \<open>affinity\<close> is the conversion of a text that is
  stored in an integer column: digits become the number they denote.
\<close>

definition stores_accounts ::
  "('db, 'st) env \<Rightarrow> ('db \<Rightarrow> account list) \<Rightarrow> (string \<Rightarrow> string) \<Rightarrow> (account \<Rightarrow> string \<Rightarrow> string) \<Rightarrow> bool" where
  "stores_accounts env view affinity literal \<longleftrightarrow>
     (\<forall>t n. list_all is_digit t \<and> from_chars 32 t = Some n \<longrightarrow> affinity t = to_string n) \<and>
     (\<forall>u p. outcome env loginSQL [('':USR'', u), ('':PWD'', p)] (\<lambda>c db res db'. view db' = view db \<and>
        (isOK c \<longrightarrow> (\<exists>rows. tabular 2 rows res \<and>
           set rows \<subseteq> (\<lambda>a. [accountID a, accountPermission a]) ` {a \<in> set (view db). accountName a = u \<and> accountPassword a = p})))) \<and>
     (\<forall>u p. effect env view ''INSERT INTO USERS (ID, USERNAME, PASSWORD, PERMISSIONS) VALUES (NULL, :USR, :PAS, 1);''
        [('':USR'', u), ('':PAS'', p)] (\<lambda>db res db'.
        \<exists>key. key \<notin> accountID ` set (view db) \<and> u \<notin> accountName ` set (view db) \<and>
          view db' = view db @ [\<lparr>accountID = key, accountName = u, accountPassword = p, accountPermission = ''1''\<rparr>])) \<and>
     (\<forall>u p t. effect env view ''INSERT INTO USERS (ID, USERNAME, PASSWORD, PERMISSIONS) VALUES (NULL, :USR, :PAS, :PER);''
        [('':USR'', u), ('':PAS'', p), ('':PER'', t)] (\<lambda>db res db'.
        \<exists>key. key \<notin> accountID ` set (view db) \<and> u \<notin> accountName ` set (view db) \<and>
          view db' = view db @ [\<lparr>accountID = key, accountName = u, accountPassword = p, accountPermission = affinity t\<rparr>])) \<and>
     (\<forall>i. effect env view ''SELECT PERMISSIONS FROM USERS WHERE ID = :ID'' [('':ID'', i)] (\<lambda>db res db'. view db' = view db \<and> colCount res = 1 \<and>
        cells res = map accountPermission (filter (\<lambda>a. accountID a = affinity i) (view db)))) \<and>
     (\<forall>i. effect env view ''DELETE FROM USERS WHERE ID = :ID'' [('':ID'', i)] (\<lambda>db res db'. view db' = filter (\<lambda>a. accountID a \<noteq> affinity i) (view db))) \<and>
     updates_accounts env view affinity literal"

text \<open>The texts are those of the program.\<close>

lemma account_statements:
  "registerSQL = ''INSERT INTO USERS (ID, USERNAME, PASSWORD, PERMISSIONS) VALUES (NULL, :USR, :PAS, 1);''"
  "addUserSQL = ''INSERT INTO USERS (ID, USERNAME, PASSWORD, PERMISSIONS) VALUES (NULL, :USR, :PAS, :PER);''"
  "permissionSQL = ''SELECT PERMISSIONS FROM USERS WHERE ID = :ID''"
  "dropUserSQL = ''DELETE FROM USERS WHERE ID = :ID''"
  "changeUserSQL = (\<lambda>s. ''UPDATE USERS SET '' @ s @ '' WHERE ID = :ID'')"
  by (simp_all add: registerSQL_def user_texts fun_eq_iff)

lemmas updates_accounts_iff = updates_accounts_def [folded account_statements]
lemmas stores_accounts_iff = stores_accounts_def [folded account_statements]

section \<open>Levels\<close>

text \<open>No session and no account has a level above \<open>L\<close>. The level of an account is the number that a login
  reads from its permissions.\<close>

definition bounded :: "authLevel \<Rightarrow> string \<Rightarrow> bool" where
  "bounded L t \<longleftrightarrow> (\<forall>n. from_chars 32 t = Some n \<longrightarrow> authLevel_cast n \<le> L)"

definition privileged :: "authLevel \<Rightarrow> ('db \<Rightarrow> account list) \<Rightarrow> 'db server \<Rightarrow> bool" where
  "privileged L view w \<longleftrightarrow> (\<forall>n s. sessions w n = Some s \<longrightarrow> sessionLevel s \<le> L) \<and>
     (\<forall>a \<in> set (view (database w)). bounded L (accountPermission a))"

lemma privileged_simps [simp]:
  "privileged L view (w\<lparr>reply := r\<rparr>) = privileged L view w" "privileged L view (w\<lparr>console := c\<rparr>) = privileged L view w"
  by (simp_all add: privileged_def)

lemma privileged_same [simp]: "view d = view (database w) \<Longrightarrow> privileged L view (w\<lparr>database := d\<rparr>) = privileged L view w"
  by (simp add: privileged_def)

lemma privileged_add:
  "privileged L view w \<Longrightarrow> view d = view (database w) @ [a] \<Longrightarrow> bounded L (accountPermission a) \<Longrightarrow> privileged L view (w\<lparr>database := d\<rparr>)"
  by (auto simp: privileged_def)

lemma verify_privileged: "privileged L view w \<Longrightarrow> verify rq l w \<Longrightarrow> l \<le> L"
  by (force simp: privileged_def verify_iff)

text \<open>A program that never raises a level above the bound.\<close>

definition modest :: "authLevel \<Rightarrow> ('db \<Rightarrow> account list) \<Rightarrow> ('db server, 'a) prog \<Rightarrow> bool" where
  "modest L view m \<longleftrightarrow> (\<forall>w. privileged L view w \<longrightarrow> privileged L view (snd (m w)))"

named_theorems modesty \<open>rules for programs that respect the bound\<close>

lemma modestD: "modest L view m \<Longrightarrow> m w = (r, w') \<Longrightarrow> privileged L view w \<Longrightarrow> privileged L view w'"
  by (metis modest_def snd_conv)

lemma modest_keeps: "keeps sessions m \<Longrightarrow> keeps database m \<Longrightarrow> modest L view m"
  by (simp add: modest_def keeps_def privileged_def)

lemma modest_basic [modesty]:
  "modest L view (emit c)" "modest L view (cout s)" "modest L view (respond code)" "modest L view (returnP x)" "modest L view (liftE r)"
  "modest L view (gets f)"
  by (rule modest_keeps; rule frame)+

lemma modest_bind [modesty]: "modest L view m \<Longrightarrow> (\<And>x. modest L view (k x)) \<Longrightarrow> modest L view (bind m k)"
  by (auto simp: modest_def bind_def split: prod.split sum.split)

lemma modest_seq [modesty]: "modest L view m \<Longrightarrow> modest L view k \<Longrightarrow> modest L view (seq m k)"
  by (simp add: seq_def modest_bind)

lemma modest_if [modesty]: "(c \<Longrightarrow> modest L view a) \<Longrightarrow> (\<not> c \<Longrightarrow> modest L view b) \<Longrightarrow> modest L view (if c then a else b)"
  by simp

lemma modest_prod [modesty]: "(\<And>a b. modest L view (k a b)) \<Longrightarrow> modest L view (case p of (a, b) \<Rightarrow> k a b)"
  by (cases p) simp

lemma modest_ensures: "(\<And>w. privileged L view w \<Longrightarrow> ensures m w (\<lambda>r w'. privileged L view w')) \<Longrightarrow> modest L view m"
  by (simp add: modest_def ensures_def)

lemma modest_dbCall:
  assumes "call_effect env view SQL ps R"
    and "\<And>vs db res db'. R vs db res db' \<Longrightarrow> (\<forall>a \<in> set (view db). bounded L (accountPermission a)) \<Longrightarrow>
      (\<forall>a \<in> set (view db'). bounded L (accountPermission a))"
    and "\<And>x. modest L view (k x)"
  shows "modest L view (bind (dbCall env SQL ps) k)"
proof (rule modest_ensures)
  fix w assume w: "privileged L view w"
  have k: "privileged L view (w\<lparr>database := d\<rparr>) \<Longrightarrow> ensures (k x) (w\<lparr>database := d\<rparr>) (\<lambda>r. privileged L view)" for x d
    using assms(3) by (simp add: ensures_def modest_def)
  show "ensures (bind (dbCall env SQL ps) k) w (\<lambda>r. privileged L view)"
    by (rule ensures_dbCall [OF assms(1)]) (use w assms(2) k in \<open>auto simp: privileged_def\<close>)
qed

section \<open>The routes for sessions\<close>

lemma modest_release [modesty]: "modest L view (release env)"
  by (auto simp: modest_def release_run privileged_def split: option.split)

lemma keeps_grant: "keeps database (grant env u res)"
  by (cases res) (auto simp: grant_def intro!: frame keeps_modify)

text \<open>A row that a login accepts belongs to an account.\<close>

lemma accepted_row:
  assumes "stores_accounts env view aff lit" "loginQuery env u p db = (Inr res, db')" "loginRow res uid perm"
  shows "\<exists>a \<in> set (view db). from_chars 32 (accountPermission a) = Some perm"
proof -
  obtain c r where res: "res = (c, r)" by (cases res)
  from assms(1) have "outcome env loginSQL [('':USR'', u), ('':PWD'', hash p)] (\<lambda>c db res db'. view db' = view db \<and>
        (isOK c \<longrightarrow> (\<exists>rows. tabular 2 rows res \<and>
           set rows \<subseteq> (\<lambda>a. [accountID a, accountPermission a]) ` {a \<in> set (view db). accountName a = u \<and> accountPassword a = hash p})))"
    by (simp add: stores_accounts_iff)
  then obtain c' r' db'' where "loginQuery env u p db = (Inr (c', r'), db'')" "isOK c' \<longrightarrow> (\<exists>rows. tabular 2 rows r' \<and>
      set rows \<subseteq> (\<lambda>a. [accountID a, accountPermission a]) ` {a \<in> set (view db). accountName a = u \<and> accountPassword a = hash p})"
    unfolding outcome_def loginQuery_def by blast
  with assms(2,3) obtain rows where rows: "tabular 2 rows r"
    "set rows \<subseteq> (\<lambda>a. [accountID a, accountPermission a]) ` {a \<in> set (view db). accountName a = u \<and> accountPassword a = hash p}"
    by (auto simp: res loginRow_def)
  from assms(3) tabular_rowCount [OF rows(1)] have "length rows = 1" by (simp add: loginRow_def res)
  then obtain row where row: "rows = [row]" by (auto simp: length_Suc_conv)
  with rows(2) obtain a where a: "a \<in> set (view db)" "row = [accountID a, accountPermission a]" by auto
  from assms(3) tabular_cell [OF rows(1), of 0 1] row a(2) have "from_chars 32 (accountPermission a) = Some perm"
    by (simp add: loginRow_def res)
  with a(1) show ?thesis by blast
qed

lemma login_view:
  assumes "stores_accounts env view aff lit"
  shows "\<exists>res db'. loginQuery env u p db = (Inr res, db') \<and> view db' = view db"
  using assms unfolding stores_accounts_iff loginQuery_def outcome_def by blast

lemma modest_request [modesty]:
  assumes "stores_accounts env view aff lit"
  shows "modest L view (request env b)"
  unfolding modest_def
proof (intro allI impI)
  fix w assume w: "privileged L view w"
  show "privileged L view (snd (request env b w))"
  proof (cases "containsAll b [''username'', ''password''] False")
    case False
    with w show ?thesis by (simp add: request_def returnP_def)
  next
    case True
    then obtain u p where up: "getElement b ''username'' = Inr u" "getElement b ''password'' = Inr p"
      by (auto simp: containsAll_iff hasElement_def getElement_def split: option.splits)
    obtain w1 cs where w1: "database w1 = database w" "sessions w1 = released (req env) (sessions w)"
      and rq: "request env b w = (case loginQuery env u p (database w) of (r, db) \<Rightarrow>
         (case r of Inl e \<Rightarrow> (Inl e, w1\<lparr>database := db\<rparr>) | Inr res \<Rightarrow> grant env u res (w1\<lparr>database := db\<rparr>)))"
      by (rule request_run [OF True up])
    obtain res db' where q: "loginQuery env u p (database w) = (Inr res, db')" "view db' = view (database w)"
      using login_view [OF assms] by blast
    obtain r w' where g: "grant env u res (w1\<lparr>database := db'\<rparr>) = (r, w')" by fastforce
    have new: "authLevel_cast perm \<le> L" if "loginRow res uid perm" for uid perm
      using accepted_row [OF assms q(1) that] w by (auto simp: privileged_def bounded_def)
    have old: "sessionLevel s \<le> L" if "sessions w1 n = Some s" for n s
      using that w by (auto simp: w1 privileged_def released_def split: if_splits option.splits)
    have "sessionLevel s \<le> L" if "sessions w' n = Some s" for n s
      using grant_cases [OF g] that new old by (auto split: if_splits)
    moreover have "database w' = db'" using keepsD [OF keeps_grant g] by simp
    ultimately show ?thesis using rq q g w by (simp add: privileged_def)
  qed
qed

lemma modest_sessions:
  assumes "stores_accounts env view aff lit"
  shows "modest L view (authenticate env b q)" "modest L view (deauthenticate env)" "modest L view (checkSession env)"
  unfolding authenticate_def deauthenticate_def checkSession_def
  by (auto intro!: modesty assms)

section \<open>The routes for accounts\<close>

lemma account_effects:
  assumes "stores_accounts env view aff lit"
  shows "call_effect env view registerSQL [('':USR'', u), ('':PAS'', p)] (\<lambda>vs db res db'. \<exists>key. key \<notin> accountID ` set (view db) \<and>
      projr u \<notin> accountName ` set (view db) \<and> view db' = view db @
      [\<lparr>accountID = key, accountName = projr u, accountPassword = projr p, accountPermission = ''1''\<rparr>])"
    and "call_effect env view addUserSQL [('':USR'', u), ('':PAS'', p), ('':PER'', t)] (\<lambda>vs db res db'. \<exists>key. key \<notin> accountID ` set (view db) \<and>
      projr u \<notin> accountName ` set (view db) \<and> view db' = view db @
      [\<lparr>accountID = key, accountName = projr u, accountPassword = projr p, accountPermission = aff (projr t)\<rparr>])"
    and "call_effect env view permissionSQL [('':ID'', i)] (\<lambda>vs db res db'. view db' = view db \<and> colCount res = 1 \<and>
      cells res = map accountPermission (filter (\<lambda>a. accountID a = aff (projr i)) (view db)))"
    and "call_effect env view dropUserSQL [('':ID'', i)]
      (\<lambda>vs db res db'. view db' = filter (\<lambda>a. accountID a \<noteq> aff (projr i)) (view db))"
  using assms by (auto simp: call_effect_def stores_accounts_iff bindE_eq_Inr)

lemma bounded_1: "employee \<le> L \<Longrightarrow> bounded L ''1''"
  by (simp add: bounded_def sample_numbers level_defs)

text \<open>The permissions that a form of digits asks for are what the table holds afterwards.\<close>

lemma bounded_affinity:
  assumes "stores_accounts env view aff lit" "list_all is_digit t" "from_chars 32 t = Some n" "authLevel_cast n \<le> L"
  shows "bounded L (aff t)"
proof -
  have "aff t = to_string n" using assms(1-3) by (simp add: stores_accounts_iff)
  with from_chars_bound [OF assms(3)] assms(4) show ?thesis by (simp add: bounded_def)
qed

lemma modest_registerUser:
  assumes "stores_accounts env view aff lit" "employee \<le> L"
  shows "modest L view (registerUser env b q)"
  unfolding registerUser_def
  by (intro modesty modest_dbCall [OF account_effects(1) [OF assms(1)]] modest_sessions [OF assms(1)])
    (auto simp: bounded_1 [OF assms(2)])

lemma modest_createUser:
  assumes "stores_accounts env view aff lit" "\<And>t. b ''permission'' = Some t \<Longrightarrow> list_all is_digit t"
  shows "modest L view (createUser env b q)"
  unfolding createUser_def
  by (intro modest_ensures stepping account_effects [OF assms(1), THEN ensures_dbCall])
    (auto simp: getElement_def assms(2) dest: verify_hasSession
      intro!: privileged_add bounded_affinity [OF assms(1)] elim: verify_privileged
      simp del: containsAll.simps anyEmpty.simps params.simps split: option.splits)

lemma modest_deleteUser:
  assumes "stores_accounts env view aff lit"
  shows "modest L view (deleteUser env b q)"
  unfolding deleteUser_def
  by (intro modest_ensures stepping account_effects [OF assms(1), THEN ensures_dbCall])
    (auto simp: privileged_def dest: verify_hasSession simp del: params.simps)

lemma privileged_change:
  assumes "privileged L view w" "view d = map (\<lambda>a. if accountID a = i then assignAccount aff lit as a else a) (view (database w))"
    and "map_of as ''PERMISSIONS'' = None"
  shows "privileged L view (w\<lparr>database := d\<rparr>)"
  using assms by (auto simp: privileged_def assignAccount_def)

lemma modest_updateUser:
  assumes "stores_accounts env view aff lit" "any_order env" "plain_form b [''username'', ''password'']" "b ''permissions'' = None"
  shows "modest L view (updateUser env b q)"
proof -
  let ?rel = "[(''username'', ''USERNAME''), (''password'', ''PASSWORD''), (''permissions'', ''PERMISSIONS'')]"
  have up: "updates_accounts env view aff lit" using assms(1) by (simp add: stores_accounts_iff)
  have none: "map_of (assignments b (iterRel env ?rel)) ''PERMISSIONS'' = None"
    by (rule unlisted_column [OF assms(2)]) (use assms(4) in auto)
  show ?thesis
    unfolding updateUser_def Let_def generateUpdateStatement_eq bind_known
    by (intro modest_ensures stepping account_effects(3) [OF assms(1), THEN ensures_dbCall]
        ensures_update [OF up [unfolded updates_accounts_iff] assms(2)])
      (use assms(3,4) in \<open>auto simp: none plain_form_def dest: verify_hasSession intro!: privileged_change simp del: params.simps\<close>)
qed

section \<open>Changed accounts\<close>

lemma effectD:
  "effect env view SQL vs R \<Longrightarrow> query (api env) SQL (iter env vs) db = (Inr (c, res), db') \<Longrightarrow> isOK c \<Longrightarrow> R db res db'"
  unfolding effect_def by (drule spec [of _ db]) auto

text \<open>The level that the two routes compare is that of the account they are about to delete or change.\<close>

lemma permission_cell:
  assumes "distinct (map accountID l)" "a \<in> set l" "colCount res = Suc 0"
    and "cells res = map accountPermission (filter (\<lambda>x. accountID x = accountID a) l)" "cell res 0 0 = Inr t"
  shows "accountPermission a = t"
proof -
  have same: "x = a" if "x \<in> set l" "accountID x = accountID a" for x
    using assms(1,2) that by (auto simp: distinct_map dest: inj_onD)
  obtain x xs where f: "filter (\<lambda>x. accountID x = accountID a) l = x # xs"
    using assms(2) by (cases "filter (\<lambda>x. accountID x = accountID a) l") (auto simp: filter_empty_conv)
  then have "x \<in> set (filter (\<lambda>x. accountID x = accountID a) l)" by simp
  then have "x = a" by (simp add: same)
  with f assms(3-5) show ?thesis by (simp add: cell_def)
qed

text \<open>Every account that is gone or different afterwards is the one that the form names, and the session reaches its level.\<close>

definition within_reach ::
  "(string \<Rightarrow> string) \<Rightarrow> ('db \<Rightarrow> account list) \<Rightarrow> http_request \<Rightarrow> queryBase \<Rightarrow> 'db server \<Rightarrow> 'db server \<Rightarrow> bool" where
  "within_reach affinity view rq b w w' \<longleftrightarrow> (\<forall>a \<in> set (view (database w)) - set (view (database w')). \<exists>i n.
     b ''ID'' = Some i \<and> accountID a = affinity i \<and> from_chars 32 (accountPermission a) = Some n \<and>
     verify rq employee w \<and> verify rq (authLevel_cast n) w)"

lemma within_reach_simps [simp]:
  "within_reach aff view rq b w (v\<lparr>reply := r\<rparr>) = within_reach aff view rq b w v"
  "within_reach aff view rq b w (v\<lparr>console := c\<rparr>) = within_reach aff view rq b w v"
  by (simp_all add: within_reach_def)

lemma within_reach_same [simp]: "view (database v) = view (database w) \<Longrightarrow> within_reach aff view rq b w v"
  by (simp add: within_reach_def)

lemma within_reach_one:
  assumes "distinct (map accountID (view (database w)))" "colCount res = Suc 0"
    and "cells res = map accountPermission (filter (\<lambda>x. accountID x = aff i) (view (database w)))"
    and "cell res 0 0 = Inr t" "from_chars 32 t = Some n" "b ''ID'' = Some i"
    and "verify rq employee w" "verify rq (authLevel_cast n) w"
    and "\<And>a. a \<in> set (view (database w)) \<Longrightarrow> accountID a \<noteq> aff i \<Longrightarrow> a \<in> set (view d)"
  shows "within_reach aff view rq b w (v\<lparr>database := d\<rparr>)"
  unfolding within_reach_def
proof
  fix a assume a: "a \<in> set (view (database w)) - set (view (database (v\<lparr>database := d\<rparr>)))"
  then have "accountID a = aff i" using assms(9) by auto
  with permission_cell [OF assms(1) _ assms(2) _ assms(4), of a] a assms(3,5-8)
  show "\<exists>i n. b ''ID'' = Some i \<and> accountID a = aff i \<and> from_chars 32 (accountPermission a) = Some n \<and>
     verify rq employee w \<and> verify rq (authLevel_cast n) w" by auto
qed

lemma deleteUser_within_reach:
  assumes "stores_accounts env view aff lit" "distinct (map accountID (view (database w)))"
  shows "ensures (deleteUser env b q) w (\<lambda>r w'. within_reach aff view (req env) b w w')"
proof (cases "b ''ID''")
  case None
  then show ?thesis by (simp add: deleteUser_def hasElement_def ensures_def respond_run)
next
  case (Some i)
  note one = within_reach_one [where w = w and view = view and i = i and b = b, OF assms(2) _ _ _ _ Some]
  show ?thesis
    unfolding deleteUser_def
    by (intro stepping account_effects [OF assms(1), THEN ensures_dbCall])
      (auto simp: getElement_def Some dest: verify_hasSession elim!: one simp del: params.simps)
qed

lemma updateUser_within_reach:
  assumes "stores_accounts env view aff lit" "any_order env" "plain_form b [''username'', ''password'', ''permissions'']"
    and "distinct (map accountID (view (database w)))"
  shows "ensures (updateUser env b q) w (\<lambda>r w'. within_reach aff view (req env) b w w')"
proof (cases "b ''ID''")
  case None
  then show ?thesis by (simp add: updateUser_def Let_def hasElement_def ensures_def respond_run)
next
  case (Some i)
  note one = within_reach_one [where w = w and view = view and i = i and b = b, OF assms(4) _ _ _ _ Some]
  have up: "updates_accounts env view aff lit" using assms(1) by (simp add: stores_accounts_iff)
  show ?thesis
    unfolding updateUser_def Let_def generateUpdateStatement_eq bind_known
    by (intro stepping account_effects(3) [OF assms(1), THEN ensures_dbCall]
        ensures_update [OF up [unfolded updates_accounts_iff] assms(2)])
      (use assms(3) in \<open>auto simp: getElement_def Some plain_form_def dest: verify_hasSession elim!: one simp del: params.simps\<close>)
qed

lemma accepted_insertions:
  assumes "stores_accounts env view aff lit" "isOK c"
  shows "query (api env) registerSQL (iter env [('':USR'', u), ('':PAS'', p)]) db = (Inr (c, res), db') \<Longrightarrow>
      \<exists>key. u \<notin> accountName ` set (view db) \<and> view db' = view db @
        [\<lparr>accountID = key, accountName = u, accountPassword = p, accountPermission = ''1''\<rparr>]"
    and "query (api env) addUserSQL (iter env [('':USR'', u), ('':PAS'', p), ('':PER'', t)]) db = (Inr (c, res), db') \<Longrightarrow>
      \<exists>key. view db' = view db @ [\<lparr>accountID = key, accountName = u, accountPassword = p, accountPermission = aff t\<rparr>]"
proof -
  have e: "effect env view registerSQL [('':USR'', u), ('':PAS'', p)] (\<lambda>db res db'. \<exists>key. key \<notin> accountID ` set (view db) \<and>
        u \<notin> accountName ` set (view db) \<and> view db' = view db @ [\<lparr>accountID = key, accountName = u, accountPassword = p, accountPermission = ''1''\<rparr>])"
    "effect env view addUserSQL [('':USR'', u), ('':PAS'', p), ('':PER'', t)] (\<lambda>db res db'. \<exists>key. key \<notin> accountID ` set (view db) \<and>
        u \<notin> accountName ` set (view db) \<and> view db' = view db @ [\<lparr>accountID = key, accountName = u, accountPassword = p, accountPermission = aff t\<rparr>])"
    using assms(1) unfolding stores_accounts_iff by blast+
  show "\<exists>key. u \<notin> accountName ` set (view db) \<and> view db' = view db @
        [\<lparr>accountID = key, accountName = u, accountPassword = p, accountPermission = ''1''\<rparr>]"
    if "query (api env) registerSQL (iter env [('':USR'', u), ('':PAS'', p)]) db = (Inr (c, res), db')"
    using effectD [OF e(1) that assms(2)] by blast
  show "\<exists>key. view db' = view db @ [\<lparr>accountID = key, accountName = u, accountPassword = p, accountPermission = aff t\<rparr>]"
    if "query (api env) addUserSQL (iter env [('':USR'', u), ('':PAS'', p), ('':PER'', t)]) db = (Inr (c, res), db')"
    using effectD [OF e(2) that assms(2)] by blast
qed

text \<open>A login with a name and a password that no account has in transformed form.\<close>

lemma login_refused:
  assumes "stores_accounts env view aff lit" "b ''username'' = Some u" "u \<noteq> []" "b ''password'' = Some p" "p \<noteq> []"
    and "\<And>a. a \<in> set (view (database w)) \<Longrightarrow> accountName a = u \<Longrightarrow> accountPassword a \<noteq> hash p"
  shows "\<exists>w' cs. authenticate env b q w = (Inr (), w') \<and> view (database w') = view (database w) \<and>
    sessions w' = released (req env) (sessions w) \<and> reply w' = reply w @ cs @ [WriteStatus UNAUTHORISED, End []]"
proof -
  have c: "containsAll b [''username'', ''password''] False" "getElement b ''username'' = Inr u" "getElement b ''password'' = Inr p"
    using assms(2-5) by (simp_all add: hasElement_def getElement_def)
  obtain w1 cs where w1: "database w1 = database w" "sessions w1 = released (req env) (sessions w)" "reply w1 = reply w @ cs"
    and rq: "request env b w = (case loginQuery env u p (database w) of (r, db) \<Rightarrow>
       (case r of Inl e \<Rightarrow> (Inl e, w1\<lparr>database := db\<rparr>) | Inr res \<Rightarrow> grant env u res (w1\<lparr>database := db\<rparr>)))"
    by (rule request_run [OF c])
  obtain code res db' where l: "loginQuery env u p (database w) = (Inr (code, res), db')" "view db' = view (database w)"
    and rows: "isOK code \<longrightarrow> (\<exists>rows. tabular 2 rows res \<and> set rows \<subseteq> (\<lambda>a. [accountID a, accountPermission a]) `
      {a \<in> set (view (database w)). accountName a = u \<and> accountPassword a = hash p})"
    using assms(1) unfolding stores_accounts_iff outcome_def loginQuery_def by blast
  have "{a \<in> set (view (database w)). accountName a = u \<and> accountPassword a = hash p} = {}" using assms(6) by blast
  with rows have "isOK code \<longrightarrow> tabular 2 [] res" by auto
  then have "request env b w = (Inr False, w1\<lparr>database := db'\<rparr>)"
    using rq l tabular_rowCount [of 2 "[]" res] by (auto simp: grant_def returnP_def)
  then have "authenticate env b q w = (Inr (), w1\<lparr>database := db', reply := reply w @ cs @ [WriteStatus UNAUTHORISED, End []]\<rparr>)"
    using c assms(3,5) w1(3) by (simp add: authenticate_def bind_Inr emit_run del: containsAll.simps)
  with l(2) w1(2) show ?thesis by auto
qed

section \<open>Histories\<close>

text \<open>
  The calls of the routes that change sessions or accounts, by any client, with any random numbers; and
  anything that leaves both tables alone. The forms are restricted in three ways: permissions for a new
  account are digits, an update does not carry the element \<^verbatim>\<open>permissions\<close>, and its values stay inside
  their quotation marks.
\<close>

inductive account_step :: "('db, 'st) env \<Rightarrow> ('db \<Rightarrow> account list) \<Rightarrow> 'db server \<Rightarrow> 'db server \<Rightarrow> bool" for env view where
  "authenticate (env\<lparr>req := rq, draws := d\<rparr>) b q w = (r, w') \<Longrightarrow> account_step env view w w'"
| "registerUser (env\<lparr>req := rq, draws := d\<rparr>) b q w = (r, w') \<Longrightarrow> account_step env view w w'"
| "deauthenticate (env\<lparr>req := rq\<rparr>) w = (r, w') \<Longrightarrow> account_step env view w w'"
| "checkSession (env\<lparr>req := rq\<rparr>) w = (r, w') \<Longrightarrow> account_step env view w w'"
| "createUser (env\<lparr>req := rq\<rparr>) b q w = (r, w') \<Longrightarrow> (\<And>t. b ''permission'' = Some t \<Longrightarrow> list_all is_digit t) \<Longrightarrow> account_step env view w w'"
| "deleteUser (env\<lparr>req := rq\<rparr>) b q w = (r, w') \<Longrightarrow> account_step env view w w'"
| "updateUser (env\<lparr>req := rq\<rparr>) b q w = (r, w') \<Longrightarrow> plain_form b [''username'', ''password''] \<Longrightarrow> b ''permissions'' = None \<Longrightarrow>
     account_step env view w w'"
| "sessions w' = sessions w \<Longrightarrow> view (database w') = view (database w) \<Longrightarrow> account_step env view w w'"

lemma stores_accounts_env [simp]:
  "stores_accounts (env\<lparr>req := rq\<rparr>) view aff lit = stores_accounts env view aff lit"
  "stores_accounts (env\<lparr>req := rq, draws := d\<rparr>) view aff lit = stores_accounts env view aff lit"
  by (simp_all add: stores_accounts_iff updates_accounts_iff effect_def outcome_def)

lemma account_step_privileged:
  assumes "stores_accounts env view aff lit" "any_order env" "employee \<le> L" "account_step env view w w'" "privileged L view w"
  shows "privileged L view w'"
  using assms(4)
proof cases
  case 1
  with assms(1,5) show ?thesis by (auto elim!: modestD [rotated] intro: modest_sessions)
next
  case 2
  with assms(1,3,5) show ?thesis by (auto elim!: modestD [rotated] intro: modest_registerUser)
next
  case 3
  with assms(1,5) show ?thesis by (auto elim!: modestD [rotated] intro: modest_sessions)
next
  case 4
  with assms(1,5) show ?thesis by (auto elim!: modestD [rotated] intro: modest_sessions)
next
  case 5
  with assms(1,5) show ?thesis by (auto elim!: modestD [rotated] intro: modest_createUser)
next
  case 6
  with assms(1,5) show ?thesis by (auto elim!: modestD [rotated] intro: modest_deleteUser)
next
  case 7
  with assms(1,2,5) show ?thesis by (auto elim!: modestD [rotated] intro: modest_updateUser)
qed (use assms(5) in \<open>simp add: privileged_def\<close>)

section \<open>A connection with this table\<close>

text \<open>Numbers may be written with an exponent, as SQLite allows.\<close>

definition numeric_affinity :: "string \<Rightarrow> string" where
  "numeric_affinity t = (case split_at CHR ''e'' t of (m, None) \<Rightarrow> integer_affinity t
     | (m, Some k) \<Rightarrow> if m \<noteq> [] \<and> k \<noteq> [] \<and> list_all is_digit (m @ k) then to_string (num_val m * 10 ^ num_val k) else t)"

definition accountLiteral :: "account \<Rightarrow> string \<Rightarrow> string" where
  "accountLiteral a v = (if v = ''ID'' then accountID a else if v = ''USERNAME'' then accountName a
     else if v = ''PASSWORD'' then accountPassword a else if v = ''PERMISSIONS'' then accountPermission a else v)"

abbreviation accountUpdates :: "string \<Rightarrow> (string \<times> string) list" where
  "accountUpdates \<equiv> decode [''USERNAME'', ''PASSWORD'', ''PERMISSIONS'']"

definition account_run :: "string \<Rightarrow> string list \<Rightarrow> account list \<Rightarrow> int \<times> string list list \<times> account list" where
  "account_run SQL vals l = (let i = numeric_affinity (vals ! 0); key = to_string (Suc (length l));
       insert = (\<lambda>perm. if key \<in> accountID ` set l \<or> vals ! 0 \<in> accountName ` set l then (19, [], l) else
         (SQLITE_DONE, [], l @ [\<lparr>accountID = key, accountName = vals ! 0, accountPassword = vals ! 1, accountPermission = perm\<rparr>]))
     in if SQL = loginSQL then (SQLITE_DONE, map (\<lambda>a. [accountID a, accountPermission a])
          (filter (\<lambda>a. accountName a = vals ! 0 \<and> accountPassword a = vals ! 1) l), l)
        else if SQL = registerSQL then insert ''1''
        else if SQL = addUserSQL then insert (numeric_affinity (vals ! 2))
        else if SQL = permissionSQL then (SQLITE_DONE, map (\<lambda>a. [accountPermission a]) (filter (\<lambda>a. accountID a = i) l), l)
        else if SQL = dropUserSQL then (SQLITE_DONE, [], filter (\<lambda>a. accountID a \<noteq> i) l)
        else if take 6 SQL = ''UPDATE'' then (SQLITE_DONE, [], map (\<lambda>a. if accountID a = i
          then assignAccount numeric_affinity accountLiteral (accountUpdates SQL) a else a) l)
        else (SQLITE_DONE, [], l))"

definition account_width :: "string \<Rightarrow> nat" where
  "account_width SQL = (if SQL = loginSQL then 2 else 1)"

abbreviation account_env :: "(account list, table_stmt) env" where
  "account_env \<equiv> wide_env account_run account_width"

lemma account_texts_distinct: "distinct [loginSQL, registerSQL, addUserSQL, permissionSQL, dropUserSQL]"
  by (simp add: registerSQL_def user_texts)

lemmas account_text_neq = account_texts_distinct [simplified]
  account_texts_distinct [THEN distinct_rev [THEN iffD2], simplified]

lemma account_text_less [simplified, simp]:
  "length loginSQL < 2 ^ 31" "length registerSQL < 2 ^ 31" "length addUserSQL < 2 ^ 31" "length permissionSQL < 2 ^ 31"
  "length dropUserSQL < 2 ^ 31"
  by (simp_all add: registerSQL_def user_texts)

lemma changeUser_neq:
  "changeUserSQL s \<noteq> loginSQL" "changeUserSQL s \<noteq> registerSQL" "changeUserSQL s \<noteq> addUserSQL" "changeUserSQL s \<noteq> permissionSQL"
  "changeUserSQL s \<noteq> dropUserSQL" "take 6 (changeUserSQL s) = ''UPDATE''"
  by (simp_all add: registerSQL_def user_texts)

lemma account_run_columns: "columns (account_width SQL) (account_run SQL vals l)"
  by (auto simp: columns_def account_width_def account_run_def Let_def sqlite_codes list_all_iff account_text_neq
      simp del: list.inject split: if_splits)

lemma digits_number:
  assumes "list_all is_digit t" "from_chars bits t = Some n"
  shows "t \<noteq> [] \<and> num_val t = n"
proof -
  have "takeWhile is_digit t = t" using assms(1) by (simp add: takeWhile_eq_all_conv list_all_iff)
  with assms(2) show ?thesis by (auto simp: from_chars_def Let_def split: if_splits)
qed

lemma numeric_affinity_digits:
  assumes "list_all is_digit t" "from_chars 32 t = Some n"
  shows "numeric_affinity t = to_string n"
proof -
  have "CHR ''e'' \<notin> set t" using assms(1) by (auto simp: list_all_iff is_digit_def)
  with digits_number [OF assms] assms(1) show ?thesis
    by (simp add: numeric_affinity_def split_at_notin integer_affinity_def)
qed

lemma account_updates: "updates_accounts account_env (\<lambda>l. l) numeric_affinity accountLiteral"
  unfolding updates_accounts_iff
proof (rule wide_env_updates)
  show "QUOTE \<notin> set (''UPDATE '' @ tableNames USER @ '' SET '') \<and> QUOTE \<notin> set '' WHERE ID = :ID'' \<and>
      changeUserSQL s = (''UPDATE '' @ tableNames USER @ '' SET '') @ s @ '' WHERE ID = :ID''" for s
    by (simp add: changeUserSQL_def)
  show "columnBefore [''USERNAME'', ''PASSWORD'', ''PERMISSIONS''] (s @ c @ '' = '') = c \<and> QUOTE \<notin> set c"
    if "c \<in> set [''USERNAME'', ''PASSWORD'', ''PERMISSIONS'']" for c s
    using that by (intro conjI column_found) auto
  show "columns (account_width (changeUserSQL s)) (account_run (changeUserSQL s) vals db)" for s vals db
    by (rule account_run_columns)
qed (auto simp: account_run_def changeUser_neq sqlite_codes Let_def split: if_splits)

lemma account_run_stores: "stores_accounts account_env (\<lambda>l. l) numeric_affinity accountLiteral"
  unfolding stores_accounts_iff
proof (intro conjI allI account_updates impI)
  show "numeric_affinity t = to_string n" if "list_all is_digit t \<and> from_chars 32 t = Some n" for t n
    using that numeric_affinity_digits by blast
  show "outcome account_env loginSQL [('':USR'', u), ('':PWD'', p)] (\<lambda>c l res l'. l' = l \<and> (isOK c \<longrightarrow> (\<exists>rows. tabular 2 rows res \<and>
      set rows \<subseteq> (\<lambda>a. [accountID a, accountPermission a]) ` {a \<in> set l. accountName a = u \<and> accountPassword a = p})))" for u p
    by (intro wide_env_outcome account_run_columns)
      (auto simp: account_run_def account_width_def Let_def tabular_def list_all_iff simp del: list.inject intro!: exI [of _ "map _ _"])
qed (intro wide_env_effect account_run_columns;
    auto simp: account_run_def account_text_neq account_width_def sqlite_codes Let_def concat_singletons simp del: list.inject)+

lemmas account_query = wide_env_query [where run = account_run and width = account_width, OF _ account_run_columns]

definition staff_accounts :: "account list" where
  "staff_accounts = [\<lparr>accountID = ''4'', accountName = ''bob'', accountPassword = ''x'', accountPermission = ''1''\<rparr>]"

definition employee_server :: "account list server" where
  "employee_server = \<lparr>database = staff_accounts, sessions = [7 \<mapsto> \<lparr>sessionLevel = employee, userID = 4\<rparr>], console = [], reply = []\<rparr>"

lemma sample_create_user:
  assumes "t \<in> {''1'', ''1e1''}"
  shows "\<exists>w'. createUser account_env [''username'' \<mapsto> ''eve'', ''password'' \<mapsto> ''y'', ''permission'' \<mapsto> t] Map.empty employee_server = (Inr (), w') \<and>
     database w' = staff_accounts @ [\<lparr>accountID = ''2'', accountName = ''eve'', accountPassword = ''y'', accountPermission = numeric_affinity t\<rparr>] \<and>
     sessions w' = sessions employee_server \<and> reply w' = [End []]"
  using assms
  by (elim insertE emptyE) (simp_all add: createUser_def running bind_known wide_env_simps account_query account_run_def account_text_neq employee_server_def
      staff_accounts_def getElement_def hasElement_def manager_request_session verify_def sample_numbers level_defs finish_def emit_run
      isOK_def sqlite_codes small_numbers(2) [unfolded numeral_2_eq_2] account_width_def Let_def)

lemma sample_insertion:
  "\<exists>res db'. query (api account_env) addUserSQL (iter account_env [('':USR'', ''eve''), ('':PAS'', ''y''), ('':PER'', ''1e1'')])
      (database employee_server) = (Inr (\<lparr>errorCode = SQLITE_OK\<rparr>, res), db')"
  by (simp add: wide_env_simps account_query account_run_def account_text_neq employee_server_def staff_accounts_def sqlite_codes
      small_numbers(2) [unfolded numeral_2_eq_2] account_width_def Let_def)

lemma sample_registration:
  "\<exists>res db'. query (api account_env) registerSQL (iter account_env [('':USR'', ''eve''), ('':PAS'', ''y'')])
      (database employee_server) = (Inr (\<lparr>errorCode = SQLITE_OK\<rparr>, res), db')"
  by (simp add: wide_env_simps account_query account_run_def account_text_neq employee_server_def staff_accounts_def sqlite_codes
      small_numbers(2) [unfolded numeral_2_eq_2] account_width_def Let_def)

lemma sample_delete_user:
  "\<exists>w'. deleteUser account_env [''ID'' \<mapsto> ''4''] Map.empty employee_server = (Inr (), w') \<and> database w' = []"
  by (simp add: deleteUser_def running bind_known wide_env_simps account_query account_run_def account_text_neq employee_server_def
      staff_accounts_def getElement_def hasElement_def manager_request_session verify_def sample_numbers level_defs emit_run
      isOK_def sqlite_codes account_width_def Let_def rowCount_def cell_def numeric_affinity_def integer_affinity_def small_numbers)

lemma sample_bounded: "privileged employee (\<lambda>l. l) employee_server"
  by (auto simp: privileged_def employee_server_def staff_accounts_def bounded_1)

lemma exponent_numbers: "from_chars 32 ''10'' = Some 10" "from_chars 32 ''1e1'' = Some 1"
  by (simp_all add: sample_numbers)

section \<open>Properties\<close>

text \<open>C6. Levels do not rise. Take any level from that of an employee upwards: if no session and no account is
  above it, then none is after any number of calls of the routes that log in and out, register, create,
  delete and update accounts, by any clients, with any failures and any random session numbers, and
  after anything else that leaves the accounts and the sessions alone. The forms write permissions in digits,
  send none to the update route, and keep their values inside quotation marks.\<close>

theorem privileges_bounded:
  assumes "stores_accounts env view affinity literal" and "any_order env" and "employee \<le> L" and "privileged L view w"
    and "(account_step env view)\<^sup>*\<^sup>* w w'"
  shows "(\<forall>n s. sessions w' n = Some s \<longrightarrow> sessionLevel s \<le> L) \<and>
    (\<forall>a \<in> set (view (database w')). \<forall>n. from_chars 32 (accountPermission a) = Some n \<longrightarrow> authLevel_cast n \<le> L)"
proof -
  from assms(5) have "privileged L view w'"
  proof induction
    case (step y z)
    from account_step_privileged [OF assms(1-3) step(2,3)] show ?case .
  qed (rule assms(4))
  then show ?thesis by (simp add: privileged_def bounded_def)
qed

theorem privileges_bounded_witness:
  "\<exists>w'. (account_step account_env (\<lambda>l. l))\<^sup>*\<^sup>* employee_server w' \<and> length (database w') = 2 \<and>
     (\<forall>a \<in> set (database w'). \<forall>n. from_chars 32 (accountPermission a) = Some n \<longrightarrow> authLevel_cast n \<le> employee)"
proof -
  let ?b = "[''username'' \<mapsto> ''eve'', ''password'' \<mapsto> ''y'', ''permission'' \<mapsto> ''1'']"
  obtain w' where w': "createUser account_env ?b Map.empty employee_server = (Inr (), w')"
    "database w' = staff_accounts @ [\<lparr>accountID = ''2'', accountName = ''eve'', accountPassword = ''y'', accountPermission = numeric_affinity ''1''\<rparr>]"
    using sample_create_user [of "''1''"] by auto
  have "account_step account_env (\<lambda>l. l) employee_server w'"
    using account_step.intros(5) [where env = account_env and rq = manager_request, unfolded wide_env_simps, OF w'(1)]
    by (simp add: is_digit_def)
  then have h: "(account_step account_env (\<lambda>l. l))\<^sup>*\<^sup>* employee_server w'" by blast
  have "any_order account_env" by (simp add: any_order_def wide_env_simps)
  from privileges_bounded [OF account_run_stores this order_refl sample_bounded h] h w'(2) show ?thesis
    by (intro exI [of _ w']) (simp add: staff_accounts_def)
qed

text \<open>C24. Nobody deletes or changes an account above the own level. Accounts have distinct numbers, as the primary key
  has them. Whatever a call of the route that deletes accounts or of the one that updates them does, with any
  form and any failures: an account that is not in the table afterwards as it was before is the one with the
  number that the form names, and the session of the request reaches the level of an employee and the level that this
  account had. For the update route the values in the form contain no quotation marks; a value that leaves its
  quotation marks can extend the statement to other accounts.\<close>

theorem account_level_respected:
  assumes "stores_accounts env view affinity literal" and "any_order env" and "distinct (map accountID (view (database w)))"
    and "h \<in> {deleteUser, updateUser}" and "h = updateUser \<longrightarrow> plain_form b [''username'', ''password'', ''permissions'']"
    and "h env b q w = (r, w')" and "a \<in> set (view (database w))" and "a \<notin> set (view (database w'))"
  shows "\<exists>i n. b ''ID'' = Some i \<and> accountID a = affinity i \<and> from_chars 32 (accountPermission a) = Some n \<and>
    verify (req env) employee w \<and> verify (req env) (authLevel_cast n) w"
proof -
  from assms(4) have "within_reach affinity view (req env) b w w'"
  proof (elim insertE emptyE)
    assume "h = deleteUser"
    with ensuresD [OF deleteUser_within_reach [OF assms(1,3)]] assms(6) show ?thesis by blast
  next
    assume "h = updateUser"
    with ensuresD [OF updateUser_within_reach [OF assms(1,2) _ assms(3)]] assms(5,6) show ?thesis by blast
  qed
  with assms(7,8) show ?thesis by (auto simp: within_reach_def)
qed

theorem account_level_respected_witness:
  "\<exists>w'. deleteUser account_env [''ID'' \<mapsto> ''4''] Map.empty employee_server = (Inr (), w') \<and> database w' = [] \<and>
     (\<exists>i n. [''ID'' \<mapsto> ''4''] ''ID'' = Some i \<and> ''4'' = numeric_affinity i \<and> from_chars 32 ''1'' = Some n \<and>
       verify (req account_env) employee employee_server \<and> verify (req account_env) (authLevel_cast n) employee_server)"
proof -
  let ?a = "\<lparr>accountID = ''4'', accountName = ''bob'', accountPassword = ''x'', accountPermission = ''1''\<rparr>"
  obtain w' where run: "deleteUser account_env [''ID'' \<mapsto> ''4''] Map.empty employee_server = (Inr (), w')" "database w' = []"
    using sample_delete_user by blast
  have "any_order account_env" by (simp add: any_order_def wide_env_simps)
  from account_level_respected [where view = "\<lambda>l. l" and a = ?a and h = deleteUser, OF account_run_stores this _ _ _ run(1)] run(2)
  have "\<exists>i n. [''ID'' \<mapsto> ''4''] ''ID'' = Some i \<and> ''4'' = numeric_affinity i \<and> from_chars 32 ''1'' = Some n \<and>
       verify (req account_env) employee employee_server \<and> verify (req account_env) (authLevel_cast n) employee_server"
    by (simp add: plain_form_def employee_server_def staff_accounts_def)
  with run show ?thesis by blast
qed

text \<open>C36. Permissions in exponent notation escape the check. \<^verbatim>\<open>std::from_chars\<close> reads \<^verbatim>\<open>1e1\<close> as 1 and stops at the
  letter, so that the route compares the level of an employee; the integer column of the table converts
  the same text to 10. So an employee whose session does not reach the level 10 is refused a new account with the
  permission \<^verbatim>\<open>10\<close>, with the status 403 and nothing changed; but with the permission \<^verbatim>\<open>1e1\<close> in the same form, and
  an insertion that SQLite accepts, the call succeeds and the new account has the level 10, which is
  above that of a superuser.\<close>

theorem exponent_escalation:
  assumes "stores_accounts env view affinity literal" and "affinity ''1e1'' = ''10''"
    and "b ''username'' = Some u" and "u \<noteq> []" and "b ''password'' = Some p" and "p \<noteq> []"
    and "verify (req env) employee w" and "\<not> verify (req env) (authLevel_cast 10) w"
    and "query (api env) ''INSERT INTO USERS (ID, USERNAME, PASSWORD, PERMISSIONS) VALUES (NULL, :USR, :PAS, :PER);''
      (iter env [('':USR'', u), ('':PAS'', p), ('':PER'', ''1e1'')]) (database w) = (Inr (c, res), db')" and "isOK c"
  shows "createUser env (b(''permission'' \<mapsto> ''10'')) q w = (Inr (), w\<lparr>reply := reply w @ [WriteStatus FORBIDDEN, End []]\<rparr>) \<and>
    (\<exists>w' a. createUser env (b(''permission'' \<mapsto> ''1e1'')) q w = (Inr (), w') \<and> reply w' = reply w @ [End []] \<and>
      view (database w') = view (database w) @ [a] \<and> accountName a = u \<and> accountPassword a = p \<and>
      from_chars 32 (accountPermission a) = Some 10) \<and> superuser < authLevel_cast 10"
proof (intro conjI)
  show "createUser env (b(''permission'' \<mapsto> ''10'')) q w = (Inr (), w\<lparr>reply := reply w @ [WriteStatus FORBIDDEN, End []]\<rparr>)"
    using assms(3-8) by (simp add: createUser_def running hasElement_def getElement_def exponent_numbers respond_run)
  have one: "authLevel_cast 1 = employee" by (simp add: sample_numbers level_defs)
  obtain n where n: "getSessionID (req env) = Some n" using verify_hasSession [OF assms(7)] by blast
  have ins: "query (api env) addUserSQL (iter env [('':USR'', u), ('':PAS'', p), ('':PER'', ''1e1'')]) (database w) = (Inr (c, res), db')"
    using assms(9) by (simp add: account_statements)
  have row: "\<exists>key. view db' = view (database w) @
      [\<lparr>accountID = key, accountName = u, accountPassword = p, accountPermission = ''10''\<rparr>]"
    using accepted_insertions(2) [OF assms(1,10) ins] assms(2) by simp
  then obtain key where key: "view db' = view (database w) @
      [\<lparr>accountID = key, accountName = u, accountPassword = p, accountPermission = ''10''\<rparr>]" by blast
  have "\<exists>w'. createUser env (b(''permission'' \<mapsto> ''1e1'')) q w = (Inr (), w') \<and> reply w' = reply w @ [End []] \<and> database w' = db'"
    using assms(3-7,10) ins one
    by (simp add: createUser_def running hasElement_def getElement_def exponent_numbers finish_def bind_known seq_coutSession [OF n] emit_run)
  with key show "\<exists>w' a. createUser env (b(''permission'' \<mapsto> ''1e1'')) q w = (Inr (), w') \<and> reply w' = reply w @ [End []] \<and>
      view (database w') = view (database w) @ [a] \<and> accountName a = u \<and> accountPassword a = p \<and>
      from_chars 32 (accountPermission a) = Some 10"
    by (auto simp: exponent_numbers)
  show "superuser < authLevel_cast 10" by (simp add: sample_numbers level_defs)
qed

theorem exponent_escalation_witness:
  "\<exists>w' a. createUser account_env [''username'' \<mapsto> ''eve'', ''password'' \<mapsto> ''y'', ''permission'' \<mapsto> ''1e1''] Map.empty employee_server = (Inr (), w') \<and>
     database w' = staff_accounts @ [a] \<and> accountName a = ''eve'' \<and> from_chars 32 (accountPermission a) = Some 10 \<and>
     \<not> verify (req account_env) (authLevel_cast 10) employee_server"
proof -
  let ?b = "[''username'' \<mapsto> ''eve'', ''password'' \<mapsto> ''y'']"
  have aff: "numeric_affinity ''1e1'' = ''10''" by code_simp
  have levels: "verify (req account_env) employee employee_server" "\<not> verify (req account_env) (authLevel_cast 10) employee_server"
    by (simp_all add: wide_env_simps verify_def manager_request_session employee_server_def sample_numbers level_defs)
  obtain res db' where "query (api account_env) addUserSQL (iter account_env [('':USR'', ''eve''), ('':PAS'', ''y''), ('':PER'', ''1e1'')])
      (database employee_server) = (Inr (\<lparr>errorCode = SQLITE_OK\<rparr>, res), db')"
    using sample_insertion by blast
  from exponent_escalation [OF account_run_stores aff _ _ _ _ levels this [unfolded account_statements], of ?b Map.empty] levels(2)
  show ?thesis by (auto simp: isOK_def employee_server_def)
qed

text \<open>C40. A user who registers cannot log in. When the insertion of a registration succeeds, which it does only for a name
  that is not taken, the table has a new row with the password as it was typed and the permission level 1; but the
  login that follows looks for the transformed password, which differs, so that the route ends with the status 401
  and creates no session. The same form is refused in the same way by the login route later on, whoever sends
  it, as long as the table of accounts stays as it is.\<close>

theorem registered_user_cannot_login:
  assumes "stores_accounts env view affinity literal" and "b ''username'' = Some u" "u \<noteq> []" and "b ''password'' = Some p" "p \<noteq> []"
    and "query (api env) ''INSERT INTO USERS (ID, USERNAME, PASSWORD, PERMISSIONS) VALUES (NULL, :USR, :PAS, 1);''
      (iter env [('':USR'', u), ('':PAS'', p)]) (database w) = (Inr (c, res), db')" and "isOK c"
  shows "\<exists>w' cs key. registerUser env b q w = (Inr (), w') \<and>
    view (database w') = view (database w) @ [\<lparr>accountID = key, accountName = u, accountPassword = p, accountPermission = ''1''\<rparr>] \<and>
    sessions w' = released (req env) (sessions w) \<and> reply w' = reply w @ cs @ [WriteStatus UNAUTHORISED, End []] \<and>
    (\<forall>rq d q v. view (database v) = view (database w') \<longrightarrow> (\<exists>v' cs. authenticate (env\<lparr>req := rq, draws := d\<rparr>) b q v = (Inr (), v') \<and>
      sessions v' = released rq (sessions v) \<and> reply v' = reply v @ cs @ [WriteStatus UNAUTHORISED, End []]))"
proof -
  have ins: "query (api env) registerSQL (iter env [('':USR'', u), ('':PAS'', p)]) (database w) = (Inr (c, res), db')"
    using assms(6) by (simp add: account_statements)
  have "\<exists>key. u \<notin> accountName ` set (view (database w)) \<and> view db' = view (database w) @
      [\<lparr>accountID = key, accountName = u, accountPassword = p, accountPermission = ''1''\<rparr>]"
    by (rule accepted_insertions(1) [OF assms(1,7) ins])
  then obtain key where free: "u \<notin> accountName ` set (view (database w))" and key: "view db' = view (database w) @
      [\<lparr>accountID = key, accountName = u, accountPassword = p, accountPermission = ''1''\<rparr>]" by blast
  let ?w = "w\<lparr>database := db', console := console w @ quoted ''Created new client ('' u\<rparr>"
  have "registerUser env b q w = authenticate env b q ?w"
    using assms(2-5,7) ins by (simp add: registerUser_def hasElement_def getElement_def dbCall_def dbQuery_def bind_def liftE_def seq_def cout_run)
  moreover have none: "accountPassword a \<noteq> hash p" if "a \<in> set (view db')" "accountName a = u" for a
  proof
    assume "accountPassword a = hash p"
    moreover have "a \<notin> set (view (database w))" using that(2) free by auto
    ultimately show False using that(1) hash_neq [OF assms(5)] by (auto simp: key)
  qed
  moreover obtain w' cs where "authenticate env b q ?w = (Inr (), w')" "view (database w') = view db'"
    "sessions w' = released (req env) (sessions w)" "reply w' = reply w @ cs @ [WriteStatus UNAUTHORISED, End []]"
    using login_refused [OF assms(1-5), of ?w q] none by auto
  moreover have "\<exists>v' cs. authenticate (env\<lparr>req := rq, draws := d\<rparr>) b q v = (Inr (), v') \<and>
      sessions v' = released rq (sessions v) \<and> reply v' = reply v @ cs @ [WriteStatus UNAUTHORISED, End []]"
    if "view (database v) = view db'" for rq d q v
    using login_refused [of "env\<lparr>req := rq, draws := d\<rparr>" view affinity literal b u p v q] assms(1-5) none that by auto
  ultimately show ?thesis using key by (intro exI [of _ w'] exI [of _ cs] exI [of _ key]) simp
qed

theorem registered_user_cannot_login_witness:
  "\<exists>w' cs key. registerUser account_env [''username'' \<mapsto> ''eve'', ''password'' \<mapsto> ''y''] Map.empty employee_server = (Inr (), w') \<and>
    database w' = staff_accounts @ [\<lparr>accountID = key, accountName = ''eve'', accountPassword = ''y'', accountPermission = ''1''\<rparr>] \<and>
    reply w' = cs @ [WriteStatus UNAUTHORISED, End []]"
proof -
  obtain res db' where "query (api account_env) registerSQL (iter account_env [('':USR'', ''eve''), ('':PAS'', ''y'')])
      (database employee_server) = (Inr (\<lparr>errorCode = SQLITE_OK\<rparr>, res), db')"
    using sample_registration by blast
  from registered_user_cannot_login [OF account_run_stores _ _ _ _ this [unfolded account_statements],
      of "[''username'' \<mapsto> ''eve'', ''password'' \<mapsto> ''y'']" Map.empty]
  show ?thesis by (auto simp: isOK_def employee_server_def)
qed

end
