(* ===== verification/Catalogue.thy ===== *)
theory Catalogue
  imports Listings
begin

text \<open>
  Suppliers, part groups and parts across requests. The routes of \<^verbatim>\<open>Server/include/WebRoutes/Parts.h\<close> that change
  the tables \<^verbatim>\<open>SUPPLIERS\<close>, \<^verbatim>\<open>PARTGROUPS\<close> and \<^verbatim>\<open>PARTS\<close> of \<^verbatim>\<open>Server/sqlcrt.txt\<close> refine the specification
  \<open>catalogue_move\<close>: only managers change the catalogue, names and keys stay unique, and nothing that was
  entered is ever removed. A part that is created in a group is not in it.
\<close>

section \<open>The tables\<close>

record supplier =
  supplierID :: string
  supplierName :: string
  phoneOf :: string
  emailOf :: string

record part =
  partID :: string
  partName :: string
  quantityOf :: string
  supplierOf :: string
  priceOf :: string
  similarOf :: string

record catalogue =
  suppliers :: "supplier list"
  groups :: "(string \<times> string) list"
  parts :: "part list"

text \<open>What an update makes of a row; \<open>literal\<close> is how SQLite reads a text between double quotation marks.\<close>

definition assignSupplier ::
  "(string \<Rightarrow> string) \<Rightarrow> (supplier \<Rightarrow> string \<Rightarrow> string) \<Rightarrow> (string \<times> string) list \<Rightarrow> supplier \<Rightarrow> supplier" where
  "assignSupplier affinity literal as e = e\<lparr>
     supplierName := (case map_of as ''NAME'' of None \<Rightarrow> supplierName e | Some v \<Rightarrow> literal e v),
     phoneOf := (case map_of as ''PHONE'' of None \<Rightarrow> phoneOf e | Some v \<Rightarrow> affinity (literal e v)),
     emailOf := (case map_of as ''EMAIL'' of None \<Rightarrow> emailOf e | Some v \<Rightarrow> literal e v)\<rparr>"

definition assignPart ::
  "(string \<Rightarrow> string) \<Rightarrow> (part \<Rightarrow> string \<Rightarrow> string) \<Rightarrow> (string \<times> string) list \<Rightarrow> part \<Rightarrow> part" where
  "assignPart affinity literal as p = p\<lparr>
     partName := (case map_of as ''NAME'' of None \<Rightarrow> partName p | Some v \<Rightarrow> literal p v),
     quantityOf := (case map_of as ''QUANTITY'' of None \<Rightarrow> quantityOf p | Some v \<Rightarrow> affinity (literal p v)),
     supplierOf := (case map_of as ''SUPPLIER'' of None \<Rightarrow> supplierOf p | Some v \<Rightarrow> affinity (literal p v)),
     priceOf := (case map_of as ''PRICE'' of None \<Rightarrow> priceOf p | Some v \<Rightarrow> affinity (literal p v)),
     similarOf := (case map_of as ''SIMILAR'' of None \<Rightarrow> similarOf p | Some v \<Rightarrow> affinity (literal p v))\<rparr>"

definition renamed :: "string \<Rightarrow> string \<Rightarrow> string \<times> string \<Rightarrow> string \<times> string" where
  "renamed n r g = (fst g, if snd g = n then r else snd g)"

lemma renamed_key [simp]: "fst (renamed n r g) = fst g" "fst \<circ> renamed n r = fst"
  by (simp_all add: renamed_def fun_eq_iff)

text \<open>A key that SQLite chooses for a new row is a number.\<close>

definition number :: "string \<Rightarrow> bool" where
  "number k \<longleftrightarrow> k \<noteq> [] \<and> list_all is_digit k"

text \<open>
  What SQLite documents of the statements of the six routes, for the tables as \<^verbatim>\<open>sqlcrt.txt\<close> creates them:
  the names of each table are unique after every statement; \<open>affinity\<close> converts what is stored in an
  integer column.
\<close>

definition updates_catalogue ::
  "('db, 'st) env \<Rightarrow> ('db \<Rightarrow> catalogue) \<Rightarrow> (string \<Rightarrow> string) \<Rightarrow> (supplier \<Rightarrow> string \<Rightarrow> string) \<Rightarrow> (part \<Rightarrow> string \<Rightarrow> string) \<Rightarrow> bool" where
  "updates_catalogue env view affinity slit plit \<longleftrightarrow>
     updates env view changeSupplierSQL [''NAME'', ''PHONE'', ''EMAIL''] '':NAM''
       (\<lambda>as n db db'. distinct (map supplierName (suppliers (view db'))) \<and> view db' = (view db)\<lparr>suppliers :=
          map (\<lambda>e. if supplierName e = n then assignSupplier affinity slit as e else e) (suppliers (view db))\<rparr>) \<and>
     updates env view changePartSQL [''NAME'', ''QUANTITY'', ''SUPPLIER'', ''PRICE'', ''SIMILAR''] '':ID''
       (\<lambda>as i db db'. distinct (map partName (parts (view db'))) \<and> view db' = (view db)\<lparr>parts :=
          map (\<lambda>p. if partID p = affinity i then assignPart affinity plit as p else p) (parts (view db))\<rparr>)"

definition stores_catalogue ::
  "('db, 'st) env \<Rightarrow> ('db \<Rightarrow> catalogue) \<Rightarrow> (string \<Rightarrow> string) \<Rightarrow> (supplier \<Rightarrow> string \<Rightarrow> string) \<Rightarrow> (part \<Rightarrow> string \<Rightarrow> string) \<Rightarrow> bool" where
  "stores_catalogue env view affinity slit plit \<longleftrightarrow>
     (\<forall>n p m. effect env view addSupplierSQL [('':NAM'', n), ('':PHO'', p), ('':EMA'', m)] (\<lambda>db res db'.
        \<exists>key. key \<notin> supplierID ` set (suppliers (view db)) \<and> n \<notin> supplierName ` set (suppliers (view db)) \<and>
          view db' = (view db)\<lparr>suppliers := suppliers (view db) @
            [\<lparr>supplierID = key, supplierName = n, phoneOf = affinity p, emailOf = m\<rparr>]\<rparr>)) \<and>
     (\<forall>n. effect env view addGroupSQL [('':NAM'', n)] (\<lambda>db res db'.
        \<exists>key. key \<notin> fst ` set (groups (view db)) \<and> n \<notin> snd ` set (groups (view db)) \<and> number key \<and>
          view db' = (view db)\<lparr>groups := groups (view db) @ [(key, n)]\<rparr>)) \<and>
     (\<forall>n r. effect env view renameGroupSQL [('':NAM'', n), ('':RNM'', r)] (\<lambda>db res db'.
        distinct (map snd (groups (view db'))) \<and>
        view db' = (view db)\<lparr>groups := map (renamed n r) (groups (view db))\<rparr>)) \<and>
     (\<forall>g. effect env view groupByNameSQL [('':GRP'', g)] (\<lambda>db res db'. view db' = view db \<and> colCount res = 1 \<and>
        cells res = map fst (filter (\<lambda>x. snd x = g) (groups (view db))))) \<and>
     (\<forall>n qu su pr si. effect env view addPartSQL [('':NAM'', n), ('':QUA'', qu), ('':SUP'', su), ('':PRI'', pr), ('':SIM'', si)] (\<lambda>db res db'.
        \<exists>key. key \<notin> partID ` set (parts (view db)) \<and> n \<notin> partName ` set (parts (view db)) \<and>
          view db' = (view db)\<lparr>parts := parts (view db) @ [\<lparr>partID = key, partName = n, quantityOf = affinity qu,
            supplierOf = affinity su, priceOf = affinity pr, similarOf = affinity si\<rparr>]\<rparr>)) \<and>
     updates_catalogue env view affinity slit plit"

section \<open>The specification\<close>

text \<open>What a call can do, given whether the caller is a manager, and whether the client is told of a success.\<close>

inductive catalogue_move :: "bool \<Rightarrow> bool \<Rightarrow> catalogue \<Rightarrow> catalogue \<Rightarrow> bool" for isManager where
  new_supplier: "isManager \<Longrightarrow> supplierID e \<notin> supplierID ` set (suppliers c) \<Longrightarrow> supplierName e \<notin> supplierName ` set (suppliers c) \<Longrightarrow>
     catalogue_move isManager True c (c\<lparr>suppliers := suppliers c @ [e]\<rparr>)"
| new_group: "isManager \<Longrightarrow> key \<notin> fst ` set (groups c) \<Longrightarrow> n \<notin> snd ` set (groups c) \<Longrightarrow> number key \<Longrightarrow>
     catalogue_move isManager True c (c\<lparr>groups := groups c @ [(key, n)]\<rparr>)"
| new_part: "isManager \<Longrightarrow> partID p \<notin> partID ` set (parts c) \<Longrightarrow> partName p \<notin> partName ` set (parts c) \<Longrightarrow>
     catalogue_move isManager True c (c\<lparr>parts := parts c @ [p]\<rparr>)"
| change_suppliers: "isManager \<Longrightarrow> map supplierID es = map supplierID (suppliers c) \<Longrightarrow> distinct (map supplierName es) \<Longrightarrow>
     (\<And>x y. (x, y) \<in> set (zip (suppliers c) es) \<Longrightarrow> x \<noteq> y \<Longrightarrow> supplierName x = n) \<Longrightarrow> catalogue_move isManager True c (c\<lparr>suppliers := es\<rparr>)"
| rename_group: "isManager \<Longrightarrow> gs = map (renamed n r) (groups c) \<Longrightarrow> distinct (map snd gs) \<Longrightarrow>
     catalogue_move isManager True c (c\<lparr>groups := gs\<rparr>)"
| change_parts: "isManager \<Longrightarrow> map partID ps = map partID (parts c) \<Longrightarrow> distinct (map partName ps) \<Longrightarrow>
     (\<And>x y. (x, y) \<in> set (zip (parts c) ps) \<Longrightarrow> x \<noteq> y \<Longrightarrow> partID x = i) \<Longrightarrow> catalogue_move isManager True c (c\<lparr>parts := ps\<rparr>)"
| refused: "catalogue_move isManager False c c"

definition catalogue_ok :: "catalogue \<Rightarrow> bool" where
  "catalogue_ok c \<longleftrightarrow> distinct (map supplierID (suppliers c)) \<and> distinct (map supplierName (suppliers c)) \<and>
     distinct (map fst (groups c)) \<and> distinct (map snd (groups c)) \<and> list_all (number \<circ> fst) (groups c) \<and>
     distinct (map partID (parts c)) \<and> distinct (map partName (parts c))"

text \<open>The entries by their keys, in the order in which they were made.\<close>

definition entered :: "catalogue \<Rightarrow> string list \<times> string list \<times> string list" where
  "entered c = (map supplierID (suppliers c), map fst (groups c), map partID (parts c))"

definition extends :: "catalogue \<Rightarrow> catalogue \<Rightarrow> bool" where
  "extends c c' \<longleftrightarrow> (\<exists>ss gs ps. entered c' = (map supplierID (suppliers c) @ ss, map fst (groups c) @ gs, map partID (parts c) @ ps))"

lemma move_ok: "catalogue_move m ok c c' \<Longrightarrow> catalogue_ok c \<Longrightarrow> catalogue_ok c'"
  by (induction rule: catalogue_move.induct) (auto simp: catalogue_ok_def split_def list_all_iff o_def)

lemma move_extends: "catalogue_move m ok c c' \<Longrightarrow> extends c c'"
  by (induction rule: catalogue_move.induct) (auto simp: extends_def entered_def split_def o_def)

lemma extends_trans: "extends a b \<Longrightarrow> extends b c \<Longrightarrow> extends a c"
  by (auto simp: extends_def entered_def)

lemma extends_refl: "extends c c"
  by (simp add: extends_def entered_def)

interpretation catalogue: moves "\<lambda>ok c c'. \<exists>m. catalogue_move m ok c c'" "\<lambda>c. catalogue_ok c \<and> extends start c" for start
  by unfold_locales (blast intro: move_ok move_extends extends_trans)

section \<open>The routes refine it\<close>

lemma catalogue_effects:
  assumes "stores_catalogue env view aff slit plit"
  shows "call_effect env view addSupplierSQL [('':NAM'', n), ('':PHO'', p), ('':EMA'', m)] (\<lambda>vs db res db'.
        \<exists>key. key \<notin> supplierID ` set (suppliers (view db)) \<and> projr n \<notin> supplierName ` set (suppliers (view db)) \<and>
          view db' = (view db)\<lparr>suppliers := suppliers (view db) @
            [\<lparr>supplierID = key, supplierName = projr n, phoneOf = aff (projr p), emailOf = projr m\<rparr>]\<rparr>)"
    and "call_effect env view addGroupSQL [('':NAM'', n)] (\<lambda>vs db res db'.
        \<exists>key. key \<notin> fst ` set (groups (view db)) \<and> projr n \<notin> snd ` set (groups (view db)) \<and> number key \<and>
          view db' = (view db)\<lparr>groups := groups (view db) @ [(key, projr n)]\<rparr>)"
    and "call_effect env view renameGroupSQL [('':NAM'', n), ('':RNM'', r)] (\<lambda>vs db res db'. distinct (map snd (groups (view db'))) \<and>
        view db' = (view db)\<lparr>groups := map (renamed (projr n) (projr r)) (groups (view db))\<rparr>)"
    and "call_effect env view groupByNameSQL [('':GRP'', g)] (\<lambda>vs db res db'. view db' = view db \<and> colCount res = 1 \<and>
        cells res = map fst (filter (\<lambda>x. snd x = projr g) (groups (view db))))"
    and "call_effect env view addPartSQL [('':NAM'', n), ('':QUA'', qu), ('':SUP'', su), ('':PRI'', pr), ('':SIM'', si)] (\<lambda>vs db res db'.
        \<exists>key. key \<notin> partID ` set (parts (view db)) \<and> projr n \<notin> partName ` set (parts (view db)) \<and>
          view db' = (view db)\<lparr>parts := parts (view db) @ [\<lparr>partID = key, partName = projr n, quantityOf = aff (projr qu),
            supplierOf = aff (projr su), priceOf = aff (projr pr), similarOf = aff (projr si)\<rparr>]\<rparr>)"
  using assms by (auto simp: call_effect_def stores_catalogue_def bindE_eq_Inr)

lemma new_supplier_move:
  "m \<Longrightarrow> key \<notin> supplierID ` set (suppliers c) \<Longrightarrow> n \<notin> supplierName ` set (suppliers c) \<Longrightarrow> catalogue_move m True c
     (c\<lparr>suppliers := suppliers c @ [\<lparr>supplierID = key, supplierName = n, phoneOf = p, emailOf = e\<rparr>]\<rparr>)"
  by (rule catalogue_move.new_supplier) simp_all

lemma new_part_move:
  "m \<Longrightarrow> key \<notin> partID ` set (parts c) \<Longrightarrow> n \<notin> partName ` set (parts c) \<Longrightarrow> catalogue_move m True c (c\<lparr>parts := parts c @
     [\<lparr>partID = key, partName = n, quantityOf = qu, supplierOf = su, priceOf = pr, similarOf = si\<rparr>]\<rparr>)"
  by (rule catalogue_move.new_part) simp_all

lemma change_suppliers_move:
  assumes "m" "distinct (map supplierName (map (\<lambda>e. if supplierName e = n then assignSupplier aff lit as e else e) (suppliers c)))"
  shows "catalogue_move m True c (c\<lparr>suppliers := map (\<lambda>e. if supplierName e = n then assignSupplier aff lit as e else e) (suppliers c)\<rparr>)"
  by (rule catalogue_move.change_suppliers [where n = n])
    (use assms in \<open>auto simp: assignSupplier_def zip_map2 zip_same_conv_map split: if_splits\<close>)

lemma rename_group_move:
  assumes "m" "distinct (map snd (map (renamed n r) (groups c)))"
  shows "catalogue_move m True c (c\<lparr>groups := map (renamed n r) (groups c)\<rparr>)"
  by (rule catalogue_move.rename_group [OF assms(1) refl assms(2)])

lemma change_parts_move:
  assumes "m" "distinct (map partName (map (\<lambda>p. if partID p = i then assignPart aff lit as p else p) (parts c)))"
  shows "catalogue_move m True c (c\<lparr>parts := map (\<lambda>p. if partID p = i then assignPart aff lit as p else p) (parts c)\<rparr>)"
  by (rule catalogue_move.change_parts [where i = i])
    (use assms in \<open>auto simp: assignPart_def zip_map2 zip_same_conv_map split: if_splits\<close>)

lemmas catalogue_moves = catalogue_move.refused new_supplier_move catalogue_move.new_group new_part_move
  change_suppliers_move rename_group_move change_parts_move

text \<open>The form values that reach an update statement.\<close>

definition plain_updates :: "queryBase \<Rightarrow> bool" where
  "plain_updates b = plain_form b [''rename'', ''phone'', ''email'', ''name'', ''quantity'', ''supplier'', ''price'', ''group'']"

lemma insertion_moves:
  assumes "stores_catalogue env view aff slit plit"
  shows "h \<in> {createSupplier, createPartGroup, updatePartGroup, createPart} \<Longrightarrow> ensures (h env b q) w (\<lambda>r w'.
    catalogue_move (verify (req env) manager w) (succeeded w r w') (view (database w)) (view (database w')))"
  unfolding createSupplier_def createPartGroup_def updatePartGroup_def createPart_def Let_def
  by (elim insertE emptyE; hypsubst; intro stepping catalogue_effects [OF assms, THEN ensures_dbCall])
    (auto simp: succeeded_def params_Cons dest: verify_hasSession intro!: catalogue_moves
      simp del: params.simps(2) containsAll.simps anyEmpty.simps)

lemma update_moves:
  assumes "stores_catalogue env view aff slit plit" "any_order env" "plain_updates b"
  shows "h \<in> {updateSupplier, updatePart} \<Longrightarrow> ensures (h env b q) w (\<lambda>r w'.
    catalogue_move (verify (req env) manager w) (succeeded w r w') (view (database w)) (view (database w')))"
proof -
  have up: "updates_catalogue env view aff slit plit" using assms(1) by (simp add: stores_catalogue_def)
  note up = up [unfolded updates_catalogue_def]
  show "h \<in> {updateSupplier, updatePart} \<Longrightarrow> ?thesis"
    unfolding updateSupplier_def updatePart_def generateUpdateStatement_eq bind_known
    by (elim insertE emptyE; hypsubst; intro stepping ensures_update [OF up [THEN conjunct1] assms(2)] ensures_update [OF up [THEN conjunct2] assms(2)])
      (use assms(3) in \<open>auto simp: succeeded_def params_Cons plain_updates_def plain_form_def dest: verify_hasSession intro!: catalogue_moves
      simp del: params.simps(2) anyEmpty.simps\<close>)
qed

section \<open>Histories\<close>

definition catalogue_routes :: "('db, 'st) handler set" where
  "catalogue_routes = {createSupplier, updateSupplier, createPartGroup, updatePartGroup, createPart, updatePart}"

lemma catalogue_route_move:
  assumes "stores_catalogue env view aff slit plit" "any_order env" "h \<in> {updateSupplier, updatePart} \<longrightarrow> plain_updates b"
    "h \<in> catalogue_routes" "h env b q w = (r, w')"
  shows "catalogue_move (verify (req env) manager w) (succeeded w r w') (view (database w)) (view (database w'))"
proof -
  have "ensures (h env b q) w (\<lambda>r w'. catalogue_move (verify (req env) manager w) (succeeded w r w') (view (database w)) (view (database w')))"
    using assms(3,4) insertion_moves [OF assms(1)] update_moves [OF assms(1,2)] unfolding catalogue_routes_def by blast
  then show ?thesis using assms(5) by (rule ensuresD)
qed

text \<open>A call of one of the six routes by any client, or anything that leaves the three tables alone. The two routes
  that put form values into the text of an update are called with values that contain no quotation marks; the
  other four bind their values.\<close>

inductive catalogue_event :: "('db, 'st) env \<Rightarrow> ('db \<Rightarrow> catalogue) \<Rightarrow> bool \<Rightarrow> 'db \<Rightarrow> 'db \<Rightarrow> bool" for env view where
  "h \<in> catalogue_routes \<Longrightarrow> (h \<in> {updateSupplier, updatePart} \<longrightarrow> plain_updates b) \<Longrightarrow> h (env\<lparr>req := rq\<rparr>) b q w = (r, w') \<Longrightarrow>
     catalogue_event env view (succeeded w r w') (database w) (database w')"
| "view db' = view db \<Longrightarrow> catalogue_event env view ok db db'"

lemma stores_catalogue_req [simp]: "stores_catalogue (env\<lparr>req := rq\<rparr>) view aff slit plit = stores_catalogue env view aff slit plit"
  by (simp add: stores_catalogue_def updates_catalogue_def)

lemma catalogue_event_move:
  assumes "stores_catalogue env view aff slit plit" "any_order env" "catalogue_event env view ok db db'"
  shows "(\<exists>m. catalogue_move m ok (view db) (view db')) \<or> view db' = view db"
  using assms(3)
proof cases
  case (1 h b rq q w r w')
  have "stores_catalogue (env\<lparr>req := rq\<rparr>) view aff slit plit" "any_order (env\<lparr>req := rq\<rparr>)" using assms(1,2) by simp_all
  from catalogue_route_move [OF this 1(5,4,6)] show ?thesis unfolding 1 by blast
qed simp

section \<open>The parts of a group\<close>

text \<open>The rows by which \<^verbatim>\<open>searchParts\<close> lists the parts of a group, in any order: the outer join leaves no part
  without a group in the result, because the condition compares the number of the group.\<close>

definition partsOfGroup :: "catalogue \<Rightarrow> string \<Rightarrow> string list list" where
  "partsOfGroup c i = concat (map (\<lambda>p. concat (map (\<lambda>(key, n). concat (map (\<lambda>s.
     if similarOf p = key \<and> key = i \<and> supplierOf p = supplierID s
     then [[partID p, partName p, priceOf p, quantityOf p, supplierName s, key]] else []) (suppliers c))) (groups c))) (parts c))"

abbreviation groupSearchSQL :: string where
  "groupSearchSQL \<equiv> findPartsSQL '' G.ID = :ID''"

definition lists_parts :: "('db, 'st) env \<Rightarrow> ('db \<Rightarrow> catalogue) \<Rightarrow> (string \<Rightarrow> string) \<Rightarrow> bool" where
  "lists_parts env view affinity \<longleftrightarrow> (\<forall>i. outcome env groupSearchSQL [('':ID'', i)] (\<lambda>c db res db'. view db' = view db \<and>
     isOK c \<and> (\<exists>rows. tabular 6 rows res \<and> mset rows = mset (partsOfGroup (view db) (affinity i)))))"

lemma lists_parts_req [simp]: "lists_parts (env\<lparr>req := rq\<rparr>) view aff = lists_parts env view aff"
  by (simp add: lists_parts_def)

lemma partsOfGroup_ungrouped:
  assumes "similarOf p \<notin> fst ` set (groups c)"
  shows "partsOfGroup (c\<lparr>parts := parts c @ [p]\<rparr>) i = partsOfGroup c i"
  using assms by (force simp: partsOfGroup_def)

lemma group_search:
  assumes "lists_parts env view aff" "verify (req env) employee w" "q = [''group'' \<mapsto> i]" "i \<noteq> []"
    and "partsOfGroup (view (database w)) (aff i) \<noteq> []" "list_all row_ok (partsOfGroup (view (database w)) (aff i))"
  shows "\<exists>w' s rows. searchParts env b q w = (Inr (), w') \<and> reply w' = reply w @ [TryEnd s] \<and>
    fromData s = Inr (Some (listed ''Parts'' True partNames rows)) \<and> mset rows = mset (partsOfGroup (view (database w)) (aff i))"
proof -
  have q: "searchTerm q = '' G.ID = :ID''" "params (searchVals q) = Inr [('':ID'', i)]" "hasElement q ''group'' True"
    using assms(4) by (simp_all add: assms(3) searchTerm_def searchVals_def hasElement_def getElement_def)
  from assms(1) obtain c res db' rows where
    r: "query (api env) groupSearchSQL (iter env [('':ID'', i)]) (database w) = (Inr (c, res), db')" "isOK c" "tabular 6 rows res"
    and m: "mset rows = mset (partsOfGroup (view (database w)) (aff i))"
    unfolding lists_parts_def outcome_def by blast
  have "rows \<noteq> []" "list_all row_ok rows"
    using m assms(5,6) mset_eq_setD [OF m] by (auto simp: list_all_iff)
  from searchParts.rows_answered [OF _ assms(2) q(2) _ r(2,3) this, of db' b] r(1) q(1,3) m show ?thesis
    by (auto simp: listed_norm)
qed

text \<open>What is stored for a new part.\<close>

lemma createPart_stores:
  assumes "stores_catalogue env view aff slit plit" "b ''group'' = Some g" "g \<noteq> []" "b ''name'' = Some n"
  shows "ensures (createPart env b q) w (\<lambda>r w'. succeeded w r w' \<longrightarrow> g \<in> snd ` set (groups (view (database w))) \<and>
    (\<exists>key qu su pr. view (database w') = (view (database w))\<lparr>parts := parts (view (database w)) @ [\<lparr>partID = key, partName = n,
       quantityOf = qu, supplierOf = su, priceOf = pr, similarOf = aff ''NULL''\<rparr>]\<rparr>))"
  unfolding createPart_def Let_def
  by (intro stepping catalogue_effects [OF assms(1), THEN ensures_dbCall])
    (auto simp: succeeded_def getElement_def hasElement_def assms(2-4) rowCount_def length_Suc_conv filter_eq_Cons_iff params_Cons
      dest: verify_hasSession simp del: params.simps(2) containsAll.simps anyEmpty.simps split: if_splits)

section \<open>A connection with these tables\<close>

abbreviation supplierCols :: "string list" where "supplierCols \<equiv> [''NAME'', ''PHONE'', ''EMAIL'']"
abbreviation partCols :: "string list" where "partCols \<equiv> [''NAME'', ''QUANTITY'', ''SUPPLIER'', ''PRICE'', ''SIMILAR'']"

definition supplierLiteral :: "supplier \<Rightarrow> string \<Rightarrow> string" where
  "supplierLiteral e v = (if v = ''ID'' then supplierID e else if v = ''NAME'' then supplierName e else if v = ''PHONE'' then phoneOf e
     else if v = ''EMAIL'' then emailOf e else v)"

definition partLiteral :: "part \<Rightarrow> string \<Rightarrow> string" where
  "partLiteral p v = (if v = ''ID'' then partID p else if v = ''NAME'' then partName p else if v = ''QUANTITY'' then quantityOf p
     else if v = ''SUPPLIER'' then supplierOf p else if v = ''PRICE'' then priceOf p else if v = ''SIMILAR'' then similarOf p else v)"

definition catalogue_run :: "string \<Rightarrow> string list \<Rightarrow> catalogue \<Rightarrow> int \<times> string list list \<times> catalogue" where
  "catalogue_run SQL vals c =
     (let skey = to_string (Suc (length (suppliers c))); gkey = to_string (Suc (length (groups c)));
          pkey = to_string (Suc (length (parts c))); i = integer_affinity (vals ! 0)
      in if SQL = addSupplierSQL then
           (if skey \<in> supplierID ` set (suppliers c) \<or> vals ! 0 \<in> supplierName ` set (suppliers c) then (19, [], c)
            else (SQLITE_DONE, [], c\<lparr>suppliers := suppliers c @
              [\<lparr>supplierID = skey, supplierName = vals ! 0, phoneOf = integer_affinity (vals ! 1), emailOf = vals ! 2\<rparr>]\<rparr>))
         else if SQL = addGroupSQL then
           (if gkey \<in> fst ` set (groups c) \<or> vals ! 0 \<in> snd ` set (groups c) then (19, [], c)
            else (SQLITE_DONE, [], c\<lparr>groups := groups c @ [(gkey, vals ! 0)]\<rparr>))
         else if SQL = renameGroupSQL then
           (let gs = map (renamed (vals ! 0) (vals ! 1)) (groups c)
            in if distinct (map snd gs) then (SQLITE_DONE, [], c\<lparr>groups := gs\<rparr>) else (19, [], c))
         else if SQL = groupByNameSQL then (SQLITE_DONE, map (\<lambda>x. [fst x]) (filter (\<lambda>x. snd x = vals ! 0) (groups c)), c)
         else if SQL = addPartSQL then
           (if pkey \<in> partID ` set (parts c) \<or> vals ! 0 \<in> partName ` set (parts c) then (19, [], c)
            else (SQLITE_DONE, [], c\<lparr>parts := parts c @ [\<lparr>partID = pkey, partName = vals ! 0, quantityOf = integer_affinity (vals ! 1),
              supplierOf = integer_affinity (vals ! 2), priceOf = integer_affinity (vals ! 3), similarOf = integer_affinity (vals ! 4)\<rparr>]\<rparr>))
         else if SQL = groupSearchSQL then (SQLITE_DONE, partsOfGroup c i, c)
         else if take 10 SQL = ''UPDATE SUP'' then
           (let es = map (\<lambda>e. if supplierName e = vals ! 0 then assignSupplier integer_affinity supplierLiteral (decode supplierCols SQL) e else e) (suppliers c)
            in if distinct (map supplierName es) then (SQLITE_DONE, [], c\<lparr>suppliers := es\<rparr>) else (19, [], c))
         else if take 10 SQL = ''UPDATE PAR'' then
           (let ps = map (\<lambda>p. if partID p = i then assignPart integer_affinity partLiteral (decode partCols SQL) p else p) (parts c)
            in if distinct (map partName ps) then (SQLITE_DONE, [], c\<lparr>parts := ps\<rparr>) else (19, [], c))
         else (SQLITE_DONE, [], c))"

definition catalogue_width :: "string \<Rightarrow> nat" where
  "catalogue_width SQL = (if SQL = groupSearchSQL then 6 else 1)"

abbreviation catalogue_env :: "(catalogue, table_stmt) env" where
  "catalogue_env \<equiv> wide_env catalogue_run catalogue_width"

lemma catalogue_texts_distinct:
  "distinct [addSupplierSQL, addGroupSQL, renameGroupSQL, groupByNameSQL, addPartSQL, groupSearchSQL]"
  by (simp add: part_texts)

lemmas catalogue_text_neq = catalogue_texts_distinct [simplified]
  catalogue_texts_distinct [THEN distinct_rev [THEN iffD2], simplified]

lemma catalogue_text_less [simplified, simp]:
  "length addSupplierSQL < 2 ^ 31" "length addGroupSQL < 2 ^ 31" "length renameGroupSQL < 2 ^ 31" "length groupByNameSQL < 2 ^ 31"
  "length addPartSQL < 2 ^ 31" "length groupSearchSQL < 2 ^ 31"
  by (simp_all add: part_texts)

lemma changeSupplier_neq:
  "changeSupplierSQL s \<noteq> addSupplierSQL" "changeSupplierSQL s \<noteq> addGroupSQL" "changeSupplierSQL s \<noteq> renameGroupSQL"
  "changeSupplierSQL s \<noteq> groupByNameSQL" "changeSupplierSQL s \<noteq> addPartSQL" "changeSupplierSQL s \<noteq> groupSearchSQL"
  "take 10 (changeSupplierSQL s) = ''UPDATE SUP''"
  by (simp_all add: part_texts)

lemma changePart_neq:
  "changePartSQL s \<noteq> addSupplierSQL" "changePartSQL s \<noteq> addGroupSQL" "changePartSQL s \<noteq> renameGroupSQL"
  "changePartSQL s \<noteq> groupByNameSQL" "changePartSQL s \<noteq> addPartSQL" "changePartSQL s \<noteq> groupSearchSQL"
  "take 10 (changePartSQL s) = ''UPDATE PAR''"
  by (simp_all add: part_texts)

lemma partsOfGroup_width: "list_all (\<lambda>row. length row = 6) (partsOfGroup c i)"
  by (auto simp: partsOfGroup_def list_all_iff)

lemma catalogue_run_columns: "columns (catalogue_width SQL) (catalogue_run SQL vals c)"
  using partsOfGroup_width
  by (auto simp: columns_def catalogue_width_def catalogue_run_def Let_def sqlite_codes list_all_iff catalogue_text_neq
      split: if_splits)

lemma catalogue_updates: "updates_catalogue catalogue_env (\<lambda>c. c) integer_affinity supplierLiteral partLiteral"
  unfolding updates_catalogue_def
proof
  show "updates catalogue_env (\<lambda>c. c) changeSupplierSQL supplierCols '':NAM'' (\<lambda>as n db db'. distinct (map supplierName (suppliers db')) \<and>
      db' = db\<lparr>suppliers := map (\<lambda>e. if supplierName e = n then assignSupplier integer_affinity supplierLiteral as e else e) (suppliers db)\<rparr>)"
  proof (rule wide_env_updates)
    show "QUOTE \<notin> set (''UPDATE '' @ tableNames SUPPLIERS @ '' SET '') \<and> QUOTE \<notin> set '' WHERE NAME = :NAM'' \<and>
        changeSupplierSQL s = (''UPDATE '' @ tableNames SUPPLIERS @ '' SET '') @ s @ '' WHERE NAME = :NAM''" for s
      by (simp add: changeSupplierSQL_def)
    show "columnBefore supplierCols (s @ c @ '' = '') = c \<and> QUOTE \<notin> set c" if "c \<in> set supplierCols" for c s
      using that by (intro conjI column_found) auto
    show "columns (catalogue_width (changeSupplierSQL s)) (catalogue_run (changeSupplierSQL s) vals db)" for s vals db
      by (rule catalogue_run_columns)
  qed (auto simp: catalogue_run_def changeSupplier_neq sqlite_codes Let_def split: if_splits)
next
  show "updates catalogue_env (\<lambda>c. c) changePartSQL partCols '':ID'' (\<lambda>as i db db'. distinct (map partName (parts db')) \<and>
      db' = db\<lparr>parts := map (\<lambda>p. if partID p = integer_affinity i then assignPart integer_affinity partLiteral as p else p) (parts db)\<rparr>)"
  proof (rule wide_env_updates)
    show "QUOTE \<notin> set (''UPDATE '' @ tableNames PARTS @ '' SET '') \<and> QUOTE \<notin> set '' WHERE ID = :ID'' \<and>
        changePartSQL s = (''UPDATE '' @ tableNames PARTS @ '' SET '') @ s @ '' WHERE ID = :ID''" for s
      by (simp add: changePartSQL_def)
    show "columnBefore partCols (s @ c @ '' = '') = c \<and> QUOTE \<notin> set c" if "c \<in> set partCols" for c s
      using that by (intro conjI column_found) auto
    show "columns (catalogue_width (changePartSQL s)) (catalogue_run (changePartSQL s) vals db)" for s vals db
      by (rule catalogue_run_columns)
  qed (auto simp: catalogue_run_def changePart_neq sqlite_codes Let_def split: if_splits)
qed

lemma catalogue_run_stores: "stores_catalogue catalogue_env (\<lambda>c. c) integer_affinity supplierLiteral partLiteral"
  unfolding stores_catalogue_def
  by (intro conjI allI catalogue_updates; intro wide_env_effect catalogue_run_columns)
    (auto simp: catalogue_run_def catalogue_text_neq catalogue_width_def sqlite_codes Let_def concat_singletons number_def
      to_string_digits list_all_iff)

lemma catalogue_run_lists: "lists_parts catalogue_env (\<lambda>c. c) integer_affinity"
  unfolding lists_parts_def
proof
  show "outcome catalogue_env groupSearchSQL [('':ID'', i)] (\<lambda>c db res db'. db' = db \<and> isOK c \<and>
      (\<exists>rows. tabular 6 rows res \<and> mset rows = mset (partsOfGroup db (integer_affinity i))))" for i
    by (intro wide_env_outcome catalogue_run_columns)
      (use partsOfGroup_width in \<open>auto simp: catalogue_run_def catalogue_text_neq catalogue_width_def tabular_def Let_def isOK_def sqlite_codes
        intro!: exI [of _ "partsOfGroup _ _"]\<close>)
qed

lemma catalogue_any_order: "any_order catalogue_env"
  by (simp add: any_order_def wide_env_simps)

definition one_part :: catalogue where
  "one_part = \<lparr>suppliers = [\<lparr>supplierID = ''1'', supplierName = ''acme'', phoneOf = ''5'', emailOf = ''a''\<rparr>], groups = [(''1'', ''tyres'')],
     parts = [\<lparr>partID = ''1'', partName = ''wheel'', quantityOf = ''4'', supplierOf = ''1'', priceOf = ''9'', similarOf = ''1''\<rparr>]\<rparr>"

abbreviation tube_form :: queryBase where
  "tube_form \<equiv> [''name'' \<mapsto> ''tube'', ''quantity'' \<mapsto> ''2'', ''supplier'' \<mapsto> ''1'', ''price'' \<mapsto> ''3'', ''group'' \<mapsto> ''tyres'']"

lemma one_part_ok: "catalogue_ok one_part"
  by (simp add: catalogue_ok_def one_part_def number_def is_digit_def)

lemma null_affinity: "integer_affinity ''NULL'' = ''NULL''"
  by (simp add: integer_affinity_def is_digit_def)

lemma tube_plain: "h \<in> {updateSupplier, updatePart} \<longrightarrow> plain_updates tube_form"
  by (simp add: plain_updates_def plain_form_def plain_def)

lemmas catalogue_query = wide_env_query [where run = catalogue_run and width = catalogue_width, OF _ catalogue_run_columns]

lemma sample_tube:
  "\<exists>w'. createPart catalogue_env tube_form Map.empty (manager_server one_part) = (Inr (), w') \<and>
     parts (database w') = parts one_part @ [\<lparr>partID = ''2'', partName = ''tube'', quantityOf = integer_affinity ''2'', supplierOf = ''1'',
       priceOf = integer_affinity ''3'', similarOf = ''NULL''\<rparr>] \<and>
     groups (database w') = groups one_part \<and> suppliers (database w') = suppliers one_part \<and>
     sessions w' = sessions (manager_server one_part) \<and> reply w' = [End []]"
  by (simp add: createPart_def running bind_known wide_env_simps catalogue_query catalogue_run_def catalogue_text_neq catalogue_width_def
      one_part_def manager_server_def getElement_def hasElement_def manager_request_session verify_def rowCount_def finish_def emit_run
      isOK_def sqlite_codes small_numbers(2) [unfolded numeral_2_eq_2] null_affinity affinity_1 Let_def)

section \<open>Properties\<close>

text \<open>C14. The six routes that change the catalogue refine the specification. Whoever calls, with whatever form, and
  whichever statement fails, a call enters one supplier, group or part under a new key and a new name,
  changes the named supplier, group or part, or changes nothing; the client is told of a success exactly in
  the first two cases, and they need the session of a manager. For the two routes that
  update suppliers and parts, the values in the form contain no quotation marks.\<close>

theorem catalogue_routes_refine:
  assumes "stores_catalogue env view affinity slit plit" and "any_order env" and "h \<in> {updateSupplier, updatePart} \<longrightarrow> plain_updates b"
    and "h \<in> catalogue_routes" and "h env b q w = (r, w')"
  shows "catalogue_move (verify (req env) manager w) (succeeded w r w') (view (database w)) (view (database w'))"
  using assms by (rule catalogue_route_move)

theorem catalogue_routes_refine_witness:
  "\<exists>w'. createPart catalogue_env tube_form Map.empty (manager_server one_part) = (Inr (), w') \<and>
     catalogue_move True True one_part (database w') \<and> length (parts (database w')) = 2"
proof -
  obtain w' where w': "createPart catalogue_env tube_form Map.empty (manager_server one_part) = (Inr (), w')" "reply w' = [End []]"
    "length (parts (database w')) = 2" using sample_tube by (force simp: one_part_def)
  from catalogue_routes_refine [where h = createPart, OF catalogue_run_stores catalogue_any_order tube_plain _ w'(1)] w' show ?thesis
    by (auto simp: catalogue_routes_def succeeded_def manager_server_def verify_def wide_env_simps manager_request_session)
qed

text \<open>C16. The catalogue only grows, as long as no form breaks out of its quotation marks. In every history of calls of
  the six routes by any clients, with any failures, in which the forms sent to the two routes that update
  suppliers and parts contain no quotation marks in the values, interleaved with anything that leaves the three tables
  alone, the names and keys of suppliers, groups and parts stay unique, and what was entered is still there,
  under the same keys and in the same order: parts that services refer to do not disappear. (A value such as
  \<^verbatim>\<open>x", ID = "7\<close> would become part of the statement and change a key.)\<close>

theorem catalogue_grows:
  assumes "stores_catalogue env view affinity slit plit" and "any_order env" and "catalogue_ok (view db)"
    and "(\<lambda>db db'. \<exists>ok. catalogue_event env view ok db db')\<^sup>*\<^sup>* db db'"
  shows "catalogue_ok (view db') \<and>
    (\<exists>ss gs ps. map supplierID (suppliers (view db')) = map supplierID (suppliers (view db)) @ ss \<and>
      map fst (groups (view db')) = map fst (groups (view db)) @ gs \<and> map partID (parts (view db')) = map partID (parts (view db)) @ ps)"
proof -
  have "catalogue_ok (view db') \<and> extends (view db) (view db')"
    using assms(3) extends_refl by (intro catalogue.history_inv [where view = view, OF assms(4) catalogue_event_move [OF assms(1,2)]]) blast+
  then show ?thesis by (simp add: extends_def entered_def)
qed

theorem catalogue_grows_witness:
  "\<exists>c. (\<lambda>c c'. \<exists>ok. catalogue_event catalogue_env (\<lambda>c. c) ok c c')\<^sup>*\<^sup>* one_part c \<and> length (parts c) = 2 \<and> catalogue_ok c \<and>
     (\<exists>ps. map partID (parts c) = ''1'' # ps)"
proof -
  obtain w' where w': "createPart catalogue_env tube_form Map.empty (manager_server one_part) = (Inr (), w')"
    "length (parts (database w')) = 2" using sample_tube by (force simp: one_part_def)
  have "catalogue_event catalogue_env (\<lambda>c. c) (succeeded (manager_server one_part) (Inr ()) w') one_part (database w')"
    using catalogue_event.intros(1) [where env = catalogue_env and rq = manager_request and h = createPart, unfolded wide_env_simps, OF _ tube_plain w'(1)]
    by (simp add: catalogue_routes_def manager_server_def)
  then have h: "(\<lambda>c c'. \<exists>ok. catalogue_event catalogue_env (\<lambda>c. c) ok c c')\<^sup>*\<^sup>* one_part (database w')" by blast
  from catalogue_grows [OF catalogue_run_stores catalogue_any_order one_part_ok h] h w'(2) show ?thesis
    by (intro exI [of _ "database w'"]) (auto simp: one_part_def)
qed

text \<open>C37. A part that is created in a group is not in it. \<^verbatim>\<open>createPart\<close> looks the group of the form up and insists that
  it exists, but stores the text \<^verbatim>\<open>NULL\<close> for it. After a creation that reports its success, a search for the
  parts of any group still finds exactly what it found before.\<close>

theorem created_part_not_in_group:
  assumes "stores_catalogue env view affinity slit plit" and "lists_parts env view affinity" and "affinity ''NULL'' = ''NULL''"
    and "catalogue_ok (view (database w))" and "b ''group'' = Some g" and "g \<noteq> []" and "b ''name'' = Some n"
    and "createPart env b q w = (r, w')" and "succeeded w r w'"
    and "verify rq employee w'" and "i \<noteq> []" and "partsOfGroup (view (database w)) (affinity i) \<noteq> []"
    and "list_all row_ok (partsOfGroup (view (database w)) (affinity i))"
  shows "g \<in> snd ` set (groups (view (database w'))) \<and> n \<in> partName ` set (parts (view (database w'))) \<and>
    (\<exists>w'' s rows. searchParts (env\<lparr>req := rq\<rparr>) Map.empty [''group'' \<mapsto> i] w' = (Inr (), w'') \<and> reply w'' = reply w' @ [TryEnd s] \<and>
      fromData s = Inr (Some (listed ''Parts'' True partNames rows)) \<and> mset rows = mset (partsOfGroup (view (database w)) (affinity i)))"
proof -
  from ensuresD [OF createPart_stores [OF assms(1,5-7)] assms(8)] assms(3,9)
  obtain p where p: "g \<in> snd ` set (groups (view (database w)))" "partName p = n" "similarOf p = ''NULL''"
    "view (database w') = (view (database w))\<lparr>parts := parts (view (database w)) @ [p]\<rparr>" by force
  have "''NULL'' \<notin> fst ` set (groups (view (database w)))"
    using assms(4) by (force simp: catalogue_ok_def list_all_iff number_def is_digit_def)
  with p have same: "partsOfGroup (view (database w')) j = partsOfGroup (view (database w)) j" for j
    by (simp add: partsOfGroup_ungrouped)
  have "lists_parts (env\<lparr>req := rq\<rparr>) view affinity" "verify (req (env\<lparr>req := rq\<rparr>)) employee w'" using assms(2,10) by simp_all
  note search = group_search [OF this refl assms(11), unfolded same, OF assms(12,13)]
  from p have "g \<in> snd ` set (groups (view (database w')))" "n \<in> partName ` set (parts (view (database w')))" by simp_all
  with search show ?thesis by blast
qed

theorem created_part_not_in_group_witness:
  "\<exists>w' w'' s rows. createPart catalogue_env tube_form Map.empty (manager_server one_part) = (Inr (), w') \<and>
     ''tube'' \<in> partName ` set (parts (database w')) \<and>
     searchParts catalogue_env Map.empty [''group'' \<mapsto> ''1''] w' = (Inr (), w'') \<and> reply w'' = [End [], TryEnd s] \<and>
     fromData s = Inr (Some (listed ''Parts'' True partNames rows)) \<and> mset rows = mset [[''1'', ''wheel'', ''9'', ''4'', ''acme'', ''1'']]"
proof -
  obtain w' where w': "createPart catalogue_env tube_form Map.empty (manager_server one_part) = (Inr (), w')"
    "sessions w' = sessions (manager_server one_part)" "reply w' = [End []]" using sample_tube by blast
  have s: "succeeded (manager_server one_part) (Inr ()) w'" using w' by (simp add: succeeded_def manager_server_def)
  have v: "verify manager_request employee w'"
    using w'(2) by (simp add: verify_def manager_request_session manager_server_def level_defs)
  have p: "partsOfGroup one_part (integer_affinity ''1'') = [[''1'', ''wheel'', ''9'', ''4'', ''acme'', ''1'']]"
    by (simp add: partsOfGroup_def one_part_def affinity_1)
  from created_part_not_in_group [where b = tube_form, OF catalogue_run_stores catalogue_run_lists null_affinity _ _ _ _ w'(1) s v, of "''tyres''" "''tube''" "''1''"]
  show ?thesis using w'(1,3) p one_part_ok
    by (auto simp: manager_server_def row_ok_def value_ok_def wide_env_simps)
qed

end
