(* ===== verification/Handles.thy ===== *)
theory Handles
  imports Prelude
begin

text \<open>
  The classes that own a handle of a C library: \<^verbatim>\<open>curlwrapper\<close> and \<^verbatim>\<open>requestWrapper\<close>
  (\<^verbatim>\<open>Translator/include/Curl.h\<close>) and \<^verbatim>\<open>sqlite3DB\<close> (\<^verbatim>\<open>Server/include/Database.h\<close>). The store maps an object to the
  pointer it holds (\<open>None\<close> is the null pointer); handles are numbered in the order in which the library
  gave them out, and the clean-up calls are recorded. The special member functions are operations on
  the store, their use is a step relation, and the theory shows that every handle is released exactly
  once.
\<close>

section \<open>The store\<close>

record handles =
  objs :: "nat \<rightharpoonup> nat option"
  opened :: nat
  released_calls :: "nat list"

definition no_handles :: handles where
  "no_handles = \<lparr>objs = Map.empty, opened = 0, released_calls = []\<rparr>"

definition pointer :: "nat \<Rightarrow> handles \<Rightarrow> nat option" where
  "pointer x s = (case objs s x of None \<Rightarrow> None | Some p \<Rightarrow> p)"

definition setPointer :: "nat \<Rightarrow> nat option \<Rightarrow> handles \<Rightarrow> handles" where
  "setPointer x p s = s\<lparr>objs := (objs s)(x \<mapsto> p)\<rparr>"

definition endLifetime :: "nat \<Rightarrow> handles \<Rightarrow> handles" where
  "endLifetime x s = s\<lparr>objs := (objs s)(x := None)\<rparr>"

definition cleanup :: "nat \<Rightarrow> handles \<Rightarrow> handles" where
  "cleanup h s = s\<lparr>released_calls := released_calls s @ [h]\<rparr>"

section \<open>The wrapper of libcurl\<close>

definition curl_tidy :: "nat \<Rightarrow> handles \<Rightarrow> handles" where
  "curl_tidy x s = (case pointer x s of None \<Rightarrow> s | Some h \<Rightarrow> setPointer x None (cleanup h s))"

text \<open>The constructor; \<open>ok\<close> says whether \<^verbatim>\<open>curl_easy_init\<close> gives a handle.\<close>

definition curl_new :: "nat \<Rightarrow> bool \<Rightarrow> handles \<Rightarrow> handles" where
  "curl_new x ok s =
     (if ok then setPointer x (Some (opened s)) (s\<lparr>opened := Suc (opened s)\<rparr>) else setPointer x None s)"

definition curl_move_new :: "nat \<Rightarrow> nat \<Rightarrow> handles \<Rightarrow> handles" where
  "curl_move_new x y s = setPointer y None (setPointer x (pointer y s) s)"

definition curl_move_assign :: "nat \<Rightarrow> nat \<Rightarrow> handles \<Rightarrow> handles" where
  "curl_move_assign x y s =
     (let s = curl_tidy x s in setPointer y None (setPointer x (pointer y s) s))"

definition curl_delete :: "nat \<Rightarrow> handles \<Rightarrow> handles" where
  "curl_delete x s = endLifetime x (curl_tidy x s)"

text \<open>The constructor \<^verbatim>\<open>requestWrapper(URL)\<close> makes a handle for its member, lets \<^verbatim>\<open>bind\<close> make another one (the
  object \<open>tmp\<close>) and moves that into the member; the move constructor makes a handle before it takes the
  one of the other object.\<close>

definition request_new :: "nat \<Rightarrow> nat \<Rightarrow> bool \<Rightarrow> bool \<Rightarrow> handles \<Rightarrow> handles" where
  "request_new x tmp ok ok' s =
     curl_delete tmp (curl_move_assign x tmp (curl_new tmp ok' (curl_new x ok s)))"

definition request_move_new :: "nat \<Rightarrow> nat \<Rightarrow> bool \<Rightarrow> handles \<Rightarrow> handles" where
  "request_move_new x y ok s = curl_move_assign x y (curl_new x ok s)"

inductive curl_step :: "handles \<Rightarrow> handles \<Rightarrow> bool" where
  new: "objs s x = None \<Longrightarrow> curl_step s (curl_new x ok s)"
| move_new: "objs s x = None \<Longrightarrow> objs s y \<noteq> None \<Longrightarrow> curl_step s (curl_move_new x y s)"
| move_assign: "objs s x \<noteq> None \<Longrightarrow> objs s y \<noteq> None \<Longrightarrow> curl_step s (curl_move_assign x y s)"
| delete: "objs s x \<noteq> None \<Longrightarrow> curl_step s (curl_delete x s)"

section \<open>The wrapper of SQLite\<close>

text \<open>\<^verbatim>\<open>sqlite3_open\<close> makes a connection object even when it fails; the constructor then forgets it.\<close>

definition db_new :: "nat \<Rightarrow> bool \<Rightarrow> handles \<Rightarrow> handles" where
  "db_new x ok s = setPointer x (if ok then Some (opened s) else None) (s\<lparr>opened := Suc (opened s)\<rparr>)"

definition db_move_new :: "nat \<Rightarrow> nat \<Rightarrow> handles \<Rightarrow> handles" where
  "db_move_new x y s = setPointer y None (setPointer x (pointer y s) s)"

definition db_move_assign :: "nat \<Rightarrow> nat \<Rightarrow> handles \<Rightarrow> handles" where
  "db_move_assign x y s = setPointer y (pointer x s) (setPointer x (pointer y s) s)"

definition db_delete :: "nat \<Rightarrow> handles \<Rightarrow> handles" where
  "db_delete x s = endLifetime x (case pointer x s of None \<Rightarrow> s | Some h \<Rightarrow> cleanup h s)"

text \<open>Steps in which every database opens.\<close>

inductive db_step :: "handles \<Rightarrow> handles \<Rightarrow> bool" where
  new: "objs s x = None \<Longrightarrow> db_step s (db_new x True s)"
| move_new: "objs s x = None \<Longrightarrow> objs s y \<noteq> None \<Longrightarrow> db_step s (db_move_new x y s)"
| move_assign: "objs s x \<noteq> None \<Longrightarrow> objs s y \<noteq> None \<Longrightarrow> db_step s (db_move_assign x y s)"
| delete: "objs s x \<noteq> None \<Longrightarrow> db_step s (db_delete x s)"

inductive_cases curl_stepE: "curl_step s t"
inductive_cases db_stepE: "db_step s t"

section \<open>Ownership\<close>

definition owns :: "handles \<Rightarrow> nat \<Rightarrow> nat \<Rightarrow> bool" where
  "owns s x h \<longleftrightarrow> objs s x = Some (Some h)"

definition owned :: "handles \<Rightarrow> bool" where
  "owned s \<longleftrightarrow>
     distinct (released_calls s) \<and> set (released_calls s) \<subseteq> {..<opened s} \<and>
     (\<forall>h. h < opened s \<and> h \<notin> set (released_calls s) \<longleftrightarrow> (\<exists>x. owns s x h)) \<and>
     (\<forall>x y h. owns s x h \<and> owns s y h \<longrightarrow> x = y)"

lemmas store_defs = owns_def pointer_def setPointer_def endLifetime_def cleanup_def

lemma owned_start: "owned no_handles"
  by (simp add: owned_def no_handles_def store_defs)

text \<open>The elementary changes that keep ownership: a new handle for an object without one, taking a handle
  over, releasing the handle of an object, and what concerns null pointers only.\<close>

lemma ownedI:
  assumes "distinct (released_calls s)" "set (released_calls s) \<subseteq> {..<opened s}"
    and "\<And>h. h < opened s \<Longrightarrow> h \<notin> set (released_calls s) \<Longrightarrow> \<exists>x. owns s x h"
    and "\<And>x h. owns s x h \<Longrightarrow> h < opened s \<and> h \<notin> set (released_calls s)"
    and "\<And>x y h. owns s x h \<Longrightarrow> owns s y h \<Longrightarrow> x = y"
  shows "owned s"
  using assms unfolding owned_def by blast

lemma ownedD:
  assumes "owned s"
  shows "distinct (released_calls s)" "set (released_calls s) \<subseteq> {..<opened s}"
    and "h < opened s \<Longrightarrow> h \<notin> set (released_calls s) \<Longrightarrow> \<exists>x. owns s x h"
    and "owns s x h \<Longrightarrow> h < opened s \<and> h \<notin> set (released_calls s)"
    and "owns s x h \<Longrightarrow> owns s y h \<Longrightarrow> x = y"
  using assms unfolding owned_def by blast+

lemma pointer_owns: "pointer x s = Some h \<longleftrightarrow> owns s x h"
  by (simp add: pointer_def owns_def split: option.split)

lemma no_owner: "pointer x s = None \<Longrightarrow> \<not> owns s x h"
  by (auto simp flip: pointer_owns)

lemma fresh_pointer: "objs s x = None \<Longrightarrow> pointer x s = None"
  by (simp add: pointer_def)

lemma owns_unique: "owns s x h \<Longrightarrow> owns s x k \<Longrightarrow> h = k"
  by (simp add: owns_def)

lemma owns_setPointer: "owns (setPointer x p s) z h \<longleftrightarrow> (if z = x then p = Some h else owns s z h)"
  by (simp add: owns_def setPointer_def)

lemma owns_endLifetime: "owns (endLifetime x s) z h \<longleftrightarrow> z \<noteq> x \<and> owns s z h"
  by (simp add: owns_def endLifetime_def)

lemma store_fields [simp]:
  "opened (setPointer x p s) = opened s" "released_calls (setPointer x p s) = released_calls s"
  "opened (endLifetime x s) = opened s" "released_calls (endLifetime x s) = released_calls s"
  "opened (cleanup h s) = opened s" "released_calls (cleanup h s) = released_calls s @ [h]"
  "owns (cleanup h s) = owns s" "owns (s\<lparr>opened := n\<rparr>) = owns s"
  by (simp_all add: setPointer_def endLifetime_def cleanup_def owns_def fun_eq_iff)

text \<open>A change of the store that only renames the owners keeps ownership.\<close>

lemma owned_rename:
  assumes "owned s" "opened t = opened s" "released_calls t = released_calls s"
    and "\<And>x h. owns t x h \<longleftrightarrow> owns s (f x) h" "inj_on f {x. \<exists>h. owns s (f x) h}" "\<And>x h. owns s x h \<Longrightarrow> x \<in> range f"
  shows "owned t"
proof (rule ownedI)
  fix x y h assume "owns t x h" "owns t y h"
  then have "owns s (f x) h" "owns s (f y) h" using assms(4) by auto
  moreover from this have "f x = f y" using ownedD(5) [OF assms(1)] by blast
  ultimately show "x = y" using inj_onD [OF assms(5), of x y] by auto
next
  fix h assume "h < opened t" "h \<notin> set (released_calls t)"
  then obtain x where "owns s x h" using ownedD(3) [OF assms(1)] assms(2,3) by metis
  with assms(4,6) show "\<exists>x. owns t x h" by (metis rangeE)
qed (use assms(2-4) ownedD [OF assms(1)] in auto)

lemma owned_give:
  assumes "owned s" "pointer x s = None"
  shows "owned (setPointer x (Some (opened s)) (s\<lparr>opened := Suc (opened s)\<rparr>))"
proof -
  note n = no_owner [OF assms(2)]
  note o = ownedD [OF assms(1)]
  show ?thesis
  proof (rule ownedI)
    fix h assume "h < opened (setPointer x (Some (opened s)) (s\<lparr>opened := Suc (opened s)\<rparr>))"
      "h \<notin> set (released_calls (setPointer x (Some (opened s)) (s\<lparr>opened := Suc (opened s)\<rparr>)))"
    then show "\<exists>z. owns (setPointer x (Some (opened s)) (s\<lparr>opened := Suc (opened s)\<rparr>)) z h"
      using o(3) [of h] n unfolding owns_setPointer by (cases "h = opened s") (auto, metis)
  qed (use o n in \<open>auto simp: owns_setPointer less_Suc_eq split: if_splits\<close>)
qed

lemma owned_release:
  assumes "owned s" "owns s x h" "\<And>z k. owns t z k \<longleftrightarrow> z \<noteq> x \<and> owns s z k"
    and "opened t = opened s" "released_calls t = released_calls s @ [h]"
  shows "owned t"
proof -
  note o = ownedD [OF assms(1)]
  show ?thesis
  proof (rule ownedI)
    fix k assume "k < opened t" "k \<notin> set (released_calls t)"
    then obtain z where "owns s z k" "k \<noteq> h" using o(3) [of k] assms(4,5) by auto
    with assms(2,3) show "\<exists>z. owns t z k" by (metis owns_unique)
  next
    fix z k assume "owns t z k"
    then have "z \<noteq> x" "owns s z k" using assms(3) by auto
    moreover from this have "k \<noteq> h" using o(5) assms(2) by blast
    ultimately show "k < opened t \<and> k \<notin> set (released_calls t)" using o(4) [of z k] assms(4,5) by auto
  qed (use o(1,2,5) o(4) [OF assms(2)] assms(3-5) in auto)
qed

lemma owned_null:
  assumes "owned s" "\<And>z k. owns t z k \<longleftrightarrow> owns s z k" "opened t = opened s" "released_calls t = released_calls s"
  shows "owned t"
  using owned_rename [of s t id] assms by simp

lemma owned_tidy:
  assumes "owned s"
  shows "owned (curl_tidy x s)" "pointer x (curl_tidy x s) = None"
proof -
  show "owned (curl_tidy x s)"
  proof (cases "pointer x s")
    case (Some h)
    then have "owns s x h" by (simp add: pointer_owns)
    then have "owned (setPointer x None (cleanup h s))"
      by (rule owned_release [OF assms]) (auto simp: owns_setPointer)
    with Some show ?thesis by (simp add: curl_tidy_def)
  qed (simp add: curl_tidy_def assms)
  show "pointer x (curl_tidy x s) = None"
    by (auto simp: curl_tidy_def pointer_def setPointer_def split: option.split)
qed

text \<open>Moving and exchanging handles rename the owners.\<close>

definition swapped :: "nat \<Rightarrow> nat \<Rightarrow> nat \<Rightarrow> nat" where
  "swapped x y z = (if z = x then y else if z = y then x else z)"

lemma inj_swapped: "inj_on (swapped x y) A"
  by (auto simp: inj_on_def swapped_def split: if_splits)

lemma range_swapped: "z \<in> range (swapped x y)"
  by (rule range_eqI [of _ _ "swapped x y z"]) (simp add: swapped_def)

lemma owned_swapped:
  assumes "owned s" "\<And>z h. owns t z h \<longleftrightarrow> owns s (swapped x y z) h"
    and "opened t = opened s" "released_calls t = released_calls s"
  shows "owned t"
  using assms by (intro owned_rename [of s t "swapped x y"]) (auto simp: inj_swapped range_swapped)

lemma owned_take:
  assumes "owned s" "pointer x s = None"
  shows "owned (setPointer y None (setPointer x (pointer y s) s))"
proof -
  show ?thesis
    using no_owner [OF assms(2)]
    by (intro owned_swapped [OF assms(1), of _ x y]) (auto simp: owns_setPointer pointer_owns swapped_def)
qed

lemma owned_end: "owned s \<Longrightarrow> pointer x s = None \<Longrightarrow> owned (endLifetime x s)"
  by (rule owned_null) (auto simp: owns_endLifetime dest: no_owner)

lemma owned_set_null: "owned s \<Longrightarrow> pointer x s = None \<Longrightarrow> owned (setPointer x None s)"
  by (rule owned_null) (auto simp: owns_setPointer dest: no_owner)

lemma owned_swap: "owned s \<Longrightarrow> owned (db_move_assign x y s)"
  by (rule owned_swapped [of s _ x y]) (auto simp: db_move_assign_def owns_setPointer pointer_owns swapped_def)

lemma curl_step_owned: "owned s \<Longrightarrow> curl_step s t \<Longrightarrow> owned t"
proof (erule curl_stepE, goal_cases)
  case (1 x ok)
  then have n: "pointer x s = None" by (simp add: fresh_pointer)
  with 1 show ?case by (simp add: curl_new_def owned_give owned_set_null)
next
  case (2 x y)
  then show ?case by (simp add: curl_move_new_def owned_take fresh_pointer)
next
  case (3 x y)
  then show ?case by (simp add: curl_move_assign_def Let_def owned_take owned_tidy)
next
  case (4 x)
  then show ?case by (simp add: curl_delete_def owned_end owned_tidy)
qed

lemma db_step_owned: "owned s \<Longrightarrow> db_step s t \<Longrightarrow> owned t"
proof (erule db_stepE, goal_cases)
  case (1 x)
  then show ?case by (simp add: db_new_def owned_give fresh_pointer)
next
  case (2 x y)
  then show ?case by (simp add: db_move_new_def owned_take fresh_pointer)
next
  case (3 x y)
  then show ?case by (simp add: owned_swap)
next
  case (4 x)
  then show ?case
    by (cases "pointer x s")
      (auto simp: db_delete_def owned_end owns_endLifetime pointer_owns intro: owned_release [of s x])
qed

section \<open>The interface\<close>

text \<open>What a user of an owning class relies on.\<close>

locale owning_class =
  fixes step :: "handles \<Rightarrow> handles \<Rightarrow> bool"
  assumes step_owned: "owned s \<Longrightarrow> step s t \<Longrightarrow> owned t"
begin

lemma reachable_owned: "step\<^sup>*\<^sup>* no_handles s \<Longrightarrow> owned s"
  by (induction rule: rtranclp_induct) (auto intro: owned_start step_owned)

lemma released_once:
  assumes "step\<^sup>*\<^sup>* no_handles s"
  shows "distinct (released_calls s)"
    and "h < opened s \<Longrightarrow> h \<in> set (released_calls s) \<or> (\<exists>!x. owns s x h)"
    and "owns s x h \<Longrightarrow> h \<notin> set (released_calls s)"
    and "dom (objs s) = {} \<Longrightarrow> set (released_calls s) = {..<opened s}"
proof -
  note o = ownedD [OF reachable_owned [OF assms]]
  show "distinct (released_calls s)" by (rule o(1))
  show "h < opened s \<Longrightarrow> h \<in> set (released_calls s) \<or> (\<exists>!x. owns s x h)" using o(3,5) by blast
  show "owns s x h \<Longrightarrow> h \<notin> set (released_calls s)" using o(4) by blast
  show "dom (objs s) = {} \<Longrightarrow> set (released_calls s) = {..<opened s}"
    using o(2,3) by (auto simp: owns_def)
qed

end

interpretation curl: owning_class curl_step
  by unfold_locales (rule curl_step_owned)

interpretation db: owning_class db_step
  by unfold_locales (rule db_step_owned)

text \<open>The members of \<^verbatim>\<open>requestWrapper\<close> are made of these steps.\<close>

lemma request_steps:
  assumes "objs s x = None"
  shows "objs s tmp = None \<Longrightarrow> x \<noteq> tmp \<Longrightarrow> curl_step\<^sup>*\<^sup>* s (request_new x tmp ok ok' s)"
    and "objs s y \<noteq> None \<Longrightarrow> x \<noteq> y \<Longrightarrow> curl_step\<^sup>*\<^sup>* s (request_move_new x y ok s)"
proof -
  let ?a = "curl_new x ok s"
  have a: "curl_step s ?a" "objs ?a = (objs s)(x \<mapsto> pointer x ?a)"
    using assms by (simp add: curl_step.new, auto simp: curl_new_def setPointer_def pointer_def fun_eq_iff)
  show "curl_step\<^sup>*\<^sup>* s (request_move_new x y ok s)" if "objs s y \<noteq> None" "x \<noteq> y"
  proof -
    have "curl_step ?a (curl_move_assign x y ?a)" using a(2) that by (intro curl_step.move_assign) auto
    with a(1) show ?thesis unfolding request_move_new_def by auto
  qed
  show "curl_step\<^sup>*\<^sup>* s (request_new x tmp ok ok' s)" if t: "objs s tmp = None" "x \<noteq> tmp"
  proof -
    let ?b = "curl_new tmp ok' ?a"
    let ?c = "curl_move_assign x tmp ?b"
    have "curl_step ?a ?b" using a t by (intro curl_step.new) auto
    moreover have "curl_step ?b ?c"
      using a t by (intro curl_step.move_assign) (auto simp: curl_new_def setPointer_def)
    moreover have "curl_step ?c (curl_delete tmp ?c)"
      by (intro curl_step.delete) (auto simp: curl_move_assign_def setPointer_def Let_def)
    ultimately show ?thesis
      using a(1) unfolding request_new_def by (auto intro: converse_rtranclp_into_rtranclp)
  qed
qed

section \<open>Properties\<close>

text \<open>C25. Handles of libcurl and of SQLite are released exactly once. However objects of the owning classes
  are constructed, moved, assigned (an object to itself included) and destroyed, no handle is released
  twice and none is used after its release: each handle is either released or held by exactly one
  object, and when no object is left all of them have been released. For databases this supposes that
  every one of them could be opened.\<close>

theorem handles_released_once:
  assumes "curl_step\<^sup>*\<^sup>* no_handles s \<or> db_step\<^sup>*\<^sup>* no_handles s"
  shows "distinct (released_calls s) \<and>
    (\<forall>h < opened s. h \<in> set (released_calls s) \<or> (\<exists>!x. owns s x h)) \<and>
    (\<forall>x h. owns s x h \<longrightarrow> h \<notin> set (released_calls s)) \<and>
    (dom (objs s) = {} \<longrightarrow> set (released_calls s) = {..<opened s})"
  using assms
proof
  assume "curl_step\<^sup>*\<^sup>* no_handles s"
  from curl.released_once [OF this] show ?thesis by blast
next
  assume "db_step\<^sup>*\<^sup>* no_handles s"
  from db.released_once [OF this] show ?thesis by blast
qed

text \<open>A request that is made, moved into a callback, and destroyed there.\<close>

definition sample_handles :: handles where
  "sample_handles =
     curl_delete 2 (curl_delete 0 (request_move_new 2 0 True (request_new 0 1 True True no_handles)))"

lemmas handle_ops = sample_handles_def request_new_def request_move_new_def curl_delete_def curl_move_assign_def
  curl_tidy_def curl_new_def no_handles_def setPointer_def pointer_def cleanup_def endLifetime_def Let_def

lemma sample_handles_reached: "curl_step\<^sup>*\<^sup>* no_handles sample_handles"
proof -
  let ?a = "request_new 0 1 True True no_handles"
  let ?b = "request_move_new 2 0 True ?a"
  have "curl_step\<^sup>*\<^sup>* no_handles ?a" by (rule request_steps) (simp_all add: no_handles_def)
  also have "curl_step\<^sup>*\<^sup>* ?a ?b" by (rule request_steps) (simp_all add: handle_ops)
  also have "curl_step ?b (curl_delete 0 ?b)" by (rule curl_step.delete) (simp add: handle_ops)
  also have "curl_step (curl_delete 0 ?b) sample_handles"
    unfolding sample_handles_def by (rule curl_step.delete) (simp add: handle_ops)
  finally show ?thesis .
qed

theorem handles_released_once_witness:
  "distinct (released_calls sample_handles) \<and> set (released_calls sample_handles) = {..<3}"
proof -
  have "dom (objs sample_handles) = {}" "opened sample_handles = 3"
    by (simp_all add: handle_ops)
  with handles_released_once [of sample_handles] sample_handles_reached show ?thesis by auto
qed

text \<open>A database that fails to open keeps its connection object for ever.\<close>

lemma failed_open_leaks:
  "let s = db_delete 0 (db_new 0 False no_handles)
   in dom (objs s) = {} \<and> opened s = 1 \<and> released_calls s = []"
  by (simp add: db_delete_def db_new_def no_handles_def setPointer_def pointer_def endLifetime_def)

end
