(* ===== verification/Transfers.thy ===== *)
theory Transfers
  imports Handles
begin

text \<open>
  The class \<^verbatim>\<open>multicurlwrapper\<close> (\<^verbatim>\<open>Translator/include/Curl.h\<close>): a multi handle of libcurl and the vector of the
  \<^verbatim>\<open>curlwrapper\<close> objects whose transfers it runs. The objects in the vector live in the store of
  \<open>Handles\<close>; the state adds what libcurl knows, namely which easy handles are joined to which multi handle,
  and \<open>misused\<close> records a call that its documentation forbids: releasing an easy handle that is still
  joined, or a multi handle to which one is joined.
\<close>

section \<open>The class\<close>

record multi =
  object :: "nat option"
  curls :: "nat list"

record transfers =
  wrappers :: "nat \<rightharpoonup> multi"
  easy :: handles
  joined :: "(nat \<times> nat) list"
  multis :: nat
  cleaned :: "nat list"
  misused :: bool

definition no_transfers :: transfers where
  "no_transfers = \<lparr>wrappers = Map.empty, easy = no_handles, joined = [], multis = 0, cleaned = [], misused = False\<rparr>"

text \<open>The calls of libcurl; a null pointer makes them fail without an effect.\<close>

definition curl_multi_add_handle :: "nat option \<Rightarrow> nat option \<Rightarrow> transfers \<Rightarrow> transfers" where
  "curl_multi_add_handle m h s =
     (case m of None \<Rightarrow> s | Some m \<Rightarrow> (case h of None \<Rightarrow> s | Some h \<Rightarrow> s\<lparr>joined := (m, h) # joined s\<rparr>))"

definition curl_multi_remove_handle :: "nat \<Rightarrow> nat option \<Rightarrow> transfers \<Rightarrow> transfers" where
  "curl_multi_remove_handle m h s = (case h of None \<Rightarrow> s | Some h \<Rightarrow> s\<lparr>joined := removeAll (m, h) (joined s)\<rparr>)"

definition curl_multi_cleanup :: "nat \<Rightarrow> transfers \<Rightarrow> transfers" where
  "curl_multi_cleanup m s = s\<lparr>misused := misused s \<or> m \<in> fst ` set (joined s), cleaned := cleaned s @ [m]\<rparr>"

text \<open>The destruction of an element of the vector.\<close>

definition destroy :: "nat \<Rightarrow> transfers \<Rightarrow> transfers" where
  "destroy z s = s\<lparr>misused := misused s \<or> (\<exists>h. pointer z (easy s) = Some h \<and> h \<in> snd ` set (joined s)),
     easy := curl_delete z (easy s)\<rparr>"

definition setMulti :: "nat \<Rightarrow> multi \<Rightarrow> transfers \<Rightarrow> transfers" where
  "setMulti x w s = s\<lparr>wrappers := (wrappers s)(x \<mapsto> w)\<rparr>"

definition the_multi :: "nat \<Rightarrow> transfers \<Rightarrow> multi" where
  "the_multi x s = (case wrappers s x of None \<Rightarrow> \<lparr>object = None, curls = []\<rparr> | Some w \<Rightarrow> w)"

text \<open>\<^verbatim>\<open>tidy\<close> leaves the pointer as it was.\<close>

definition multi_tidy :: "nat \<Rightarrow> transfers \<Rightarrow> transfers" where
  "multi_tidy x s = (let w = the_multi x s in case object w of None \<Rightarrow> s | Some m \<Rightarrow>
     let s = fold (\<lambda>i s. curl_multi_remove_handle m (pointer i (easy s)) s) (curls w) s;
         s = setMulti x (w\<lparr>curls := []\<rparr>) (fold destroy (curls w) s)
     in curl_multi_cleanup m s)"

text \<open>The constructor; \<open>ok\<close> says whether \<^verbatim>\<open>curl_multi_init\<close> gives a handle.\<close>

definition multi_new :: "nat \<Rightarrow> bool \<Rightarrow> transfers \<Rightarrow> transfers" where
  "multi_new x ok s = (if ok then setMulti x \<lparr>object = Some (multis s), curls = []\<rparr> (s\<lparr>multis := Suc (multis s)\<rparr>)
     else setMulti x \<lparr>object = None, curls = []\<rparr> s)"

definition multi_move_new :: "nat \<Rightarrow> nat \<Rightarrow> transfers \<Rightarrow> transfers" where
  "multi_move_new x y s = setMulti y \<lparr>object = None, curls = []\<rparr> (setMulti x (the_multi y s) s)"

text \<open>The move assignment has no \<^verbatim>\<open>return\<close> statement, and running off its end is undefined.\<close>

definition multi_move_assign :: "nat \<Rightarrow> nat \<Rightarrow> (transfers, unit) prog" where
  "multi_move_assign x y =
     seq (modify (\<lambda>s. let s = multi_tidy x s in setMulti y \<lparr>object = None, curls = []\<rparr> (setMulti x (the_multi y s) s)))
         (liftE (Inl Undefined_behaviour))"

text \<open>The destructor: \<^verbatim>\<open>tidy\<close>, and then the members.\<close>

definition multi_delete :: "nat \<Rightarrow> transfers \<Rightarrow> transfers" where
  "multi_delete x s = (let s = multi_tidy x s; s = fold destroy (curls (the_multi x s)) s
     in s\<lparr>wrappers := (wrappers s)(x := None)\<rparr>)"

text \<open>\<^verbatim>\<open>add\<close> moves the object \<open>y\<close> into a new element \<open>z\<close>. When the vector grows its elements move too, which their
  move constructor makes without a trace; the model keeps their names.\<close>

definition multi_add :: "nat \<Rightarrow> nat \<Rightarrow> nat \<Rightarrow> transfers \<Rightarrow> transfers" where
  "multi_add x y z s = (let w = the_multi x s;
      s = setMulti x (w\<lparr>curls := curls w @ [z]\<rparr>) (s\<lparr>easy := curl_move_new z y (easy s)\<rparr>)
    in curl_multi_add_handle (object w) (pointer z (easy s)) s)"

text \<open>\<^verbatim>\<open>perform\<close>: the loop ends when no transfer is running, which may never happen.\<close>

partial_function (option) multi_perform :: "('c \<Rightarrow> int \<times> 'c) \<Rightarrow> 'c \<Rightarrow> 'c option" where
  "multi_perform curl_multi_perform c =
     (case curl_multi_perform c of (connections, c) \<Rightarrow>
        if connections \<noteq> 0 then multi_perform curl_multi_perform c else Some c)"

section \<open>Its use\<close>

text \<open>The steps of a program with such objects. What it does with other \<^verbatim>\<open>curlwrapper\<close> objects leaves the
  elements of the vectors alone.\<close>

definition elements :: "transfers \<Rightarrow> nat set" where
  "elements s = (\<Union>w \<in> ran (wrappers s). set (curls w))"

inductive transfer_step :: "transfers \<Rightarrow> transfers \<Rightarrow> bool" where
  new: "wrappers s x = None \<Longrightarrow> transfer_step s (multi_new x ok s)"
| move_new: "wrappers s x = None \<Longrightarrow> wrappers s y \<noteq> None \<Longrightarrow> transfer_step s (multi_move_new x y s)"
| add: "wrappers s x \<noteq> None \<Longrightarrow> objs (easy s) y \<noteq> None \<Longrightarrow> y \<notin> elements s \<Longrightarrow> objs (easy s) z = None \<Longrightarrow>
    transfer_step s (multi_add x y z s)"
| delete: "wrappers s x \<noteq> None \<Longrightarrow> transfer_step s (multi_delete x s)"
| other: "curl_step (easy s) e \<Longrightarrow> (\<And>z. z \<in> elements s \<Longrightarrow> objs e z = objs (easy s) z) \<Longrightarrow> transfer_step s (s\<lparr>easy := e\<rparr>)"

section \<open>The invariant\<close>

definition multis_ok :: "transfers \<Rightarrow> bool" where
  "multis_ok s \<longleftrightarrow> distinct (cleaned s) \<and> set (cleaned s) \<subseteq> {..<multis s} \<and>
     (\<forall>m < multis s. m \<in> set (cleaned s) \<or> (\<exists>x w. wrappers s x = Some w \<and> object w = Some m)) \<and>
     (\<forall>x w m. wrappers s x = Some w \<longrightarrow> object w = Some m \<longrightarrow> m < multis s \<and> m \<notin> set (cleaned s)) \<and>
     (\<forall>x y w v m. wrappers s x = Some w \<longrightarrow> wrappers s y = Some v \<longrightarrow> object w = Some m \<longrightarrow> object v = Some m \<longrightarrow> x = y)"

definition elements_ok :: "transfers \<Rightarrow> bool" where
  "elements_ok s \<longleftrightarrow>
     (\<forall>x w. wrappers s x = Some w \<longrightarrow> distinct (curls w) \<and> (\<forall>z \<in> set (curls w). objs (easy s) z \<noteq> None)) \<and>
     (\<forall>x y w v z. wrappers s x = Some w \<longrightarrow> wrappers s y = Some v \<longrightarrow> z \<in> set (curls w) \<longrightarrow> z \<in> set (curls v) \<longrightarrow> x = y)"

definition joined_ok :: "transfers \<Rightarrow> bool" where
  "joined_ok s \<longleftrightarrow> (\<forall>m h. (m, h) \<in> set (joined s) \<longrightarrow>
     (\<exists>x w z. wrappers s x = Some w \<and> object w = Some m \<and> z \<in> set (curls w) \<and> owns (easy s) z h))"

definition transfers_ok :: "transfers \<Rightarrow> bool" where
  "transfers_ok s \<longleftrightarrow> owned (easy s) \<and> \<not> misused s \<and> multis_ok s \<and> elements_ok s \<and> joined_ok s"

lemma multis_okI:
  assumes "distinct (cleaned s)" "set (cleaned s) \<subseteq> {..<multis s}"
    and "\<And>m. m < multis s \<Longrightarrow> m \<notin> set (cleaned s) \<Longrightarrow> \<exists>x w. wrappers s x = Some w \<and> object w = Some m"
    and "\<And>x w m. wrappers s x = Some w \<Longrightarrow> object w = Some m \<Longrightarrow> m < multis s \<and> m \<notin> set (cleaned s)"
    and "\<And>x y w v m. wrappers s x = Some w \<Longrightarrow> wrappers s y = Some v \<Longrightarrow> object w = Some m \<Longrightarrow> object v = Some m \<Longrightarrow> x = y"
  shows "multis_ok s"
  unfolding multis_ok_def by (intro conjI allI impI) (use assms in blast)+

lemma multis_okD:
  assumes "multis_ok s"
  shows "distinct (cleaned s)" "set (cleaned s) \<subseteq> {..<multis s}"
    and "m < multis s \<Longrightarrow> m \<notin> set (cleaned s) \<Longrightarrow> \<exists>x w. wrappers s x = Some w \<and> object w = Some m"
    and "wrappers s x = Some w \<Longrightarrow> object w = Some m \<Longrightarrow> m < multis s \<and> m \<notin> set (cleaned s)"
    and "wrappers s x = Some w \<Longrightarrow> wrappers s y = Some v \<Longrightarrow> object w = Some m \<Longrightarrow> object v = Some m \<Longrightarrow> x = y"
  using assms unfolding multis_ok_def by blast+

lemma elements_okI:
  assumes "\<And>x w. wrappers s x = Some w \<Longrightarrow> distinct (curls w)"
    and "\<And>x w z. wrappers s x = Some w \<Longrightarrow> z \<in> set (curls w) \<Longrightarrow> objs (easy s) z \<noteq> None"
    and "\<And>x y w v z. wrappers s x = Some w \<Longrightarrow> wrappers s y = Some v \<Longrightarrow> z \<in> set (curls w) \<Longrightarrow> z \<in> set (curls v) \<Longrightarrow> x = y"
  shows "elements_ok s"
  unfolding elements_ok_def by (intro conjI allI impI ballI) (use assms in blast)+

lemma elements_okD:
  assumes "elements_ok s"
  shows "wrappers s x = Some w \<Longrightarrow> distinct (curls w)"
    and "wrappers s x = Some w \<Longrightarrow> z \<in> set (curls w) \<Longrightarrow> objs (easy s) z \<noteq> None"
    and "wrappers s x = Some w \<Longrightarrow> wrappers s y = Some v \<Longrightarrow> z \<in> set (curls w) \<Longrightarrow> z \<in> set (curls v) \<Longrightarrow> x = y"
  using assms unfolding elements_ok_def by blast+

lemma joined_okI:
  "(\<And>m h. (m, h) \<in> set (joined s) \<Longrightarrow>
     \<exists>x w z. wrappers s x = Some w \<and> object w = Some m \<and> z \<in> set (curls w) \<and> owns (easy s) z h) \<Longrightarrow> joined_ok s"
  unfolding joined_ok_def by blast

lemma joined_okE:
  assumes "joined_ok s" "(m, h) \<in> set (joined s)"
  obtains x w z where "wrappers s x = Some w" "object w = Some m" "z \<in> set (curls w)" "owns (easy s) z h"
  using assms unfolding joined_ok_def by blast

lemma transfers_okD:
  "transfers_ok s \<Longrightarrow> owned (easy s)" "transfers_ok s \<Longrightarrow> \<not> misused s" "transfers_ok s \<Longrightarrow> multis_ok s"
  "transfers_ok s \<Longrightarrow> elements_ok s" "transfers_ok s \<Longrightarrow> joined_ok s"
  by (simp_all add: transfers_ok_def)

text \<open>Destroying elements.\<close>

lemma objs_curl_delete: "objs (curl_delete z e) = (objs e)(z := None)"
  by (auto simp: curl_delete_def curl_tidy_def endLifetime_def setPointer_def cleanup_def fun_eq_iff split: option.split)

lemma objs_fold_delete: "objs (fold curl_delete zs e) z = (if z \<in> set zs then None else objs e z)"
  by (induction zs arbitrary: e) (auto simp: objs_curl_delete)

lemma owned_fold_delete: "owned e \<Longrightarrow> owned (fold curl_delete zs e)"
  by (induction zs arbitrary: e) (auto simp: curl_delete_def owned_tidy owned_end)

lemma fold_destroy:
  "distinct zs \<Longrightarrow> \<not> misused s \<Longrightarrow> (\<And>z h. z \<in> set zs \<Longrightarrow> pointer z (easy s) = Some h \<Longrightarrow> h \<notin> snd ` set (joined s)) \<Longrightarrow>
   fold destroy zs s = s\<lparr>easy := fold curl_delete zs (easy s)\<rparr>"
proof (induction zs arbitrary: s)
  case (Cons z zs)
  have d: "destroy z s = s\<lparr>easy := curl_delete z (easy s)\<rparr>"
    using Cons.prems(2) Cons.prems(3) [of z] by (cases s) (auto simp: destroy_def)
  have "pointer z' (curl_delete z (easy s)) = pointer z' (easy s)" if "z' \<in> set zs" for z'
    using that Cons.prems(1) by (auto simp: pointer_def objs_curl_delete)
  then have "\<And>z' h. z' \<in> set zs \<Longrightarrow> pointer z' (easy (destroy z s)) = Some h \<Longrightarrow> h \<notin> snd ` set (joined (destroy z s))"
    using Cons.prems(3) d by auto
  from Cons.IH [OF _ _ this] Cons.prems(1,2) d show ?case by simp
qed simp

lemma fold_remove:
  "fold (\<lambda>i s. curl_multi_remove_handle m (pointer i (easy s)) s) zs s =
   s\<lparr>joined := filter (\<lambda>j. \<not> (\<exists>z \<in> set zs. \<exists>h. pointer z (easy s) = Some h \<and> j = (m, h))) (joined s)\<rparr>"
proof (induction zs arbitrary: s)
  case (Cons z zs)
  have "removeAll j xs = filter (\<lambda>i. i \<noteq> j) xs" for j :: "nat \<times> nat" and xs
    by (induction xs) auto
  then show ?case
    by (simp add: Cons.IH, cases "pointer z (easy s)") (auto simp: curl_multi_remove_handle_def)
qed simp

text \<open>An element whose handle is joined belongs to the wrapper of that multi handle.\<close>

lemma joined_element:
  assumes "transfers_ok s" "(m, h) \<in> set (joined s)" "wrappers s x = Some w" "z \<in> set (curls w)" "pointer z (easy s) = Some h"
  shows "object w = Some m"
proof -
  obtain x' w' z' where j: "wrappers s x' = Some w'" "object w' = Some m" "z' \<in> set (curls w')" "owns (easy s) z' h"
    using joined_okE [OF transfers_okD(5) [OF assms(1)] assms(2)] .
  have "z' = z" using ownedD(5) [OF transfers_okD(1) [OF assms(1)] j(4)] assms(5) by (simp add: pointer_owns)
  then have "x' = x" using elements_okD(3) [OF transfers_okD(4) [OF assms(1)] j(1) assms(3)] j(3) assms(4) by simp
  with j assms(3) show ?thesis by simp
qed

text \<open>What the destructor does.\<close>

lemma removed_by_tidy:
  assumes "transfers_ok s" "wrappers s x = Some w" "object w = Some m" "j \<in> set (joined s)"
  shows "(\<exists>z \<in> set (curls w). \<exists>h. pointer z (easy s) = Some h \<and> j = (m, h)) \<longleftrightarrow> fst j = m"
proof
  assume "fst j = m"
  then obtain h where j: "j = (m, h)" by (cases j) auto
  with assms(4) obtain x' w' z where z: "wrappers s x' = Some w'" "object w' = Some m" "z \<in> set (curls w')" "owns (easy s) z h"
    using joined_okE [OF transfers_okD(5) [OF assms(1)], of m h] by blast
  have "x' = x" using multis_okD(5) [OF transfers_okD(3) [OF assms(1)] z(1) assms(2) z(2) assms(3)] .
  with z j assms(2) show "\<exists>z \<in> set (curls w). \<exists>h. pointer z (easy s) = Some h \<and> j = (m, h)"
    by (auto simp: pointer_owns)
qed auto

lemma multi_delete_eq:
  assumes "transfers_ok s" "wrappers s x = Some w"
  shows "multi_delete x s = s\<lparr>wrappers := (wrappers s)(x := None), easy := fold curl_delete (curls w) (easy s),
    joined := filter (\<lambda>j. object w \<noteq> Some (fst j)) (joined s), cleaned := cleaned s @ (case object w of None \<Rightarrow> [] | Some m \<Rightarrow> [m])\<rparr>"
proof -
  have el: "distinct (curls w)" "\<not> misused s"
    using elements_okD(1) [OF transfers_okD(4) [OF assms(1)] assms(2)] transfers_okD(2) [OF assms(1)] by auto
  show ?thesis
  proof (cases "object w")
    case None
    have "h \<notin> snd ` set (joined s)" if "z \<in> set (curls w)" "pointer z (easy s) = Some h" for z h
      using joined_element [OF assms(1) _ assms(2) that] None by auto
    then have "fold destroy (curls w) s = s\<lparr>easy := fold curl_delete (curls w) (easy s)\<rparr>"
      using el by (intro fold_destroy)
    with None assms(2) show ?thesis
      by (simp add: multi_delete_def multi_tidy_def the_multi_def)
  next
    case (Some m)
    let ?J = "filter (\<lambda>j. m \<noteq> fst j) (joined s)"
    let ?s = "s\<lparr>joined := ?J\<rparr>"
    have "filter (\<lambda>j. \<not> (\<exists>z \<in> set (curls w). \<exists>h. pointer z (easy s) = Some h \<and> j = (m, h))) (joined s) = ?J"
      by (rule filter_cong [OF refl], subst removed_by_tidy [OF assms Some]) auto
    then have r: "fold (\<lambda>i s. curl_multi_remove_handle m (pointer i (easy s)) s) (curls w) s = ?s"
      by (simp only: fold_remove)
    have "h \<notin> snd ` set ?J" if "z \<in> set (curls w)" "pointer z (easy s) = Some h" for z h
      using joined_element [OF assms(1) _ assms(2) that] Some by auto
    then have "fold destroy (curls w) ?s = ?s\<lparr>easy := fold curl_delete (curls w) (easy s)\<rparr>"
      using el fold_destroy [of "curls w" ?s] by simp
    with r Some assms(2) el show ?thesis
      by (cases s) (auto simp: multi_delete_def multi_tidy_def the_multi_def setMulti_def curl_multi_cleanup_def)
  qed
qed

lemma multi_delete_multis:
  assumes "transfers_ok s" "wrappers s x = Some w"
  shows "multis_ok (multi_delete x s)"
proof (rule multis_okI)
  note eq = multi_delete_eq [OF assms]
  note m = multis_okD [OF transfers_okD(3) [OF assms(1)]]
  show "\<exists>y v. wrappers (multi_delete x s) y = Some v \<and> object v = Some n"
    if "n < multis (multi_delete x s)" "n \<notin> set (cleaned (multi_delete x s))" for n
  proof -
    from that have n: "n < multis s" "n \<notin> set (cleaned s)" "object w \<noteq> Some n"
      by (auto simp: eq split: option.splits)
    with m(3) obtain y v where "wrappers s y = Some v" "object v = Some n" by blast
    with n(3) assms(2) show ?thesis by (intro exI [of _ y] exI [of _ v]) (auto simp: eq)
  qed
  show "y = z" if "wrappers (multi_delete x s) y = Some v" "wrappers (multi_delete x s) z = Some u"
      "object v = Some n" "object u = Some n" for y z v u n
    using that m(5) [of y v z u n] by (auto simp: eq split: if_splits)
  show "n < multis (multi_delete x s) \<and> n \<notin> set (cleaned (multi_delete x s))"
    if "wrappers (multi_delete x s) y = Some v" "object v = Some n" for y v n
  proof -
    from that have y: "y \<noteq> x" "wrappers s y = Some v" by (auto simp: eq split: if_splits)
    then have "object w \<noteq> Some n" using m(5) [OF y(2) assms(2) that(2)] by auto
    with m(4) [OF y(2) that(2)] show ?thesis by (auto simp: eq split: option.splits)
  qed
  show "distinct (cleaned (multi_delete x s))" "set (cleaned (multi_delete x s)) \<subseteq> {..<multis (multi_delete x s)}"
    using m(1,2) m(4) [OF assms(2)] by (auto simp: eq split: option.split)
qed

lemma multi_delete_ok:
  assumes "transfers_ok s" "wrappers s x = Some w"
  shows "transfers_ok (multi_delete x s)"
proof -
  note eq = multi_delete_eq [OF assms]
  note e = elements_okD [OF transfers_okD(4) [OF assms(1)]]
  have other: "z \<notin> set (curls w)" if "wrappers s y = Some v" "y \<noteq> x" "z \<in> set (curls v)" for y v z
    using e(3) [OF that(1) assms(2) that(3)] that(2) by auto
  have "elements_ok (multi_delete x s)"
    by (rule elements_okI) (use e other in \<open>auto simp: eq objs_fold_delete split: if_splits\<close>)
  moreover have "joined_ok (multi_delete x s)"
  proof (rule joined_okI)
    fix n h assume "(n, h) \<in> set (joined (multi_delete x s))"
    then have n: "(n, h) \<in> set (joined s)" "object w \<noteq> Some n" by (auto simp: eq)
    obtain y v z where y: "wrappers s y = Some v" "object v = Some n" "z \<in> set (curls v)" "owns (easy s) z h"
      using joined_okE [OF transfers_okD(5) [OF assms(1)] n(1)] .
    from y(1,2) n(2) assms(2) have "y \<noteq> x" by auto
    with other [OF y(1) this y(3)] y
    show "\<exists>y v z. wrappers (multi_delete x s) y = Some v \<and> object v = Some n \<and> z \<in> set (curls v) \<and> owns (easy (multi_delete x s)) z h"
      by (intro exI [of _ y] exI [of _ v] exI [of _ z]) (auto simp: eq owns_def objs_fold_delete)
  qed
  ultimately show ?thesis
    using transfers_okD(1,2) [OF assms(1)] multi_delete_multis [OF assms]
    by (simp add: transfers_ok_def eq owned_fold_delete)
qed

text \<open>The other steps.\<close>

lemma multi_new_ok:
  assumes "transfers_ok s" "wrappers s x = None"
  shows "transfers_ok (multi_new x ok s)"
proof -
  note m = multis_okD [OF transfers_okD(3) [OF assms(1)]]
  note e = elements_okD [OF transfers_okD(4) [OF assms(1)]]
  have "multis_ok (multi_new x ok s)"
  proof (rule multis_okI)
    fix n assume "n < multis (multi_new x ok s)" "n \<notin> set (cleaned (multi_new x ok s))"
    then consider "n < multis s" "n \<notin> set (cleaned s)" | "ok" "n = multis s"
      by (auto simp: multi_new_def setMulti_def less_Suc_eq split: if_splits)
    then show "\<exists>y v. wrappers (multi_new x ok s) y = Some v \<and> object v = Some n"
    proof cases
      case 1
      with m(3) obtain y v where "wrappers s y = Some v" "object v = Some n" by blast
      with assms(2) show ?thesis by (intro exI [of _ y] exI [of _ v]) (auto simp: multi_new_def setMulti_def)
    qed (auto simp: multi_new_def setMulti_def)
  qed (use m in \<open>fastforce simp: multi_new_def setMulti_def less_Suc_eq split: if_splits\<close>)+
  moreover have "elements_ok (multi_new x ok s)"
    by (rule elements_okI) (use e in \<open>fastforce simp: multi_new_def setMulti_def split: if_splits\<close>)+
  moreover have "joined_ok (multi_new x ok s)"
  proof (rule joined_okI)
    fix n h assume "(n, h) \<in> set (joined (multi_new x ok s))"
    then have "(n, h) \<in> set (joined s)" by (simp add: multi_new_def setMulti_def split: if_splits)
    then obtain y v z where "wrappers s y = Some v" "object v = Some n" "z \<in> set (curls v)" "owns (easy s) z h"
      using joined_okE [OF transfers_okD(5) [OF assms(1)]] by blast
    with assms(2) show "\<exists>y v z. wrappers (multi_new x ok s) y = Some v \<and> object v = Some n \<and> z \<in> set (curls v) \<and> owns (easy (multi_new x ok s)) z h"
      by (intro exI [of _ y] exI [of _ v] exI [of _ z]) (auto simp: multi_new_def setMulti_def)
  qed
  ultimately show ?thesis
    using transfers_okD(1,2) [OF assms(1)] by (simp add: transfers_ok_def multi_new_def setMulti_def)
qed

text \<open>A move renames the owner of the multi handle and of the elements.\<close>

lemma multi_move_new_eq:
  assumes "wrappers s x = None" "wrappers s y = Some w"
  defines "t \<equiv> multi_move_new x y s" and "origin \<equiv> \<lambda>z. if z = x then y else z"
  shows "t = s\<lparr>wrappers := (wrappers s)(x \<mapsto> w, y \<mapsto> \<lparr>object = None, curls = []\<rparr>)\<rparr>"
    and "wrappers t z = Some v \<Longrightarrow> object v \<noteq> None \<or> curls v \<noteq> [] \<Longrightarrow> wrappers s (origin z) = Some v"
    and "wrappers s z = Some v \<Longrightarrow> \<exists>z'. wrappers t z' = Some v"
    and "wrappers t z = Some v \<Longrightarrow> wrappers t z' = Some v' \<Longrightarrow> object v \<noteq> None \<or> curls v \<noteq> [] \<Longrightarrow>
      object v' \<noteq> None \<or> curls v' \<noteq> [] \<Longrightarrow> origin z = origin z' \<Longrightarrow> z = z'"
proof -
  have ne: "x \<noteq> y" using assms(1,2) by auto
  show eq: "t = s\<lparr>wrappers := (wrappers s)(x \<mapsto> w, y \<mapsto> \<lparr>object = None, curls = []\<rparr>)\<rparr>"
    by (simp add: t_def multi_move_new_def the_multi_def setMulti_def assms(2))
  show "wrappers t z = Some v \<Longrightarrow> object v \<noteq> None \<or> curls v \<noteq> [] \<Longrightarrow> wrappers s (origin z) = Some v"
    and "wrappers t z = Some v \<Longrightarrow> wrappers t z' = Some v' \<Longrightarrow> object v \<noteq> None \<or> curls v \<noteq> [] \<Longrightarrow>
      object v' \<noteq> None \<or> curls v' \<noteq> [] \<Longrightarrow> origin z = origin z' \<Longrightarrow> z = z'"
    using ne assms(2) by (auto simp: eq origin_def split: if_splits)
  show "wrappers s z = Some v \<Longrightarrow> \<exists>z'. wrappers t z' = Some v"
    using ne assms(1,2) by (intro exI [of _ "if z = y then x else z"]) (auto simp: eq)
qed

lemma multi_move_new_ok:
  assumes "transfers_ok s" "wrappers s x = None" "wrappers s y = Some w"
  shows "transfers_ok (multi_move_new x y s)"
proof -
  note m = multis_okD [OF transfers_okD(3) [OF assms(1)]]
  note e = elements_okD [OF transfers_okD(4) [OF assms(1)]]
  let ?t = "multi_move_new x y s"
  note eq = multi_move_new_eq(1) [OF assms(2,3)] and origin = multi_move_new_eq(2) [OF assms(2,3)]
    and forth = multi_move_new_eq(3) [OF assms(2,3)] and origin_inj = multi_move_new_eq(4) [OF assms(2,3)]
  have same: "easy ?t = easy s" "multis ?t = multis s" "cleaned ?t = cleaned s" "joined ?t = joined s" "misused ?t = misused s"
    by (simp_all add: eq)
  have used: "object v \<noteq> None \<or> curls v \<noteq> []" if "i \<in> set (curls v)" for v and i :: nat
    using that by auto
  have "multis_ok ?t"
  proof (rule multis_okI)
    show "z = z'" if "wrappers ?t z = Some v" "wrappers ?t z' = Some v'" "object v = Some n" "object v' = Some n" for z z' v v' n
      using origin_inj [OF that(1,2)] m(5) [OF origin [OF that(1)] origin [OF that(2)] that(3,4)] that(3,4) by simp
    show "\<exists>z v. wrappers ?t z = Some v \<and> object v = Some n" if "n < multis ?t" "n \<notin> set (cleaned ?t)" for n
      using m(3) [of n] that forth unfolding same by blast
  qed (use m(1,2) m(4) [OF origin] in \<open>auto simp: same\<close>)
  moreover have "elements_ok ?t"
  proof (rule elements_okI)
    show "distinct (curls v)" if "wrappers ?t z = Some v" for z v
      using that e(1) assms(3) by (auto simp: eq split: if_splits)
    show "objs (easy ?t) i \<noteq> None" if "wrappers ?t z = Some v" "i \<in> set (curls v)" for z v i
      using e(2) [OF origin [OF that(1) used [OF that(2)]] that(2)] by (simp add: same)
    show "z = z'" if "wrappers ?t z = Some v" "wrappers ?t z' = Some v'" "i \<in> set (curls v)" "i \<in> set (curls v')" for z z' v v' i
      using origin_inj [OF that(1,2) used used] e(3) [OF origin [OF that(1) used] origin [OF that(2) used] that(3,4)] that(3,4) by blast
  qed
  moreover have "joined_ok ?t"
    using transfers_okD(5) [OF assms(1)] forth unfolding joined_ok_def same by metis
  ultimately show ?thesis
    using transfers_okD(1,2) [OF assms(1)] by (simp add: transfers_ok_def same)
qed

text \<open>An addition moves one handle into a new element and joins it.\<close>

lemma multi_add_eq:
  assumes "wrappers s x = Some w" "z \<noteq> y"
  shows "wrappers (multi_add x y z s) = (wrappers s)(x \<mapsto> w\<lparr>curls := curls w @ [z]\<rparr>)"
    and "easy (multi_add x y z s) = curl_move_new z y (easy s)" "multis (multi_add x y z s) = multis s"
    and "cleaned (multi_add x y z s) = cleaned s" "misused (multi_add x y z s) = misused s"
    and "set (joined (multi_add x y z s)) = set (joined s) \<union> {(m, h). object w = Some m \<and> pointer y (easy s) = Some h}"
  using assms by (auto simp: multi_add_def the_multi_def setMulti_def curl_multi_add_handle_def Let_def
      curl_move_new_def pointer_def setPointer_def split: option.splits)

lemma multi_add_joined:
  assumes "joined_ok s" "wrappers s x = Some w" "z \<noteq> y"
    and keep: "\<And>x' v i. wrappers s x' = Some v \<Longrightarrow> i \<in> set (curls v) \<Longrightarrow> objs (curl_move_new z y (easy s)) i = objs (easy s) i"
  shows "joined_ok (multi_add x y z s)"
proof (rule joined_okI)
  let ?t = "multi_add x y z s" and ?w = "w\<lparr>curls := curls w @ [z]\<rparr>"
  note eq = multi_add_eq [OF assms(2,3)]
  fix n h assume "(n, h) \<in> set (joined ?t)"
  then consider "(n, h) \<in> set (joined s)" | "object w = Some n" "pointer y (easy s) = Some h" by (auto simp: eq)
  then show "\<exists>x' v i. wrappers ?t x' = Some v \<and> object v = Some n \<and> i \<in> set (curls v) \<and> owns (easy ?t) i h"
  proof cases
    case 1
    then obtain x' v i where j: "wrappers s x' = Some v" "object v = Some n" "i \<in> set (curls v)" "owns (easy s) i h"
      using joined_okE [OF assms(1)] by blast
    with keep [OF j(1,3)] assms(2) show ?thesis
      by (intro exI [of _ x'] exI [of _ "if x' = x then ?w else v"] exI [of _ i]) (auto simp: eq owns_def)
  next
    case 2
    then have "owns (curl_move_new z y (easy s)) z h" using assms(3) by (simp add: owns_def curl_move_new_def setPointer_def)
    with 2(1) show ?thesis by (intro exI [of _ x] exI [of _ ?w] exI [of _ z]) (simp add: eq)
  qed
qed

lemma multi_add_ok:
  assumes "transfers_ok s" "wrappers s x = Some w" "objs (easy s) y \<noteq> None" "y \<notin> elements s" "objs (easy s) z = None"
  shows "transfers_ok (multi_add x y z s)"
proof -
  note m = multis_okD [OF transfers_okD(3) [OF assms(1)]]
  note e = elements_okD [OF transfers_okD(4) [OF assms(1)]]
  let ?t = "multi_add x y z s"
  have zy: "z \<noteq> y" using assms(3,5) by auto
  note eq = multi_add_eq [OF assms(2) zy]
  have new: "z \<notin> set (curls v)" if "wrappers s x' = Some v" for x' v
    using e(2) [OF that, of z] assms(5) by auto
  have keep: "objs (curl_move_new z y (easy s)) i = objs (easy s) i" if "wrappers s x' = Some v" "i \<in> set (curls v)" for x' v i
    using that new [OF that(1)] assms(4) by (auto simp: elements_def ran_def curl_move_new_def setPointer_def)
  have "owned (curl_move_new z y (easy s))"
    using curl_step_owned [OF transfers_okD(1) [OF assms(1)]] curl_step.move_new assms(3,5) by blast
  moreover have "multis_ok ?t"
  proof (rule multis_okI)
    show "\<exists>x' v. wrappers ?t x' = Some v \<and> object v = Some n" if "n < multis ?t" "n \<notin> set (cleaned ?t)" for n
    proof -
      from that have "n < multis s" "n \<notin> set (cleaned s)" by (simp_all add: eq)
      then obtain x' v where "wrappers s x' = Some v" "object v = Some n" using m(3) by blast
      with assms(2) show ?thesis by (cases "x' = x") (auto simp: eq intro: exI [of _ x'])
    qed
  qed (use m assms(2) in \<open>auto simp: eq split: if_splits\<close>)
  moreover have "elements_ok ?t"
  proof (rule elements_okI)
    show "objs (easy ?t) i \<noteq> None" if "wrappers ?t x' = Some v" "i \<in> set (curls v)" for x' v i
      using that e(2) keep assms(2) by (cases "i = z") (auto simp: eq curl_move_new_def setPointer_def split: if_splits)
  qed (use e(1) e(3) new assms(2) in \<open>auto simp: eq split: if_splits\<close>)
  ultimately show ?thesis
    using transfers_okD(2,5) [OF assms(1)] multi_add_joined [OF _ assms(2) zy keep] by (simp add: transfers_ok_def eq)
qed

lemma other_ok:
  assumes "transfers_ok s" "curl_step (easy s) e" "\<And>z. z \<in> elements s \<Longrightarrow> objs e z = objs (easy s) z"
  shows "transfers_ok (s\<lparr>easy := e\<rparr>)"
proof -
  have keep: "objs e z = objs (easy s) z" if "wrappers s x = Some w" "z \<in> set (curls w)" for x w z
    using that by (intro assms(3)) (auto simp: elements_def ran_def)
  have "multis_ok (s\<lparr>easy := e\<rparr>)" using transfers_okD(3) [OF assms(1)] by (simp add: multis_ok_def)
  moreover have "elements_ok (s\<lparr>easy := e\<rparr>)"
    by (rule elements_okI) (use elements_okD [OF transfers_okD(4) [OF assms(1)]] keep in auto)
  moreover have "joined_ok (s\<lparr>easy := e\<rparr>)"
  proof (rule joined_okI)
    fix n h assume "(n, h) \<in> set (joined (s\<lparr>easy := e\<rparr>))"
    then obtain x w z where "wrappers s x = Some w" "object w = Some n" "z \<in> set (curls w)" "owns (easy s) z h"
      using joined_okE [OF transfers_okD(5) [OF assms(1)], of n h] by auto
    with keep show "\<exists>x w z. wrappers (s\<lparr>easy := e\<rparr>) x = Some w \<and> object w = Some n \<and> z \<in> set (curls w) \<and> owns (easy (s\<lparr>easy := e\<rparr>)) z h"
      by (intro exI [of _ x] exI [of _ w] exI [of _ z]) (simp add: owns_def)
  qed
  ultimately show ?thesis
    using curl_step_owned [OF transfers_okD(1) [OF assms(1)] assms(2)] transfers_okD(2) [OF assms(1)]
    by (simp add: transfers_ok_def)
qed

lemma transfer_step_ok:
  assumes "transfer_step s t" "transfers_ok s"
  shows "transfers_ok t"
  using assms
  by cases (auto intro: multi_new_ok multi_move_new_ok multi_add_ok multi_delete_ok other_ok)

lemma transfers_reached_ok: "transfer_step\<^sup>*\<^sup>* no_transfers s \<Longrightarrow> transfers_ok s"
proof (induction rule: rtranclp_induct)
  case base
  show ?case
    by (simp add: transfers_ok_def no_transfers_def owned_start multis_ok_def elements_ok_def joined_ok_def)
qed (rule transfer_step_ok)

section \<open>The loop\<close>

text \<open>If the transfers are over after some number of calls, \<^verbatim>\<open>perform\<close> returns then.\<close>

lemma multi_perform_returns:
  assumes "\<And>i. i < k \<Longrightarrow> fst (f (((\<lambda>c. snd (f c)) ^^ i) c)) \<noteq> 0" and "fst (f (((\<lambda>c. snd (f c)) ^^ k) c)) = 0"
  shows "multi_perform f c = Some (((\<lambda>c. snd (f c)) ^^ Suc k) c)"
  using assms
proof (induction k arbitrary: c)
  case 0
  then show ?case by (subst multi_perform.simps) (simp add: case_prod_beta)
next
  case (Suc k)
  have "fst (f c) \<noteq> 0" using Suc.prems(1) [of 0] by simp
  moreover have "multi_perform f (snd (f c)) = Some (((\<lambda>c. snd (f c)) ^^ Suc k) (snd (f c)))"
  proof (rule Suc.IH)
    show "fst (f (((\<lambda>c. snd (f c)) ^^ i) (snd (f c)))) \<noteq> 0" if "i < k" for i
      using Suc.prems(1) [of "Suc i"] that by (simp add: funpow_Suc_right del: funpow.simps)
    show "fst (f (((\<lambda>c. snd (f c)) ^^ k) (snd (f c)))) = 0"
      using Suc.prems(2) by (simp add: funpow_Suc_right del: funpow.simps)
  qed
  ultimately show ?case by (subst multi_perform.simps) (simp add: case_prod_beta funpow_Suc_right del: funpow.simps)
qed

section \<open>Properties\<close>

text \<open>C26. Transfers are taken apart in the order that libcurl asks for. However multi handles and the easy
  handles given to them are made, moved, added and destroyed, no easy handle is released while it is
  joined to a multi handle, no multi handle is released while an easy handle is joined to it, and each is
  released at most once; when no wrapper is left, every multi handle has been released and nothing is
  joined. The move assignment is left out: it always ends in undefined behaviour.\<close>

theorem transfers_taken_apart:
  assumes "transfer_step\<^sup>*\<^sup>* no_transfers s"
  shows "\<not> misused s \<and> distinct (cleaned s) \<and> distinct (released_calls (easy s)) \<and>
    (\<forall>m h. (m, h) \<in> set (joined s) \<longrightarrow> m \<notin> set (cleaned s) \<and> h \<notin> set (released_calls (easy s))) \<and>
    (dom (wrappers s) = {} \<longrightarrow> set (cleaned s) = {..<multis s} \<and> joined s = []) \<and>
    fst (multi_move_assign x y s) = Inl Undefined_behaviour"
proof -
  note ok = transfers_reached_ok [OF assms]
  note m = multis_okD [OF transfers_okD(3) [OF ok]]
  note j = joined_okE [OF transfers_okD(5) [OF ok]]
  note o = ownedD [OF transfers_okD(1) [OF ok]]
  have "m \<notin> set (cleaned s) \<and> h \<notin> set (released_calls (easy s))" if "(m, h) \<in> set (joined s)" for m h
    by (rule j [OF that]) (use m(4) o(4) in blast)
  moreover have "set (cleaned s) = {..<multis s} \<and> joined s = []" if none: "dom (wrappers s) = {}"
  proof
    show "set (cleaned s) = {..<multis s}" using m(2,3) none by (auto simp: dom_def)
    have "(m, h) \<notin> set (joined s)" for m h
      using j [of m h False] none by (auto simp: dom_def)
    then show "joined s = []" by (cases "joined s") auto
  qed
  ultimately show ?thesis
    using transfers_okD(2) [OF ok] m(1) o(1)
    by (simp add: multi_move_assign_def seq_def bind_def modify_def liftE_def)
qed

text \<open>One transfer, added to a wrapper that is then moved and destroyed.\<close>

definition sample_transfers :: transfers where
  "sample_transfers = (let s = multi_new 0 True no_transfers; s = s\<lparr>easy := curl_new 1 True (easy s)\<rparr>;
     s = multi_add 0 1 2 s; s = multi_move_new 3 0 s
   in multi_delete 0 (multi_delete 3 s))"

lemmas transfer_ops = sample_transfers_def multi_new_def multi_add_def multi_move_new_def multi_delete_def multi_tidy_def
  the_multi_def setMulti_def curl_multi_add_handle_def curl_multi_remove_handle_def curl_multi_cleanup_def destroy_def
  no_transfers_def no_handles_def curl_new_def curl_move_new_def curl_delete_def curl_tidy_def setPointer_def pointer_def
  cleanup_def endLifetime_def

lemma sample_transfers_reached: "transfer_step\<^sup>*\<^sup>* no_transfers sample_transfers"
proof -
  let ?a = "multi_new 0 True no_transfers"
  let ?b = "?a\<lparr>easy := curl_new 1 True (easy ?a)\<rparr>"
  let ?c = "multi_add 0 1 2 ?b" let ?d = "multi_move_new 3 0 ?c" let ?e = "multi_delete 3 ?d"
  have "transfer_step no_transfers ?a" by (rule transfer_step.new) (simp add: no_transfers_def)
  moreover have "transfer_step ?a ?b"
    by (rule transfer_step.other [OF curl_step.new]) (simp_all add: transfer_ops elements_def)
  moreover have "transfer_step ?b ?c" by (rule transfer_step.add) (simp_all add: transfer_ops elements_def)
  moreover have "transfer_step ?c ?d" by (rule transfer_step.move_new) (simp_all add: transfer_ops)
  moreover have "transfer_step ?d ?e" by (rule transfer_step.delete) (simp add: transfer_ops)
  moreover have "transfer_step ?e sample_transfers"
    unfolding sample_transfers_def Let_def by (rule transfer_step.delete) (simp add: transfer_ops)
  ultimately show ?thesis by (meson converse_rtranclp_into_rtranclp rtranclp.rtrancl_refl)
qed

theorem transfers_taken_apart_witness:
  "\<not> misused sample_transfers \<and> set (cleaned sample_transfers) = {..<1} \<and> joined sample_transfers = [] \<and>
   released_calls (easy sample_transfers) = [0]"
proof -
  have "dom (wrappers sample_transfers) = {}" "multis sample_transfers = 1" "released_calls (easy sample_transfers) = [0]"
    by (simp_all add: transfer_ops)
  with transfers_taken_apart [OF sample_transfers_reached] show ?thesis by simp
qed

end
