(* ===== verification/Spec2Isabelle.thy ===== *)
theory Spec2Isabelle
  imports Server Translator TemplateText System Workflow Ledger Garage Accounts Catalogue Transfers
begin

text \<open>
  \<^bold>\<open>A verification of the WFA workshop software.\<close>

  The repository holds two programs. The \<^emph>\<open>server\<close> (\<^verbatim>\<open>src/Server\<close>) keeps the users, vehicles, parts and
  services of a workshop in an SQLite database and answers HTTP requests on port 9001; it knows its
  clients by session cookies. The \<^emph>\<open>translator\<close> (\<^verbatim>\<open>src/Translator\<close>) answers browsers on port 9002: it
  forwards each request to the server and turns the answer into a page by a template (HTMT). Both
  share the response format and the query parser (\<^verbatim>\<open>src/Shared\<close>).

  \<^bold>\<open>Effects.\<close> Theory \<^verbatim>\<open>Prelude\<close>. A C++ routine ends by returning or in a \<open>fault\<close>: an exception of the
  standard library (nothing in the program catches one), a failed \<^verbatim>\<open>assert\<close>, behaviour the language
  leaves undefined, or not returning. A pure routine is a value of \<open>fault + 'a\<close>; a routine with effects
  is a function from a state to such a value and the state reached (\<open>prog\<close>), so that what was done
  before a fault stays done. Strings are lists of characters, ranges of iterators the lists of their
  characters.

  \<^bold>\<open>Theories and sources.\<close>
  \<^item> \<^verbatim>\<open>Response\<close>: \<^verbatim>\<open>Shared/include/Response.h\<close>. The value \<open>responseWrapper\<close>, \<open>genericAdd\<close>, the printer
    \<open>toData\<close> in both layouts, the parsers \<open>fromData\<close> and \<open>fromUnformattedData\<close>. Shown: building keeps the
    invariant, the printer refines a reference text, both layouts are read back, values with
    structural characters are not.
  \<^item> \<^verbatim>\<open>Query\<close>: \<^verbatim>\<open>Shared/include/Query.h\<close>. Query strings and forms as maps.
  \<^item> \<^verbatim>\<open>Database\<close>: \<^verbatim>\<open>Server/include/Database.h\<close>, \<^verbatim>\<open>Server/src/Database.cpp\<close>. Prepared statements, the loop
    over the rows, access to cells, generated \<^verbatim>\<open>UPDATE\<close> and \<^verbatim>\<open>LIKE\<close> texts.
  \<^item> \<^verbatim>\<open>Network\<close>: \<^verbatim>\<open>Server/include/Network.h\<close>, \<^verbatim>\<open>ServerData.h\<close>, \<^verbatim>\<open>ServerData.cpp\<close>. The state \<open>server\<close> that all
    handlers share, cookies, the session table of \<^verbatim>\<open>authenticator\<close> (\<open>request\<close>, \<open>release\<close>, \<open>verify\<close>), and
    \<open>HttpCallWrapper\<close>, which collects a body. Each piece of a body says whether the request object still exists
    when it arrives: uWebSockets keeps it only while the handler of the request runs, but the callbacks use the
    pointer to it.
  \<^item> \<^verbatim>\<open>Handlers\<close>: what the handlers have in common, and the rules by which they are run and framed.
  \<^item> \<^verbatim>\<open>AuthRoutes\<close>, \<^verbatim>\<open>UserRoutes\<close>, \<^verbatim>\<open>VehicleRoutes\<close>, \<^verbatim>\<open>PartRoutes\<close>, \<^verbatim>\<open>ServiceRoutes\<close>:
    \<^verbatim>\<open>Server/include/WebRoutes/*.h\<close>, one definition per handler, every query included. \<^verbatim>\<open>Price\<close> has the
    double-precision arithmetic of the totals.
  \<^item> \<^verbatim>\<open>Effects\<close>: what a statement does to a view of the database (\<open>effect\<close>, \<open>outcome\<close>; \<open>updates\<close> for the generated update
    statements), postconditions of handlers with a rule for each construct (\<open>ensures\<close>), and moves that report their
    success. On it stand five theories over the tables of \<^verbatim>\<open>Server/sqlcrt.txt\<close>. \<^verbatim>\<open>Workflow\<close>: the life of a service
    (\<open>services\<close>, the specification \<open>lifecycle\<close>). \<^verbatim>\<open>Ledger\<close>: the parts listed for a service (\<open>entry\<close>). \<^verbatim>\<open>Garage\<close>: vehicles and
    their models (\<open>garage\<close>, the specification \<open>garage_move\<close>). \<^verbatim>\<open>Catalogue\<close>: suppliers, part groups and parts (\<open>catalogue\<close>,
    the specification \<open>catalogue_move\<close>). \<^verbatim>\<open>Accounts\<close>: accounts and sessions together (\<open>account\<close>, \<open>privileged\<close>). Shown: the
    routes make the specified moves, for the callers the specification allows, whichever statement fails;
    the tables stay consistent in every history of calls; nothing is lost without a report; a vehicle keeps
    its owner; a registered vehicle is found; nobody deletes or changes an account above the own
    level; and permission levels do not rise, if permissions are written in digits and not sent to the update route.
  \<^item> \<^verbatim>\<open>Listings\<close>: what the routes that look something up make of the rows of a result. Shown: the parser of the
    translator reads the rows from the answer.
  \<^item> \<^verbatim>\<open>Console\<close>: \<^verbatim>\<open>Server/src/Source.cpp\<close>. The database console and \<^verbatim>\<open>main\<close>.
  \<^item> \<^verbatim>\<open>Server\<close>: \<^verbatim>\<open>Server/src/Network.cpp\<close>. The route table \<open>net\<close> and the histories of the server:
    the visits that led to a state (\<open>history\<close>), and which of them opened or closed a session (\<open>opens\<close>, \<open>closes\<close>).
  \<^item> \<^verbatim>\<open>Template\<close>: \<^verbatim>\<open>Translator/src/Source.cpp\<close>, lines 12 to 493. The search for closing tags, conditions,
    the parser and the application of templates. \<^verbatim>\<open>Rendering\<close> says what a template means and relates
    the code to it; \<^verbatim>\<open>TemplateText\<close> has the written form of a template and the round trip.
  \<^item> \<^verbatim>\<open>Translator\<close>: \<^verbatim>\<open>Translator/include/Curl.h\<close>, \<^verbatim>\<open>Forwarding.h\<close>, and the rest of \<^verbatim>\<open>Source.cpp\<close>. The HTTP
    client, the page wrappers, the link file.
  \<^item> \<^verbatim>\<open>System\<close>: both programs together.
  \<^item> \<^verbatim>\<open>Handles\<close>: the special member functions of \<^verbatim>\<open>curlwrapper\<close>, \<^verbatim>\<open>requestWrapper\<close> and \<^verbatim>\<open>sqlite3DB\<close> as operations on a
    store of handles. Shown: every handle is released exactly once. \<^verbatim>\<open>Transfers\<close> adds \<^verbatim>\<open>multicurlwrapper\<close>: easy
    handles leave their multi handle before either is released.

  \<^bold>\<open>Interfaces.\<close> \<open>text_codec\<close> (printers and parsers; the two layouts of a response, the written templates),
  \<open>result_source\<close> (rectangular query results), \<open>answering_handler\<close> and its extension
  \<open>session_preserving\<close> (what the wrapper and the route table rely on; interpreted for every handler),
  \<open>page_source\<close> (what a page wrapper relies on when it applies a template), \<open>owning_class\<close> (classes that own
  a handle), \<open>lookup_route\<close> (one query, one answer; interpreted for the six routes that look suppliers, groups and
  parts up), \<open>moves\<close> and its extension \<open>reported_moves\<close> (from single moves of a specification to histories;
  interpreted for the life cycle of services, the list of parts, the vehicles and the catalogue).

  \<^bold>\<open>What is shown across components.\<close> A request without the permission its route needs changes nothing
  and learns nothing but a status; every session goes back to a visit of the history whose form has a
  user name and a password that the database of that moment vouched for, and no later visit has closed it; each route ends its response once; a login, directly or through the
  translator, gives a cookie with which later requests are recognised at the right level; a page is
  the meaning of its template for the data the server sent, also for uploads, if the last piece arrives before the
  request has ended (afterwards both programs use a dangling pointer, \<^verbatim>\<open>body_pieces\<close>, \<^verbatim>\<open>late_upload_undefined\<close>). The errors that the proofs brought to
  light are stated as theorems too (for instance \<^verbatim>\<open>permission_escalation\<close> and
  \<^verbatim>\<open>exponent_escalation\<close>, the two ways to a level that nobody granted, \<^verbatim>\<open>registered_user_cannot_login\<close>, \<^verbatim>\<open>authorise_without_quote_loses_request\<close>,
  \<^verbatim>\<open>created_part_not_in_group\<close>, and \<^verbatim>\<open>close_by_request_number\<close>, where the number of a request is taken for the number
  of its service).

  \<^bold>\<open>Parameters.\<close> SQLite (record \<open>sqlite3\<close>), libcurl (\<open>curl_easy_perform\<close>, \<open>curl_unescape\<close>), the requests and
  body events of uWebSockets, the file system, the iteration order of unordered maps and the random
  numbers are arguments of the definitions. What is relied on is a named hypothesis of the theorem
  that needs it (\<open>select_readonly\<close>, \<open>stores_services\<close>, \<open>stores_entries\<close>, \<open>stores_garage\<close>, \<open>lists_vehicles\<close>,
  \<open>stores_catalogue\<close>, \<open>lists_parts\<close>, \<open>stores_accounts\<close>, \<open>any_order\<close>, \<open>delivers\<close>, \<open>carries\<close>): for statements, the effect that SQLite
  documents for the tables as the schema creates them, with the conversion of texts in integer columns and the
  reading of double quotation marks left open; and
  every such theorem is applied to a concrete instance; the connections for it are built from a function that
  executes a statement (\<open>table_sqlite\<close>).

  \<^bold>\<open>Widths and loops.\<close> Numbers read by \<^verbatim>\<open>from_chars\<close> keep the bounds of their types, permission levels are
  cast through 32-bit words, the depth of the tag search is a 64-bit word, prices are doubles with
  explicit rounding. Loops over text recurse with a measure; the loops that need not end (stepping
  a statement, drawing a session number, running several transfers) are partial functions, and that they
  return is proved where it is claimed. No fuel is used.

  \<^bold>\<open>Not modelled.\<close> The event loop and the router of uWebSockets; \<^verbatim>\<open>isspace\<close> on negative characters; foreign keys, which the program does not enable; the
  pages, which are data. The histories of \<^verbatim>\<open>Workflow\<close>, \<^verbatim>\<open>Ledger\<close>, \<^verbatim>\<open>Garage\<close>, \<^verbatim>\<open>Catalogue\<close> and \<^verbatim>\<open>Accounts\<close> take every other
  activity as one that leaves their tables alone, and the values of updates as free of quotation marks; an
  injected update (\<^verbatim>\<open>update_injection\<close>) need not be so.
\<close>

end
